(* ===== verification/Prelude.thy ===== *)
theory Prelude
  imports Main "HOL-Library.Word" "HOL-Library.Sublist" "HOL-Library.Char_ord"
    "HOL-Library.List_Lexorder" "HOL-Library.Product_Lexorder"
begin

text \<open>
  The vocabulary every other theory of the development uses: the C++ integer and string types
  the code computes with, the pieces of the C++ standard library it calls on them
  (\<open>std::isalnum\<close>, \<open>string_view::find\<close>, \<open>string_view::substr\<close> with its
  \<open>std::out_of_range\<close>, \<open>std::from_chars\<close>, decimal output of \<open>fmt::format\<close>), and
  the generic lemmas about them. A C++ \<open>char\<close> is a byte: \<open>string\<close> is a list of bytes, so
  \<open>length\<close> counts bytes as \<open>std::string::length\<close> does.
\<close>

section \<open>Lemma collections\<close>

named_theorems char_simps \<open>unfolding of the character classes of <cctype>\<close>
named_theorems sv_simps \<open>rewriting of string_view operations\<close>
named_theorems http_simps \<open>unfolding of the message-building calls\<close>

section \<open>Integers\<close>

type_synonym size_t = nat
type_synonym u64 = "64 word"
type_synonym u32 = "32 word"

text \<open>
  \<open>size_t\<close> values are natural numbers below \<open>2 ^ 64\<close>; a subtraction of the code that can go
  below zero is written with \<open>size_sub\<close>, which wraps around.
\<close>

definition size_max :: nat where
  "size_max = 2 ^ 64"

definition size_sub :: "size_t \<Rightarrow> size_t \<Rightarrow> size_t" where
  "size_sub a b = (if b \<le> a then a - b else a + size_max - b)"

lemma size_sub_mod: "a < size_max \<Longrightarrow> b \<le> size_max \<Longrightarrow> size_sub a b = (a + size_max - b) mod size_max"
  by (simp add: size_sub_def mod_if)

lemma size_sub_ge: "b \<le> a \<Longrightarrow> a < size_max \<Longrightarrow> size_sub a b = a - b"
  by (simp add: size_sub_def)

lemma size_sub_lt: "a < b \<Longrightarrow> b \<le> size_max \<Longrightarrow> size_sub a b = a + size_max - b"
  by (simp add: size_sub_def)

lemma small_size: "n \<le> 999 \<Longrightarrow> n < size_max"
  by (simp add: size_max_def)

lemma unat_of_nat_small: "n < 2 ^ 64 \<Longrightarrow> unat (of_nat n :: u64) = n"
  by (simp add: unat_of_nat take_bit_nat_eq_self)

section \<open>Exceptions of the standard library\<close>

text \<open>
  \<open>Undefined\<close> is no exception: it marks the calls whose behaviour the standard leaves undefined
  (\<open>back()\<close> of an empty view), so that a result that is not \<open>Inl Undefined\<close> shows they are not
  reached.
\<close>

datatype exn = Out_of_range | Length_error | Regex_error | Bad_variant_access | Runtime_error string | Undefined

section \<open>Flag enumerations\<close>

text \<open>
  The enumerations \<open>KEY\<close>, \<open>COMPILE\<close> and \<open>filters::supports\<close> are used as sets of bits:
  \<open>(flags & flag) == flag\<close>.
\<close>

unbundle bit_operations_syntax

definition has_flag :: "u32 \<Rightarrow> u32 \<Rightarrow> bool" where
  "has_flag flags flag \<longleftrightarrow> flags AND flag = flag"

lemma has_flag_bit: "has_flag x (push_bit k 1) \<longleftrightarrow> bit x k \<or> 32 \<le> k"
proof
  assume "has_flag x (push_bit k 1)"
  then have "bit (x AND push_bit k 1) k = bit (push_bit k (1 :: u32)) k" by (simp add: has_flag_def)
  then show "bit x k \<or> 32 \<le> k" by (auto simp: bit_simps)
next
  assume "bit x k \<or> 32 \<le> k"
  then show "has_flag x (push_bit k 1)"
    unfolding has_flag_def by (intro bit_word_eqI) (auto simp: bit_simps)
qed

lemma has_flag_or: "has_flag (x OR y) (push_bit k 1) \<longleftrightarrow> has_flag x (push_bit k 1) \<or> has_flag y (push_bit k 1)"
  unfolding has_flag_bit by (auto simp: bit_simps)

section \<open>Characters\<close>

abbreviation code :: "char \<Rightarrow> nat" where
  "code c \<equiv> of_char c"

definition isdigit :: "char \<Rightarrow> bool" where
  "isdigit c \<longleftrightarrow> 48 \<le> code c \<and> code c \<le> 57"

definition isupper :: "char \<Rightarrow> bool" where
  "isupper c \<longleftrightarrow> 65 \<le> code c \<and> code c \<le> 90"

definition islower :: "char \<Rightarrow> bool" where
  "islower c \<longleftrightarrow> 97 \<le> code c \<and> code c \<le> 122"

definition isalnum :: "char \<Rightarrow> bool" where
  "isalnum c \<longleftrightarrow> isdigit c \<or> isupper c \<or> islower c"

definition isxdigit :: "char \<Rightarrow> bool" where
  "isxdigit c \<longleftrightarrow> isdigit c \<or> (65 \<le> code c \<and> code c \<le> 70) \<or> (97 \<le> code c \<and> code c \<le> 102)"

definition isspace :: "char \<Rightarrow> bool" where
  "isspace c \<longleftrightarrow> code c = 32 \<or> (9 \<le> code c \<and> code c \<le> 13)"

definition tolower :: "char \<Rightarrow> char" where
  "tolower c = (if isupper c then char_of (code c + 32) else c)"

declare isdigit_def [char_simps] isupper_def [char_simps] islower_def [char_simps]
  isalnum_def [char_simps] isxdigit_def [char_simps] isspace_def [char_simps]

lemma code_less: "code c < 256"
  by (metis of_char_mod_256 mod_less_divisor zero_less_numeral)

lemma code_inj: "code c = code d \<longleftrightarrow> c = d"
  by simp

lemma char_of_code: "char_of (code c) = c"
  by simp

lemma code_char_of: "n < 256 \<Longrightarrow> code (char_of n) = n"
  by simp

section \<open>string_view\<close>

text \<open>\<open>find\<close> returns \<open>npos\<close> when the character does not occur: \<open>None\<close> here.\<close>

fun sv_find :: "'a \<Rightarrow> 'a list \<Rightarrow> nat option" where
  "sv_find c [] = None"
| "sv_find c (x # xs) = (if x = c then Some 0 else map_option Suc (sv_find c xs))"

text \<open>
  (The lemmas about it hold for lists of any type; the query component uses it for the position
  of a name in a list of names.) \<open>find(c, from)\<close>: the first position at or after \<open>from\<close>, counted
  from the start.
\<close>

definition sv_find_from :: "char \<Rightarrow> nat \<Rightarrow> string \<Rightarrow> nat option" where
  "sv_find_from c from s = map_option (\<lambda>p. p + from) (sv_find c (drop from s))"

text \<open>\<open>find(str)\<close> for a needle of several characters.\<close>

fun sv_contains :: "string \<Rightarrow> string \<Rightarrow> bool" where
  "sv_contains pat [] \<longleftrightarrow> pat = []"
| "sv_contains pat (x # xs) \<longleftrightarrow> prefix pat (x # xs) \<or> sv_contains pat xs"

definition ends_with :: "string \<Rightarrow> string \<Rightarrow> bool" where
  "ends_with suf s \<longleftrightarrow> suffix suf s"

text \<open>\<open>substr(pos)\<close> throws \<open>std::out_of_range\<close> when \<open>pos > size()\<close>.\<close>

definition sv_substr :: "nat \<Rightarrow> string \<Rightarrow> exn + string" where
  "sv_substr pos s = (if pos > length s then Inl Out_of_range else Inr (drop pos s))"

lemma sv_find_None: "sv_find c s = None \<longleftrightarrow> c \<notin> set s"
  by (induction s) auto

lemma sv_find_Some:
  "sv_find c s = Some p \<longleftrightarrow> p < length s \<and> s ! p = c \<and> c \<notin> set (take p s)"
proof (induction s arbitrary: p)
  case Nil
  then show ?case by simp
next
  case (Cons x xs)
  then show ?case by (cases p) auto
qed

lemma sv_find_split:
  "sv_find c s = Some p \<Longrightarrow> s = take p s @ c # drop (Suc p) s \<and> c \<notin> set (take p s)"
  by (auto simp: sv_find_Some id_take_nth_drop [symmetric])

lemma sv_find_append [sv_simps]: "c \<notin> set xs \<Longrightarrow> sv_find c (xs @ c # ys) = Some (length xs)"
  by (induction xs) auto

lemma sv_find_bound: "sv_find c s = Some p \<Longrightarrow> p < length s"
  by (simp add: sv_find_Some)

lemma sv_contains_iff: "sv_contains pat s \<longleftrightarrow> (\<exists>a b. s = a @ pat @ b)"
proof (induction s)
  case Nil
  then show ?case by auto
next
  case (Cons x xs)
  show ?case
  proof
    assume "sv_contains pat (x # xs)"
    then show "\<exists>a b. x # xs = a @ pat @ b"
      using Cons.IH by (auto simp: prefix_def intro: exI [of _ "[]"] exI [of _ "x # _"])
        (metis append_Cons)
  next
    assume "\<exists>a b. x # xs = a @ pat @ b"
    then obtain a b where ab: "x # xs = a @ pat @ b" by blast
    show "sv_contains pat (x # xs)"
    proof (cases a)
      case Nil
      with ab have "prefix pat (x # xs)" by (metis append_Nil prefixI)
      then show ?thesis by simp
    next
      case (Cons y a')
      with ab have "\<exists>a b. xs = a @ pat @ b" by auto
      with Cons.IH show ?thesis by simp
    qed
  qed
qed

lemma sv_substr_Inr: "pos \<le> length s \<Longrightarrow> sv_substr pos s = Inr (drop pos s)"
  by (simp add: sv_substr_def)

section \<open>Views into memory\<close>

text \<open>
  A \<open>string_view\<close> is a pointer and a length. Code that reads past the length reads whatever
  the memory holds there: \<open>view_mem s beyond\<close> is the memory seen from the view's pointer, the
  view's own bytes followed by the bytes \<open>beyond\<close> it.
\<close>

definition view_mem :: "string \<Rightarrow> (nat \<Rightarrow> char) \<Rightarrow> nat \<Rightarrow> char" where
  "view_mem s beyond i = (if i < length s then s ! i else beyond (i - length s))"

lemma view_mem_in: "i < length s \<Longrightarrow> view_mem s beyond i = s ! i"
  by (simp add: view_mem_def)

lemma view_mem_out: "view_mem s beyond (length s + k) = beyond k"
  by (simp add: view_mem_def)

section \<open>Decimal numbers\<close>

text \<open>What \<open>fmt::format("{}", n)\<close> prints for an unsigned \<open>n\<close>.\<close>

fun dec :: "nat \<Rightarrow> string" where
  "dec n = (if n < 10 then [char_of (48 + n)] else dec (n div 10) @ [char_of (48 + n mod 10)])"

declare dec.simps [simp del]

definition dec_int :: "int \<Rightarrow> string" where
  "dec_int i = (if i < 0 then CHR ''-'' # dec (nat (- i)) else dec (nat i))"

text \<open>The value of a string of decimal digits, most significant first.\<close>

definition digits_value :: "string \<Rightarrow> nat" where
  "digits_value s = foldl (\<lambda>n c. 10 * n + (code c - 48)) 0 s"

lemma digits_value_snoc: "digits_value (s @ [c]) = 10 * digits_value s + (code c - 48)"
  by (simp add: digits_value_def)

lemma dec_isdigit: "c \<in> set (dec n) \<Longrightarrow> isdigit c"
proof (induction n rule: dec.induct)
  case (1 n)
  then show ?case
    by (cases "n < 10") (auto simp: dec.simps [of n] isdigit_def)
qed

lemma dec_nonempty: "dec n \<noteq> []"
  by (subst dec.simps) simp

lemma digits_value_dec: "digits_value (dec n) = n"
proof (induction n rule: dec.induct)
  case (1 n)
  show ?case
  proof (cases "n < 10")
    case True
    then show ?thesis by (simp add: dec.simps [of n] digits_value_def)
  next
    case False
    with 1 show ?thesis by (simp add: dec.simps [of n] digits_value_snoc)
  qed
qed

section \<open>Lists\<close>

lemma takeWhile_all: "(\<And>x. x \<in> set xs \<Longrightarrow> P x) \<Longrightarrow> takeWhile P xs = xs"
  by (simp add: takeWhile_eq_all_conv)

lemma takeWhile_stop: "(\<And>x. x \<in> set xs \<Longrightarrow> P x) \<Longrightarrow> \<not> P y \<Longrightarrow> takeWhile P (xs @ y # ys) = xs"
  by (induction xs) auto

lemma dropWhile_stop:
  "(\<And>x. x \<in> set xs \<Longrightarrow> P x) \<Longrightarrow> \<not> P y \<Longrightarrow> dropWhile P (xs @ y # ys) = y # ys"
  by (induction xs) auto

lemma dropWhile_all: "(\<And>x. x \<in> set xs \<Longrightarrow> P x) \<Longrightarrow> dropWhile P xs = []"
  by (induction xs) auto

lemma takeWhile_neq [sv_simps]:
  "c \<notin> set xs \<Longrightarrow> takeWhile (\<lambda>x. x \<noteq> c) xs = xs"
  "c \<notin> set xs \<Longrightarrow> takeWhile (\<lambda>x. x \<noteq> c) (xs @ c # ys) = xs"
  by (induction xs) auto

lemma dropWhile_neq [sv_simps]:
  "c \<notin> set xs \<Longrightarrow> dropWhile (\<lambda>x. x \<noteq> c) xs = []"
  "c \<notin> set xs \<Longrightarrow> dropWhile (\<lambda>x. x \<noteq> c) (xs @ c # ys) = c # ys"
  by (induction xs) auto

section \<open>Splitting at a separator\<close>

fun split_on :: "char \<Rightarrow> string \<Rightarrow> string list" where
  "split_on c [] = [[]]"
| "split_on c (x # xs) =
     (if x = c then [] # split_on c xs
      else (case split_on c xs of [] \<Rightarrow> [[x]] | w # ws \<Rightarrow> (x # w) # ws))"

fun join_with :: "string \<Rightarrow> string list \<Rightarrow> string" where
  "join_with sep [] = []"
| "join_with sep [w] = w"
| "join_with sep (w # v # ws) = w @ sep @ join_with sep (v # ws)"

lemma join_with_Cons: "join_with sep (w # ws) = w @ concat (map (\<lambda>v. sep @ v) ws)"
  by (induction ws arbitrary: w) auto

lemma split_on_nonempty [simp]: "split_on c s \<noteq> []"
  by (induction s) (auto split: list.splits)

lemma split_on_stop: "c \<notin> set w \<Longrightarrow> split_on c (w @ c # r) = w # split_on c r"
  by (induction w) auto

lemma split_on_none: "c \<notin> set w \<Longrightarrow> split_on c w = [w]"
  by (induction w) auto

lemma join_with_set: "c \<in> set (join_with sep ws) \<Longrightarrow> c \<in> set sep \<or> (\<exists>w \<in> set ws. c \<in> set w)"
  by (cases ws) (auto simp: join_with_Cons split: if_splits)

lemma split_on_join:
  "ws \<noteq> [] \<Longrightarrow> (\<And>w. w \<in> set ws \<Longrightarrow> c \<notin> set w) \<Longrightarrow> split_on c (join_with [c] ws) = ws"
  by (induction "[c]" ws rule: join_with.induct) (auto simp: split_on_stop split_on_none)

lemma join_split_on: "join_with [c] (split_on c s) = s"
proof (induction s)
  case Nil
  then show ?case by simp
next
  case (Cons x xs)
  then show ?case
    by (cases "split_on c xs"; cases "tl (split_on c xs)") auto
qed

lemma split_on_free: "w \<in> set (split_on c s) \<Longrightarrow> c \<notin> set w"
  by (induction s arbitrary: w) (auto split: list.splits if_splits)

lemma join_with_snoc: "ws \<noteq> [] \<Longrightarrow> join_with sep (ws @ [w]) = join_with sep ws @ sep @ w"
  by (induction sep ws rule: join_with.induct) auto

end
