(* ===== verification/Uri_Codec.thy ===== *)
theory Uri_Codec
  imports Prelude
begin

text \<open>
  \<open>src/libs/http-router/src/uri.cc\<close>, first half: splitting a request target into path and
  query, and the percent coding of both. \<open>urlencode_impl\<close> and \<open>urldecode_impl\<close> are templates
  over a safety predicate and a character map; they stay parameters here, and the locale
  \<open>url_codec\<close> states the contract under which decoding inverts encoding. The decoder reads
  through a pointer, so it takes the memory behind the view (\<open>view_mem\<close> of the prelude) and
  keeps the \<open>size_t\<close> subtraction of its bounds check.
\<close>

unbundle bit_operations_syntax

section \<open>Splitting the request target\<close>

fun find_query :: "string \<Rightarrow> size_t" where
  "find_query [] = 0"
| "find_query (c # cs) = (if c = CHR ''?'' \<or> c = CHR ''#'' then 0 else Suc (find_query cs))"

text \<open>
  \<open>substr(1, request_target.find('#', 1))\<close>: the second argument is a length, and \<open>find\<close>
  returns a position counted from the start of the view, so one character more than the query
  is taken when a fragment follows.
\<close>

definition split :: "string \<Rightarrow> string \<times> string" where
  "split target =
    (let path = take (find_query target) target;
         rest = drop (length path) target
     in (path,
         if rest \<noteq> [] \<and> hd rest = CHR ''?''
         then (case sv_find_from CHR ''#'' 1 rest of
                 None \<Rightarrow> drop 1 rest
               | Some p \<Rightarrow> take p (drop 1 rest))
         else []))"

lemma find_query_stop:
  "CHR ''?'' \<notin> set p \<Longrightarrow> CHR ''#'' \<notin> set p \<Longrightarrow> d = CHR ''?'' \<or> d = CHR ''#''
    \<Longrightarrow> find_query (p @ d # q) = length p"
  by (induction p) auto

lemma find_query_all: "CHR ''?'' \<notin> set p \<Longrightarrow> CHR ''#'' \<notin> set p \<Longrightarrow> find_query p = length p"
  by (induction p) auto

lemma take_find_query:
  "take (find_query t) t = takeWhile (\<lambda>c. c \<noteq> CHR ''?'' \<and> c \<noteq> CHR ''#'') t"
  by (induction t) auto

lemma split_path_only:
  assumes "CHR ''?'' \<notin> set p" "CHR ''#'' \<notin> set p"
  shows "split p = (p, [])" and "split (p @ CHR ''#'' # f) = (p, [])"
  using assms by (simp_all add: split_def Let_def find_query_all find_query_stop)

lemma split_no_fragment:
  assumes "CHR ''?'' \<notin> set p" "CHR ''#'' \<notin> set p" "CHR ''#'' \<notin> set q"
  shows "split (p @ CHR ''?'' # q) = (p, q)"
  using assms
  by (simp add: split_def Let_def find_query_stop sv_find_from_def sv_find_None [THEN iffD2])

lemma split_fragment:
  assumes "CHR ''?'' \<notin> set p" "CHR ''#'' \<notin> set p" "CHR ''#'' \<notin> set q"
  shows "split (p @ CHR ''?'' # q @ CHR ''#'' # f) = (p, q @ ''#'')"
  using assms
  by (simp add: split_def Let_def find_query_stop sv_find_from_def sv_find_append)

text \<open>Every target has one of the four shapes the lemmas above cover.\<close>

lemma target_cases:
  obtains p where "t = p" "CHR ''?'' \<notin> set p" "CHR ''#'' \<notin> set p"
  | p f where "t = p @ CHR ''#'' # f" "CHR ''?'' \<notin> set p" "CHR ''#'' \<notin> set p"
  | p q where "t = p @ CHR ''?'' # q" "CHR ''?'' \<notin> set p" "CHR ''#'' \<notin> set p" "CHR ''#'' \<notin> set q"
  | p q f where "t = p @ CHR ''?'' # q @ CHR ''#'' # f"
      "CHR ''?'' \<notin> set p" "CHR ''#'' \<notin> set p" "CHR ''#'' \<notin> set q"
proof -
  let ?P = "\<lambda>c. c \<noteq> CHR ''?'' \<and> c \<noteq> CHR ''#''"
  let ?p = "takeWhile ?P t"
  have free: "CHR ''?'' \<notin> set ?p" "CHR ''#'' \<notin> set ?p"
    by (auto dest: set_takeWhileD)
  show thesis
  proof (cases "dropWhile ?P t")
    case Nil
    then have "?p = t" by (simp add: takeWhile_eq_all_conv)
    with free show thesis by (intro that(1) [OF refl]) simp_all
  next
    case (Cons d r)
    have t: "t = ?p @ d # r"
      using takeWhile_dropWhile_id [of ?P t] Cons by simp
    have d: "\<not> ?P d"
      using Cons by (simp add: dropWhile_eq_Cons_conv)
    show thesis
    proof (cases "d = CHR ''#''")
      case True
      from t True show thesis by (intro that(2) [OF _ free]) auto
    next
      case False
      with d have d: "d = CHR ''?''" by simp
      show thesis
      proof (cases "CHR ''#'' \<in> set r")
        case True
        then obtain q f where "r = q @ CHR ''#'' # f" "CHR ''#'' \<notin> set q"
          using split_list_first by metis
        with t d show thesis by (intro that(4) [OF _ free]) auto
      next
        case False
        with t d show thesis by (intro that(3) [OF _ free]) auto
      qed
    qed
  qed
qed

section \<open>Encoding\<close>

definition issafe :: "char \<Rightarrow> bool" where
  "issafe c \<longleftrightarrow> isalnum c \<or> c = CHR ''-'' \<or> c = CHR ''.'' \<or> c = CHR ''_'' \<or> c = CHR ''~''"

definition query_issafe :: "char \<Rightarrow> bool" where
  "query_issafe c \<longleftrightarrow> issafe c \<or> c = CHR '' ''"

definition path_issafe :: "char \<Rightarrow> bool" where
  "path_issafe c \<longleftrightarrow> issafe c \<or> c = CHR ''+''"

definition write_ch :: "char \<Rightarrow> char" where
  "write_ch c = c"

definition query_write_ch :: "char \<Rightarrow> char" where
  "query_write_ch c = (if c = CHR '' '' then CHR ''+'' else c)"

definition hexes :: string where
  "hexes = ''0123456789ABCDEF''"

text \<open>
  \<open>(c >> 4) & 0xF\<close> and \<open>c & 0xF\<close>: \<open>c\<close> is a signed \<open>char\<close>, promoted to \<open>int\<close>.
\<close>

definition promote :: "char \<Rightarrow> 32 word" where
  "promote c = scast (of_char c :: 8 word)"

definition high_nibble :: "char \<Rightarrow> nat" where
  "high_nibble c = unat (signed_drop_bit 4 (promote c) AND 0xF)"

definition low_nibble :: "char \<Rightarrow> nat" where
  "low_nibble c = unat (promote c AND 0xF)"

fun urlencode_impl :: "(char \<Rightarrow> bool) \<Rightarrow> (char \<Rightarrow> char) \<Rightarrow> string \<Rightarrow> string" where
  "urlencode_impl safe write [] = []"
| "urlencode_impl safe write (c # cs) =
     (if safe c then write c # urlencode_impl safe write cs
      else CHR ''%'' # hexes ! high_nibble c # hexes ! low_nibble c
           # urlencode_impl safe write cs)"

text \<open>The length computed by the first loop, for \<open>out.reserve\<close>.\<close>

definition urlencode_length :: "(char \<Rightarrow> bool) \<Rightarrow> string \<Rightarrow> nat" where
  "urlencode_length safe s = foldl (\<lambda>n c. if \<not> safe c then n + 2 else n) (length s) s"

definition path_urlencode :: "string \<Rightarrow> string" where
  "path_urlencode s = urlencode_impl path_issafe write_ch s"

definition query_urlencode :: "string \<Rightarrow> string" where
  "query_urlencode s = urlencode_impl query_issafe query_write_ch s"

section \<open>Decoding\<close>

definition read_ch :: "char \<Rightarrow> char" where
  "read_ch c = c"

definition query_read_ch :: "char \<Rightarrow> char" where
  "query_read_ch c = (if c = CHR ''+'' then CHR '' '' else c)"

definition hex :: "char \<Rightarrow> nat" where
  "hex c = (if isdigit c then code c - 48
            else if 97 \<le> code c \<and> code c \<le> 102 then code c - 97 + 10
            else if 65 \<le> code c \<and> code c \<le> 70 then code c - 65 + 10
            else 0)"

text \<open>
  The loop of \<open>urldecode_impl\<close>: \<open>mem\<close> is the memory from the pointer \<open>in\<close>, and the bounds
  check \<open>i < in_len - 2\<close> is the \<open>size_t\<close> one.
\<close>

function urldecode_loop ::
  "(char \<Rightarrow> char) \<Rightarrow> (nat \<Rightarrow> char) \<Rightarrow> size_t \<Rightarrow> size_t \<Rightarrow> string" where
  "urldecode_loop rd mem in_len i =
    (if i < in_len then
       if mem i = CHR ''%'' \<and> i < size_sub in_len 2 \<and> isxdigit (mem (i + 1)) \<and> isxdigit (mem (i + 2))
       then char_of (push_bit 4 (hex (mem (i + 1))) OR hex (mem (i + 2)))
            # urldecode_loop rd mem in_len (i + 3)
       else rd (mem i) # urldecode_loop rd mem in_len (i + 1)
     else [])"
  by pat_completeness auto
termination
  by (relation "measure (\<lambda>(rd, mem, in_len, i). in_len - i)") auto

declare urldecode_loop.simps [simp del]

definition urldecode_impl :: "(char \<Rightarrow> char) \<Rightarrow> (nat \<Rightarrow> char) \<Rightarrow> size_t \<Rightarrow> string" where
  "urldecode_impl rd mem in_len = urldecode_loop rd mem in_len 0"

definition urldecode :: "(nat \<Rightarrow> char) \<Rightarrow> size_t \<Rightarrow> string" where
  "urldecode mem in_len = urldecode_impl read_ch mem in_len"

definition query_urldecode :: "(nat \<Rightarrow> char) \<Rightarrow> size_t \<Rightarrow> string" where
  "query_urldecode mem in_len = urldecode_impl query_read_ch mem in_len"

text \<open>\<open>decoded_path(path)\<close> on a view \<open>path\<close> with the bytes \<open>beyond\<close> behind it.\<close>

definition decoded_path :: "(nat \<Rightarrow> char) \<Rightarrow> string \<Rightarrow> string" where
  "decoded_path beyond path = urldecode (view_mem path beyond) (length path)"

section \<open>The reference decoder\<close>

text \<open>Percent decoding of a list of bytes, with no memory behind it.\<close>

fun percent_decode :: "(char \<Rightarrow> char) \<Rightarrow> string \<Rightarrow> string" where
  "percent_decode rd [] = []"
| "percent_decode rd (c # cs) =
    (case cs of
       a # b # rest \<Rightarrow>
         if c = CHR ''%'' \<and> isxdigit a \<and> isxdigit b
         then char_of (16 * hex a + hex b) # percent_decode rd rest
         else rd c # percent_decode rd cs
     | _ \<Rightarrow> rd c # percent_decode rd cs)"

section \<open>Nibbles and hexadecimal digits\<close>

lemma word_15_mask: "(15::32 word) = mask 4" by (simp add: mask_eq_exp_minus_1)

lemma scast_low_nibble: "(scast (w::8 word) :: 32 word) AND 15 = ucast (take_bit 4 w)"
  unfolding word_15_mask
  by (rule bit_word_eqI) (auto simp: bit_simps min_def dest: bit_imp_le_length)

lemma scast_high_nibble: "signed_drop_bit 4 (scast (w::8 word) :: 32 word) AND 15 = ucast (drop_bit 4 w)"
  unfolding word_15_mask
proof (rule bit_word_eqI)
  fix n
  assume n: "n < LENGTH(32)"
  consider "n < 3" | "n = 3" | "3 < n" by linarith
  then show "bit (signed_drop_bit 4 (scast w :: 32 word) AND mask 4) n = bit (ucast (drop_bit 4 w) :: 32 word) n"
   by cases (use n in \<open>auto simp: bit_simps min_def dest: bit_imp_le_length\<close>)
qed

lemma unat_byte: "unat (of_char c :: 8 word) = code c"
proof -
  have "(of_char c :: 8 word) = word_of_nat (code c)" by (rule of_nat_of_char [symmetric])
  then show ?thesis by (simp add: unat_of_nat code_less)
qed

lemma low_nibble_eq: "low_nibble c = code c mod 16"
 by (simp add: low_nibble_def promote_def scast_low_nibble unsigned_ucast_eq unsigned_take_bit_eq unat_byte)
   (simp add: take_bit_eq_mod)

lemma code_div_16: "code c div 16 < 16"
  by (rule less_mult_imp_div_less) (simp add: code_less)

lemma high_nibble_eq: "high_nibble c = code c div 16"
proof -
  have "code c div 16 < 2 ^ 32" using code_div_16 [of c] by simp
  then show ?thesis
    by (simp add: high_nibble_def promote_def scast_high_nibble unsigned_ucast_eq
        unsigned_drop_bit_eq unat_byte) (simp add: drop_bit_eq_div take_bit_eq_mod)
qed

lemma hex_or: "y < 16 \<Longrightarrow> push_bit 4 x OR y = 16 * x + (y::nat)"
proof -
  assume "y < 16"
  then have y: "take_bit 4 y = y" by (simp add: take_bit_nat_eq_self)
  have "push_bit 4 x OR take_bit 4 y = push_bit 4 x + take_bit 4 y"
    by (rule disjunctive_add_eq_or [symmetric]) (auto simp: bit_eq_iff bit_simps)
  then show ?thesis by (simp add: y push_bit_eq_mult)
qed

lemma length_hexes: "length hexes = 16"
  by (simp add: hexes_def)

lemma hexes_isxdigit: "n < 16 \<Longrightarrow> isxdigit (hexes ! n) \<and> hex (hexes ! n) = n \<and> hexes ! n \<noteq> CHR ''%''"
proof -
  have "\<forall>n<16. isxdigit (hexes ! n) \<and> hex (hexes ! n) = n \<and> hexes ! n \<noteq> CHR ''%''" by code_simp
  then show "n < 16 \<Longrightarrow> ?thesis" by blast
qed

lemma code_of_nibbles: "16 * (code c div 16) + code c mod 16 = code c"
  by simp

lemma hex_less: "hex c < 16"
  by (auto simp: hex_def isdigit_def)

section \<open>The loop refines the reference decoder\<close>

lemma percent_decode_drop:
  assumes "i < length s"
  shows "percent_decode rd (drop i s) =
    (if s ! i = CHR ''%'' \<and> i + 2 < length s \<and> isxdigit (s ! (i + 1)) \<and> isxdigit (s ! (i + 2))
     then char_of (16 * hex (s ! (i + 1)) + hex (s ! (i + 2))) # percent_decode rd (drop (i + 3) s)
     else rd (s ! i) # percent_decode rd (drop (i + 1) s))"
proof (cases "i + 2 < length s")
  case True
  then have "drop i s = s ! i # s ! (i + 1) # s ! (i + 2) # drop (i + 3) s"
    by (simp add: Cons_nth_drop_Suc numeral_3_eq_3)
  moreover from True have "drop (i + 1) s = s ! (i + 1) # s ! (i + 2) # drop (i + 3) s"
    by (simp add: Cons_nth_drop_Suc numeral_3_eq_3)
  ultimately show ?thesis using True by simp
next
  case False
  with assms obtain cs where cs: "drop (i + 1) s = cs" "drop i s = s ! i # cs" "length cs < 2"
    by (simp add: Cons_nth_drop_Suc)
  then show ?thesis
    using False by (cases cs) simp_all
qed

text \<open>
  The bounds check admits one read past the view: a view that is the single character \<open>%\<close>
  followed in memory by two hexadecimal digits.
\<close>

definition reads_past :: "string \<Rightarrow> (nat \<Rightarrow> char) \<Rightarrow> bool" where
  "reads_past s beyond \<longleftrightarrow> s = ''%'' \<and> isxdigit (beyond 0) \<and> isxdigit (beyond 1)"

lemma urldecode_loop_refines:
  assumes "\<not> reads_past s beyond" "length s < size_max" "i \<le> length s"
  shows "urldecode_loop rd (view_mem s beyond) (length s) i = percent_decode rd (drop i s)"
  using assms(3)
proof (induction "length s - i" arbitrary: i rule: less_induct)
  case less
  note eq = urldecode_loop.simps [of rd "view_mem s beyond" "length s" i]
  show ?case
  proof (cases "i < length s")
    case False
    with less.prems show ?thesis unfolding eq by simp
  next
    case True
    have guard: "(view_mem s beyond i = CHR ''%'' \<and> i < size_sub (length s) 2 \<and>
        isxdigit (view_mem s beyond (i + 1)) \<and> isxdigit (view_mem s beyond (i + 2))) \<longleftrightarrow>
      (s ! i = CHR ''%'' \<and> i + 2 < length s \<and> isxdigit (s ! (i + 1)) \<and> isxdigit (s ! (i + 2)))"
    proof (cases "2 \<le> length s")
      case len: True
      with assms(2) have "size_sub (length s) 2 = length s - 2" by (simp add: size_sub_ge)
      with True show ?thesis by (auto simp: view_mem_def)
    next
      case False
      with True obtain c where c: "s = [c]" "i = 0"
        by (cases s) (auto simp: Suc_le_eq)
      with assms(1) show ?thesis by (auto simp: reads_past_def view_mem_def)
    qed
    have step: "urldecode_loop rd (view_mem s beyond) (length s) (i + k) = percent_decode rd (drop (i + k) s)"
      if "0 < k" "i + k \<le> length s" for k
      using less.hyps [of "i + k"] that True by simp
    show ?thesis
      unfolding eq percent_decode_drop [OF True] guard
      using True step [of 1] step [of 3] by (auto simp: view_mem_in hex_or hex_less)
  qed
qed

lemma urldecode_impl_refines:
  "\<not> reads_past s beyond \<Longrightarrow> length s < size_max
    \<Longrightarrow> urldecode_impl rd (view_mem s beyond) (length s) = percent_decode rd s"
  by (simp add: urldecode_impl_def urldecode_loop_refines)

section \<open>The codec contract\<close>

locale url_codec =
  fixes safe :: "char \<Rightarrow> bool"
    and wr :: "char \<Rightarrow> char"
    and rd :: "char \<Rightarrow> char"
  assumes rd_wr: "safe c \<Longrightarrow> rd (wr c) = c"
    and wr_not_percent: "safe c \<Longrightarrow> wr c \<noteq> CHR ''%''"
begin

lemma decode_plain: "c \<noteq> CHR ''%'' \<Longrightarrow> percent_decode rd (c # cs) = rd c # percent_decode rd cs"
  by (auto split: list.splits)

lemma decode_encode: "percent_decode rd (urlencode_impl safe wr s) = s"
proof (induction s)
  case Nil
  then show ?case by simp
next
  case (Cons c s)
  show ?case
  proof (cases "safe c")
    case True
    with Cons show ?thesis
      using decode_plain [OF wr_not_percent [OF True]] by (simp add: rd_wr)
  next
    case False
    have "high_nibble c < 16" "low_nibble c < 16"
      by (simp_all add: high_nibble_eq low_nibble_eq code_div_16)
    with False Cons show ?thesis
      by (simp add: hexes_isxdigit) (simp add: high_nibble_eq low_nibble_eq code_of_nibbles)
  qed
qed

lemma encode_inj: "urlencode_impl safe wr s = urlencode_impl safe wr t \<Longrightarrow> s = t"
  by (metis decode_encode)

lemma encode_not_lone_percent: "urlencode_impl safe wr s \<noteq> ''%''"
  by (cases s) (auto dest: wr_not_percent)

lemma encode_set:
  "c \<in> set (urlencode_impl safe wr s)
    \<Longrightarrow> c = CHR ''%'' \<or> c \<in> set hexes \<or> (\<exists>d. safe d \<and> c = wr d)"
proof (induction s)
  case Nil
  then show ?case by simp
next
  case (Cons d s)
  have "high_nibble d < length hexes" "low_nibble d < length hexes"
    using code_div_16 [of d] by (simp_all add: high_nibble_eq low_nibble_eq length_hexes)
  with Cons show ?case by (auto split: if_splits)
qed

lemma decode_impl_encode:
  assumes "length (urlencode_impl safe wr s) < size_max"
  shows "urldecode_impl rd (view_mem (urlencode_impl safe wr s) beyond)
           (length (urlencode_impl safe wr s)) = s"
  using assms encode_not_lone_percent [of s]
  by (simp add: urldecode_impl_refines reads_past_def decode_encode)

end

lemma safe_classes:
  "issafe c \<Longrightarrow> c \<noteq> CHR ''%'' \<and> c \<noteq> CHR ''+'' \<and> c \<noteq> CHR '' '' \<and> c \<noteq> CHR ''&'' \<and> c \<noteq> CHR ''=''
     \<and> c \<noteq> CHR ''?'' \<and> c \<noteq> CHR ''#'' \<and> c \<noteq> CHR ''/''"
  by (auto simp: issafe_def char_simps)

interpretation path_codec: url_codec path_issafe write_ch read_ch
  by unfold_locales (auto simp: read_ch_def write_ch_def path_issafe_def dest: safe_classes)

interpretation query_codec: url_codec query_issafe query_write_ch query_read_ch
  by unfold_locales (auto simp: query_read_ch_def query_write_ch_def query_issafe_def dest: safe_classes)

lemma urlencode_length_foldl:
  "foldl (\<lambda>n c. if \<not> safe c then n + 2 else n) k s =
     k + 2 * length (filter (\<lambda>c. \<not> safe c) s)"
  by (induction s arbitrary: k) auto

lemma length_urlencode_impl: "length (urlencode_impl safe wr s) = urlencode_length safe s"
  by (induction s) (auto simp: urlencode_length_def urlencode_length_foldl)

lemma hexes_issafe: "c \<in> set hexes \<Longrightarrow> issafe c"
proof -
  have "list_all issafe hexes" by code_simp
  then show "c \<in> set hexes \<Longrightarrow> ?thesis" by (simp add: list_all_iff)
qed

section \<open>Properties\<close>

text \<open>C29: Decoding what either encoder wrote gives back the original bytes, whatever lies in memory
  behind the encoded text (round trip of both codecs).\<close>

theorem codec_roundtrip:
  assumes "length (path_urlencode s) < size_max" "length (query_urlencode s) < size_max"
  shows "urldecode (view_mem (path_urlencode s) beyond) (length (path_urlencode s)) = s \<and>
    query_urldecode (view_mem (query_urlencode s) beyond) (length (query_urlencode s)) = s"
  using assms path_codec.decode_impl_encode [of s] query_codec.decode_impl_encode [of s]
  by (simp add: path_urlencode_def query_urlencode_def urldecode_def query_urldecode_def)

theorem codec_roundtrip_witness:
  "urldecode (view_mem (path_urlencode ''a b+%'') (\<lambda>i. CHR ''0'')) (length (path_urlencode ''a b+%'')) = ''a b+%'' \<and>
   query_urldecode (view_mem (query_urlencode ''a b+%'') (\<lambda>i. CHR ''0'')) (length (query_urlencode ''a b+%''))
     = ''a b+%''"
  by (rule codec_roundtrip [of "''a b+%''" "\<lambda>i. CHR ''0''"]; rule small_size; code_simp)

text \<open>C30: The decoding loop computes percent decoding on every text that is not the single character
  \<open>%\<close> in front of two hex digits, the one input on which it reads behind the view.\<close>

theorem urldecode_correct:
  assumes "\<not> reads_past s beyond" "length s < size_max"
  shows "urldecode (view_mem s beyond) (length s) = percent_decode read_ch s"
  using assms by (simp add: urldecode_def urldecode_impl_refines)

theorem urldecode_correct_witness:
  "urldecode (view_mem ''%41%zz%'' (\<lambda>i. CHR ''0'')) (length ''%41%zz%'') = ''A%zz%''"
proof -
  have "percent_decode read_ch ''%41%zz%'' = ''A%zz%''" by code_simp
  moreover have "\<not> reads_past ''%41%zz%'' (\<lambda>i. CHR ''0'')" by (simp add: reads_past_def)
  moreover have "length ''%41%zz%'' < size_max" by (simp add: size_max_def)
  ultimately show ?thesis using urldecode_correct [of "''%41%zz%''" "\<lambda>i. CHR ''0''"] by metis
qed

text \<open>On the one-character view \<open>%\<close> the bound \<open>in_len - 2\<close> wraps around: the loop reads the two
  bytes behind the view and decodes them when they are hex digits.\<close>

theorem urldecode_lone_percent:
  "urldecode (view_mem ''%'' (\<lambda>i. if i = 0 then CHR ''4'' else CHR ''1'')) (length ''%'') = ''A'' \<and>
   urldecode (view_mem ''%'' (\<lambda>i. CHR '' '')) (length ''%'') = ''%''"
proof
  have "size_sub 1 2 = size_max - 1" "size_sub 1 2 > 0"
    by (simp_all add: size_sub_def size_max_def)
  moreover have "push_bit 4 4 OR 1 = (65 :: nat)" "char_of (65 :: nat) = CHR ''A''" by code_simp+
  ultimately show "urldecode (view_mem ''%'' (\<lambda>i. if i = 0 then CHR ''4'' else CHR ''1'')) (length ''%'') = ''A''"
    "urldecode (view_mem ''%'' (\<lambda>i. CHR '' '')) (length ''%'') = ''%''"
    by (simp_all add: urldecode_def urldecode_impl_def urldecode_loop.simps view_mem_def read_ch_def
        isxdigit_def isdigit_def hex_def)
qed

text \<open>The encoders write exactly as many bytes as they reserve, and only unreserved characters,
  hex escapes and the one character each of them treats specially.\<close>

theorem urlencode_output:
  "length (path_urlencode s) = urlencode_length path_issafe s \<and>
   length (query_urlencode s) = urlencode_length query_issafe s \<and>
   set (path_urlencode s) \<subseteq> {c. path_issafe c \<or> c = CHR ''%''} \<and>
   set (query_urlencode s) \<subseteq> {c. issafe c \<or> c = CHR ''%'' \<or> c = CHR ''+''}"
proof -
  have "set (path_urlencode s) \<subseteq> {c. path_issafe c \<or> c = CHR ''%''}"
    unfolding path_urlencode_def
    by (auto dest!: path_codec.encode_set hexes_issafe simp: path_issafe_def write_ch_def)
  moreover have "set (query_urlencode s) \<subseteq> {c. issafe c \<or> c = CHR ''%'' \<or> c = CHR ''+''}"
    unfolding query_urlencode_def
    by (auto dest!: query_codec.encode_set hexes_issafe simp: query_issafe_def query_write_ch_def split: if_splits)
  ultimately show ?thesis
    by (simp add: path_urlencode_def query_urlencode_def length_urlencode_impl)
qed

text \<open>How a request target is split: the path is what precedes the first \<open>?\<close> or \<open>#\<close>; a query
  without fragment is what follows the \<open>?\<close>; a query in front of a fragment keeps the \<open>#\<close> as
  its last character.\<close>

theorem split_target:
  assumes "CHR ''?'' \<notin> set p" "CHR ''#'' \<notin> set p" "CHR ''#'' \<notin> set q"
  shows "split p = (p, []) \<and> split (p @ CHR ''#'' # f) = (p, []) \<and>
    split (p @ CHR ''?'' # q) = (p, q) \<and>
    split (p @ CHR ''?'' # q @ CHR ''#'' # f) = (p, q @ ''#'')"
  using split_path_only [OF assms(1,2)] split_no_fragment [OF assms] split_fragment [OF assms] by simp

theorem split_target_witness:
  "split ''/a'' = (''/a'', []) \<and> split ''/a#f?'' = (''/a'', []) \<and> split ''/a?x=1'' = (''/a'', ''x=1'') \<and>
   split ''/a?x=1#f?'' = (''/a'', ''x=1#'')"
  using split_target [of "''/a''" "''x=1''" "''f?''"] by simp

end
