(* ===== verification/Uri_Query.thy ===== *)
theory Uri_Query
  imports Uri_Codec
begin

text \<open>
  The class \<open>uri::query\<close> of \<open>uri.hh\<close> and \<open>uri.cc\<close>: an ordered list of parameters with an
  index from names to positions (\<open>values_\<close> and \<open>keys_\<close>), its builder operations, its two
  printers and the parser. The contract of the class, a map from names to lists of values, is
  the locale \<open>param_map\<close>; the parser is its client.
\<close>

section \<open>State and operations\<close>

record query =
  q_values :: "(string \<times> string list) list"
  q_keys :: "string \<Rightarrow> size_t option"

definition query_empty :: query where
  "query_empty = \<lparr>q_values = [], q_keys = Map.empty\<rparr>"

definition query_find :: "string \<Rightarrow> query \<Rightarrow> size_t option" where
  "query_find name q = q_keys q name"

definition query_add :: "string \<Rightarrow> string \<Rightarrow> query \<Rightarrow> query" where
  "query_add name value q =
    (case q_keys q name of
       Some i \<Rightarrow> q\<lparr>q_values := (q_values q)[i := (fst (q_values q ! i), snd (q_values q ! i) @ [value])]\<rparr>
     | None \<Rightarrow> q\<lparr>q_values := q_values q @ [(name, [value])],
                 q_keys := (q_keys q)(name \<mapsto> length (q_values q))\<rparr>)"

definition query_set :: "string \<Rightarrow> query \<Rightarrow> query" where
  "query_set name q =
    (case q_keys q name of
       Some i \<Rightarrow> q\<lparr>q_values := (q_values q)[i := (fst (q_values q ! i), [])]\<rparr>
     | None \<Rightarrow> q\<lparr>q_values := q_values q @ [(name, [])],
                 q_keys := (q_keys q)(name \<mapsto> length (q_values q))\<rparr>)"

definition query_remove :: "string \<Rightarrow> query \<Rightarrow> query" where
  "query_remove name q =
    (case q_keys q name of
       None \<Rightarrow> q
     | Some index \<Rightarrow>
         q\<lparr>q_values := take index (q_values q) @ drop (Suc index) (q_values q),
           q_keys := (\<lambda>key. if key = name then None
                            else map_option (\<lambda>i. if i > index then i - 1 else i) (q_keys q key))\<rparr>)"

text \<open>\<open>string()\<close>: the lambda \<open>add_prefix\<close> captures \<open>first\<close> and \<open>out\<close> by reference.\<close>

fun add_prefix :: "bool \<times> string \<Rightarrow> bool \<times> string" where
  "add_prefix (first, out) = (False, if first then out else out @ ''&'')"

definition append_out :: "string \<Rightarrow> bool \<times> string \<Rightarrow> bool \<times> string" where
  "append_out s st = (fst st, snd st @ s)"

definition emit_pair :: "bool \<times> string \<Rightarrow> string \<times> string list \<Rightarrow> bool \<times> string" where
  "emit_pair st pair =
    (if snd pair = [] then append_out (query_urlencode (fst pair)) (add_prefix st)
     else (let name = query_urlencode (fst pair) @ ''=''
           in foldl (\<lambda>st value. append_out (name @ query_urlencode value) (add_prefix st)) st (snd pair)))"

definition query_string :: "query \<Rightarrow> string" where
  "query_string q = snd (foldl emit_pair (True, []) (q_values q))"

definition flat_list :: "query \<Rightarrow> (string \<times> string option) list" where
  "flat_list q = concat (map (\<lambda>pair.
     (if snd pair = [] then [(fst pair, None)] else []) @ map (\<lambda>v. (fst pair, Some v)) (snd pair))
     (q_values q))"

text \<open>The reserve computed before the second loop of \<open>flat_list\<close>.\<close>

definition flat_length :: "query \<Rightarrow> nat" where
  "flat_length q = foldl (\<lambda>n pair. if snd pair = [] then n + 1 else n + length (snd pair)) 0 (q_values q)"

section \<open>Parsing\<close>

text \<open>
  \<open>query_parser::parse\<close>: the argument is the text from \<open>it\<close> to \<open>end\<close>; \<open>look_for\<close> advances
  to the first of its characters; both decoders are called on a view into that text.
\<close>

function query_parse_loop :: "(nat \<Rightarrow> char) \<Rightarrow> string \<Rightarrow> query \<Rightarrow> query" where
  "query_parse_loop beyond it out =
    (if it = [] then out
     else
       let seg = takeWhile (\<lambda>c. c \<noteq> CHR ''='' \<and> c \<noteq> CHR ''&'') it;
           rest = dropWhile (\<lambda>c. c \<noteq> CHR ''='' \<and> c \<noteq> CHR ''&'') it;
           name = query_urldecode (view_mem it beyond) (length seg)
       in case rest of
            [] \<Rightarrow> query_set name out
          | c # it' \<Rightarrow>
              if c = CHR ''='' then
                let val_seg = takeWhile (\<lambda>c. c \<noteq> CHR ''&'') it';
                    out' = query_add name (query_urldecode (view_mem it' beyond) (length val_seg)) out
                in (case dropWhile (\<lambda>c. c \<noteq> CHR ''&'') it' of
                      [] \<Rightarrow> out'
                    | _ # it'' \<Rightarrow> query_parse_loop beyond it'' out')
              else query_parse_loop beyond it' (query_set name out))"
  by pat_completeness auto
termination
proof (relation "measure (\<lambda>(beyond, it, out). length it)", goal_cases)
  case 1
  then show ?case by simp
next
  case (2 beyond it out seg rest name c it' val_seg out' d it'')
  then have "length (c # it') \<le> length it" by (metis length_dropWhile_le)
  moreover from 2 have "length (d # it'') \<le> length it'" by (metis length_dropWhile_le)
  ultimately show ?case by simp
next
  case (3 beyond it out seg rest name c it')
  then have "length (c # it') \<le> length it" by (metis length_dropWhile_le)
  then show ?case by simp
qed

declare query_parse_loop.simps [simp del]

definition query_parse :: "(nat \<Rightarrow> char) \<Rightarrow> string \<Rightarrow> query" where
  "query_parse beyond str =
    query_parse_loop beyond (case str of [] \<Rightarrow> str | c # cs \<Rightarrow> if c = CHR ''?'' then cs else str)
      query_empty"

section \<open>The invariant\<close>

text \<open>Names are distinct, and \<open>keys_\<close> is exactly the position of each name in \<open>values_\<close>.\<close>

abbreviation names :: "query \<Rightarrow> string list" where
  "names q \<equiv> map fst (q_values q)"

definition query_ok :: "query \<Rightarrow> bool" where
  "query_ok q \<longleftrightarrow> distinct (names q) \<and> (\<forall>n. q_keys q n = sv_find n (names q))"

lemma sv_find_snoc:
  "sv_find n (xs @ [x]) = (case sv_find n xs of Some i \<Rightarrow> Some i | None \<Rightarrow> if x = n then Some (length xs) else None)"
  by (induction xs) (auto split: option.splits)

lemma sv_find_delete:
  assumes "distinct xs" "sv_find m xs = Some i"
  shows "sv_find n (take i xs @ drop (Suc i) xs) =
    (if n = m then None else map_option (\<lambda>j. if j > i then j - 1 else j) (sv_find n xs))"
  using assms
proof (induction xs arbitrary: i)
  case Nil
  then show ?case by simp
next
  case (Cons x xs)
  show ?case
  proof (cases "x = m")
    case True
    with Cons.prems show ?thesis
      by (auto simp: sv_find_None option.map_comp comp_def option.map_ident split: option.splits)
  next
    case False
    with Cons.prems obtain k where k: "i = Suc k" "sv_find m xs = Some k" by auto
    with Cons False show ?thesis
      by (auto simp: option.map_comp comp_def) (cases "sv_find n xs"; auto)
  qed
qed

lemma query_ok_empty: "query_ok query_empty"
  by (simp add: query_ok_def query_empty_def)

lemma query_ok_key:
  "query_ok q \<Longrightarrow> q_keys q n = Some i \<Longrightarrow> i < length (q_values q) \<and> fst (q_values q ! i) = n"
  by (auto simp: query_ok_def sv_find_Some)

lemma names_update: "i < length xs \<Longrightarrow> map fst (xs[i := (fst (xs ! i), v)]) = map fst xs"
  by (simp add: map_update) (metis length_map list_update_id nth_map)

lemma query_ok_update:
  "query_ok q \<Longrightarrow> i < length (q_values q)
    \<Longrightarrow> query_ok (q\<lparr>q_values := (q_values q)[i := (fst (q_values q ! i), v)]\<rparr>)"
  by (simp add: query_ok_def names_update)

lemma query_ok_append:
  "query_ok q \<Longrightarrow> q_keys q n = None
    \<Longrightarrow> query_ok (q\<lparr>q_values := q_values q @ [(n, v)], q_keys := (q_keys q)(n \<mapsto> length (q_values q))\<rparr>)"
  using sv_find_None [of n "names q"]
  by (auto simp: query_ok_def sv_find_snoc split: option.splits)

lemma query_ok_add: "query_ok q \<Longrightarrow> query_ok (query_add n v q)"
  using query_ok_key [of q n]
  by (auto simp: query_add_def intro!: query_ok_append query_ok_update split: option.splits)

lemma query_ok_set: "query_ok q \<Longrightarrow> query_ok (query_set n q)"
  using query_ok_key [of q n]
  by (auto simp: query_set_def intro!: query_ok_append query_ok_update split: option.splits)

lemma query_ok_remove: "query_ok q \<Longrightarrow> query_ok (query_remove n q)"
proof (cases "q_keys q n")
  case None
  then show "query_ok q \<Longrightarrow> ?thesis" by (simp add: query_remove_def)
next
  case (Some i)
  assume ok: "query_ok q"
  have names: "map fst (take i (q_values q) @ drop (Suc i) (q_values q)) =
      take i (names q) @ drop (Suc i) (names q)"
    by (simp add: take_map drop_map)
  have "distinct (names q)" "sv_find n (names q) = Some i"
    using ok Some by (simp_all add: query_ok_def)
  moreover from this have "distinct (take i (names q) @ drop (Suc i) (names q))"
    by (simp add: set_take_disj_set_drop_if_distinct)
  ultimately show ?thesis
    using ok Some names by (auto simp add: query_ok_def query_remove_def sv_find_delete simp del: map_append)
qed

section \<open>The contract: a map from names to value lists\<close>

definition query_lookup :: "query \<Rightarrow> string \<Rightarrow> string list option" where
  "query_lookup q name = map_option (\<lambda>i. snd (q_values q ! i)) (query_find name q)"

fun apply_param ::
  "(string \<Rightarrow> string \<Rightarrow> 'q \<Rightarrow> 'q) \<Rightarrow> (string \<Rightarrow> 'q \<Rightarrow> 'q) \<Rightarrow> 'q \<Rightarrow> string \<times> string option \<Rightarrow> 'q" where
  "apply_param addf setf q (n, None) = setf n q"
| "apply_param addf setf q (n, Some v) = addf n v q"

locale param_map =
  fixes empty :: "'q"
    and add :: "string \<Rightarrow> string \<Rightarrow> 'q \<Rightarrow> 'q"
    and set :: "string \<Rightarrow> 'q \<Rightarrow> 'q"
    and remove :: "string \<Rightarrow> 'q \<Rightarrow> 'q"
    and lookup :: "'q \<Rightarrow> string \<Rightarrow> string list option"
    and inv :: "'q \<Rightarrow> bool"
  assumes inv_empty: "inv empty"
    and inv_add: "inv q \<Longrightarrow> inv (add n v q)"
    and inv_set: "inv q \<Longrightarrow> inv (set n q)"
    and inv_remove: "inv q \<Longrightarrow> inv (remove n q)"
    and lookup_empty: "lookup empty = Map.empty"
    and lookup_add: "inv q \<Longrightarrow> lookup (add n v q) =
          (lookup q)(n \<mapsto> (case lookup q n of None \<Rightarrow> [v] | Some vs \<Rightarrow> vs @ [v]))"
    and lookup_set: "inv q \<Longrightarrow> lookup (set n q) = (lookup q)(n \<mapsto> [])"
    and lookup_remove: "inv q \<Longrightarrow> lookup (remove n q) = (lookup q)(n := None)"
begin

abbreviation app where
  "app \<equiv> apply_param add set"

lemma inv_apply: "inv q \<Longrightarrow> inv (app q p)"
  by (cases p; cases "snd p") (simp_all add: inv_add inv_set)

lemma inv_foldl: "inv q \<Longrightarrow> inv (foldl app q ps)"
  by (induction ps arbitrary: q) (simp_all add: inv_apply)

lemma lookup_add_same: "inv q \<Longrightarrow> lookup q n = Some vs \<Longrightarrow> lookup (add n v q) n = Some (vs @ [v])"
  by (simp add: lookup_add)

lemma lookup_other: "inv q \<Longrightarrow> fst p \<noteq> m \<Longrightarrow> lookup (app q p) m = lookup q m"
  by (cases p; cases "snd p") (simp_all add: lookup_add lookup_set)

text \<open>
  A value-less occurrence of a name drops what came before it: the values a name ends up with
  are those after its last value-less occurrence.
\<close>

lemma lookup_foldl_values:
  assumes "inv q" "\<And>p. p \<in> List.set ps \<Longrightarrow> fst p = n \<Longrightarrow> snd p \<noteq> None" "lookup q n = Some vs"
  shows "lookup (foldl app q ps) n = Some (vs @ [v. (m, Some v) \<leftarrow> ps, m = n])"
  using assms
proof (induction ps arbitrary: q vs)
  case Nil
  then show ?case by simp
next
  case (Cons p ps)
  obtain m w where p: "p = (m, w)" by force
  show ?case
  proof (cases "m = n")
    case True
    with Cons.prems(2) [of p] p obtain v where v: "w = Some v" by auto
    have "lookup (add n v q) n = Some (vs @ [v])"
      using Cons.prems(1,3) by (rule lookup_add_same)
    with Cons.IH [of "add n v q" "vs @ [v]"] Cons.prems p v True show ?thesis
      by (simp add: inv_add)
  next
    case False
    with Cons.IH [of "app q p" vs] Cons.prems p show ?thesis
      by (cases w) (simp_all add: inv_apply lookup_other inv_add inv_set lookup_add lookup_set)
  qed
qed

end

lemma query_lookup_empty: "query_lookup query_empty = Map.empty"
  by (rule ext) (simp add: query_lookup_def query_find_def query_empty_def)

lemma query_lookup_add:
  assumes "query_ok q"
  shows "query_lookup (query_add n v q) =
    (query_lookup q)(n \<mapsto> (case query_lookup q n of None \<Rightarrow> [v] | Some vs \<Rightarrow> vs @ [v]))"
proof (rule ext)
  fix m
  note key = query_ok_key [OF assms]
  show "query_lookup (query_add n v q) m =
    ((query_lookup q)(n \<mapsto> (case query_lookup q n of None \<Rightarrow> [v] | Some vs \<Rightarrow> vs @ [v]))) m"
  proof (cases "q_keys q n")
    case None
    then show ?thesis using key [of m]
      by (cases "q_keys q m")
        (auto simp: query_lookup_def query_find_def query_add_def nth_append split: option.splits)
  next
    case (Some i)
    then show ?thesis using key [of m] key [of n i]
      by (cases "q_keys q m")
        (auto simp: query_lookup_def query_find_def query_add_def nth_list_update split: option.splits)
  qed
qed

lemma query_lookup_set:
  assumes "query_ok q"
  shows "query_lookup (query_set n q) = (query_lookup q)(n \<mapsto> [])"
proof (rule ext)
  fix m
  note key = query_ok_key [OF assms]
  show "query_lookup (query_set n q) m = ((query_lookup q)(n \<mapsto> [])) m"
    using key [of m] key [of n]
    by (cases "q_keys q m")
      (auto simp: query_lookup_def query_find_def query_set_def nth_append nth_list_update
        split: option.splits)
qed

lemma query_lookup_remove:
  assumes "query_ok q"
  shows "query_lookup (query_remove n q) = (query_lookup q)(n := None)"
proof (rule ext)
  fix m
  note key = query_ok_key [OF assms]
  show "query_lookup (query_remove n q) m = ((query_lookup q)(n := None)) m"
  proof (cases "q_keys q n")
    case None
    then show ?thesis by (simp add: query_lookup_def query_find_def query_remove_def)
  next
    case (Some i)
    then show ?thesis using key [of m] key [of n i]
      by (cases "q_keys q m")
        (auto simp: query_lookup_def query_find_def query_remove_def nth_append not_less)
  qed
qed

interpretation query_map:
  param_map query_empty query_add query_set query_remove query_lookup query_ok
  by unfold_locales
    (simp_all add: query_ok_empty query_ok_add query_ok_set query_ok_remove query_lookup_empty
      query_lookup_add query_lookup_set query_lookup_remove)

section \<open>The parser against its specification\<close>

text \<open>
  The specification cuts the text at every \<open>&\<close> (an empty last piece does not count), each
  piece at its first \<open>=\<close>, and applies the parameters in order.
\<close>

definition pieces :: "string \<Rightarrow> string list" where
  "pieces s = (let ps = split_on CHR ''&'' s in if last ps = [] then butlast ps else ps)"

definition query_decode :: "string \<Rightarrow> string" where
  "query_decode = percent_decode query_read_ch"

definition param_of :: "string \<Rightarrow> string \<times> string option" where
  "param_of piece =
    (query_decode (takeWhile (\<lambda>c. c \<noteq> CHR ''='') piece),
     (case dropWhile (\<lambda>c. c \<noteq> CHR ''='') piece of [] \<Rightarrow> None | _ # v \<Rightarrow> Some (query_decode v)))"

abbreviation apply_query :: "query \<Rightarrow> string \<times> string option \<Rightarrow> query" where
  "apply_query \<equiv> apply_param query_add query_set"

definition parse_spec :: "string \<Rightarrow> query \<Rightarrow> query" where
  "parse_spec s q = foldl apply_query q (map param_of (pieces s))"

lemma pieces_stop: "CHR ''&'' \<notin> set w \<Longrightarrow> pieces (w @ CHR ''&'' # r) = w # pieces r"
  by (simp add: pieces_def split_on_stop Let_def)

lemma pieces_last: "CHR ''&'' \<notin> set w \<Longrightarrow> w \<noteq> [] \<Longrightarrow> pieces w = [w]"
  by (simp add: pieces_def split_on_none)

lemma pieces_Nil: "pieces [] = []"
  by (simp add: pieces_def)

lemma param_of_name: "CHR ''='' \<notin> set n \<Longrightarrow> param_of n = (query_decode n, None)"
  by (simp add: param_of_def sv_simps)

lemma param_of_value:
  "CHR ''='' \<notin> set n \<Longrightarrow> param_of (n @ CHR ''='' # v) = (query_decode n, Some (query_decode v))"
  by (simp add: param_of_def sv_simps)

text \<open>A view into the text is followed by the rest of the text.\<close>

lemma view_mem_append:
  "view_mem (seg @ rest) beyond = view_mem seg (view_mem rest beyond)"
  by (auto simp: view_mem_def nth_append fun_eq_iff)

lemma query_urldecode_prefix:
  assumes "length seg < size_max" "\<not> isxdigit (view_mem rest beyond 0)"
  shows "query_urldecode (view_mem (seg @ rest) beyond) (length seg) = query_decode seg"
  using assms by (simp add: query_urldecode_def view_mem_append urldecode_impl_refines
      reads_past_def query_decode_def)

lemma not_xdigit_separators [simp]: "\<not> isxdigit CHR ''&''" "\<not> isxdigit CHR ''=''"
  by (simp_all add: isxdigit_def isdigit_def)

lemma view_mem_Cons_0 [simp]: "view_mem (c # cs) beyond 0 = c"
  by (simp add: view_mem_def)

lemma view_mem_Nil [simp]: "view_mem [] beyond = beyond"
  by (simp add: view_mem_def fun_eq_iff)

text \<open>The loop, piece by piece: a name before an ampersand, a last name, a name with a value.\<close>

lemma cut_at:
  assumes "CHR ''='' \<notin> set seg" "CHR ''&'' \<notin> set seg" "rest = [] \<or> hd rest = CHR ''='' \<or> hd rest = CHR ''&''"
  shows "takeWhile (\<lambda>c. c \<noteq> CHR ''='' \<and> c \<noteq> CHR ''&'') (seg @ rest) = seg"
    "dropWhile (\<lambda>c. c \<noteq> CHR ''='' \<and> c \<noteq> CHR ''&'') (seg @ rest) = rest"
proof -
  have "c \<noteq> CHR ''='' \<and> c \<noteq> CHR ''&''" if "c \<in> set seg" for c using assms(1,2) that by auto
  with assms(3) show "takeWhile (\<lambda>c. c \<noteq> CHR ''='' \<and> c \<noteq> CHR ''&'') (seg @ rest) = seg"
    "dropWhile (\<lambda>c. c \<noteq> CHR ''='' \<and> c \<noteq> CHR ''&'') (seg @ rest) = rest"
    by (cases rest; auto simp: takeWhile_append dropWhile_append)+
qed

lemma cut_at_amp:
  assumes "CHR ''&'' \<notin> set vs" "rest = [] \<or> hd rest = CHR ''&''"
  shows "takeWhile (\<lambda>c. c \<noteq> CHR ''&'') (vs @ rest) = vs" "dropWhile (\<lambda>c. c \<noteq> CHR ''&'') (vs @ rest) = rest"
proof -
  have "c \<noteq> CHR ''&''" if "c \<in> set vs" for c using assms(1) that by auto
  with assms(2) show "takeWhile (\<lambda>c. c \<noteq> CHR ''&'') (vs @ rest) = vs" "dropWhile (\<lambda>c. c \<noteq> CHR ''&'') (vs @ rest) = rest"
    by (cases rest; auto simp: takeWhile_append dropWhile_append)+
qed

lemma parse_loop_Nil: "query_parse_loop beyond [] q = q"
  by (subst query_parse_loop.simps) simp

lemma parse_loop_amp:
  assumes "CHR ''='' \<notin> set seg" "CHR ''&'' \<notin> set seg" "length seg < size_max"
  shows "query_parse_loop beyond (seg @ CHR ''&'' # it') q = query_parse_loop beyond it' (query_set (query_decode seg) q)"
  using assms query_urldecode_prefix [OF assms(3), of "CHR ''&'' # it'" beyond]
  by (subst query_parse_loop.simps) (simp add: cut_at Let_def)

lemma parse_loop_last:
  assumes "CHR ''='' \<notin> set seg" "CHR ''&'' \<notin> set seg" "length seg < size_max" "\<not> isxdigit (beyond 0)" "seg \<noteq> []"
  shows "query_parse_loop beyond seg q = query_set (query_decode seg) q"
  using assms(4,5) query_urldecode_prefix [OF assms(3), of "[]" beyond]
  by (subst query_parse_loop.simps)
    (simp add: cut_at [OF assms(1,2) disjI1 [OF refl], unfolded append_Nil2] Let_def)

lemma parse_loop_value:
  assumes "CHR ''='' \<notin> set seg" "CHR ''&'' \<notin> set seg" "length seg < size_max"
    "CHR ''&'' \<notin> set vs" "length vs < size_max" "rest = [] \<and> \<not> isxdigit (beyond 0) \<or> (\<exists>it''. rest = CHR ''&'' # it'')"
  shows "query_parse_loop beyond (seg @ CHR ''='' # vs @ rest) q =
    (case rest of
       [] \<Rightarrow> query_add (query_decode seg) (query_decode vs) q
     | _ # it'' \<Rightarrow> query_parse_loop beyond it'' (query_add (query_decode seg) (query_decode vs) q))"
proof -
  have name: "query_urldecode (view_mem (seg @ CHR ''='' # vs @ rest) beyond) (length seg) = query_decode seg"
    by (rule query_urldecode_prefix [OF assms(3)]) simp
  have val: "query_urldecode (view_mem (vs @ rest) beyond) (length vs) = query_decode vs"
    by (rule query_urldecode_prefix [OF assms(5)]) (use assms(6) in auto)
  have "rest = [] \<or> hd rest = CHR ''&''" using assms(6) by auto
  note cut = cut_at_amp [OF assms(4) this]
  have "query_parse_loop beyond (seg @ CHR ''='' # vs @ rest) q =
    (case dropWhile (\<lambda>c. c \<noteq> CHR ''&'') (vs @ rest) of
       [] \<Rightarrow> query_add (query_decode seg) (query_decode vs) q
     | _ # it'' \<Rightarrow> query_parse_loop beyond it'' (query_add (query_decode seg) (query_decode vs) q))"
    using assms(1,2) by (subst query_parse_loop.simps) (simp add: cut_at cut(1) name val Let_def cong: list.case_cong)
  then show ?thesis unfolding cut(2) .
qed

lemma query_parse_loop_spec:
  assumes "\<not> isxdigit (beyond 0)" "length it < size_max"
  shows "query_parse_loop beyond it q = parse_spec it q"
  using assms(2)
proof (induction "length it" arbitrary: it q rule: less_induct)
  case less
  let ?P = "\<lambda>c. c \<noteq> CHR ''='' \<and> c \<noteq> CHR ''&''"
  define seg rest where "seg = takeWhile ?P it" and "rest = dropWhile ?P it"
  have it: "it = seg @ rest" by (simp add: seg_def rest_def)
  have seg: "CHR ''='' \<notin> set seg" "CHR ''&'' \<notin> set seg" by (auto simp: seg_def dest: set_takeWhileD)
  have len: "length seg < size_max" using less.prems it by simp
  consider "rest = []" | it' where "rest = CHR ''&'' # it'" | it' where "rest = CHR ''='' # it'"
    by (cases rest) (auto simp: rest_def dropWhile_eq_Cons_conv)
  then show ?case
  proof cases
    case 1
    then show ?thesis
      using it seg parse_loop_last [of seg beyond q, OF seg len assms(1)]
      by (cases "seg = []") (simp_all add: parse_spec_def pieces_Nil pieces_last param_of_name parse_loop_Nil
       )
  next
    case (2 it')
    have "query_parse_loop beyond it' q' = parse_spec it' q'" for q'
      by (rule less.hyps) (use less.prems it 2 in auto)
    with 2 show ?thesis unfolding it
      by (simp add: parse_loop_amp [OF seg len] parse_spec_def pieces_stop [OF seg(2)] param_of_name [OF seg(1)]
         )
  next
    case (3 it')
    define vs r where "vs = takeWhile (\<lambda>c. c \<noteq> CHR ''&'') it'" and "r = dropWhile (\<lambda>c. c \<noteq> CHR ''&'') it'"
    have it': "it = seg @ CHR ''='' # vs @ r" using it 3 by (simp add: vs_def r_def)
    have vs: "CHR ''&'' \<notin> set vs" by (auto simp: vs_def dest: set_takeWhileD)
    have r: "r = [] \<or> (\<exists>it''. r = CHR ''&'' # it'')" by (cases r) (auto simp: r_def dropWhile_eq_Cons_conv)
    have "length vs < size_max" using less.prems it' by simp
    note step = parse_loop_value [OF seg len vs this]
    have piece: "CHR ''&'' \<notin> set (seg @ CHR ''='' # vs)" using seg vs by simp
    from r show ?thesis
    proof (elim disjE exE)
      assume r: "r = []"
      with step [of "[]" beyond q] assms(1) pieces_last [OF piece] show ?thesis
        unfolding it' r by (simp add: parse_spec_def param_of_value [OF seg(1)])
    next
      fix it'' assume r: "r = CHR ''&'' # it''"
      have "query_parse_loop beyond it'' q' = parse_spec it'' q'" for q'
        by (rule less.hyps) (use less.prems it' r in auto)
      with step [of r beyond q] pieces_stop [OF piece, of it''] show ?thesis
        unfolding it' r by (simp add: parse_spec_def param_of_value [OF seg(1)])
    qed
  qed
qed

section \<open>The printer\<close>

definition param_text :: "string \<times> string option \<Rightarrow> string" where
  "param_text p = query_urlencode (fst p) @ (case snd p of None \<Rightarrow> [] | Some v \<Rightarrow> ''='' @ query_urlencode v)"

definition flat_pair :: "string \<times> string list \<Rightarrow> (string \<times> string option) list" where
  "flat_pair pair = (if snd pair = [] then [(fst pair, None)] else map (\<lambda>v. (fst pair, Some v)) (snd pair))"

abbreviation print_next :: "bool \<times> string \<Rightarrow> string \<Rightarrow> bool \<times> string" where
  "print_next st t \<equiv> append_out t (add_prefix st)"

lemma flat_list_pairs: "flat_list q = concat (map flat_pair (q_values q))"
  unfolding flat_list_def by (intro arg_cong [where f = concat] map_cong) (auto simp: flat_pair_def)

lemma emit_pair_texts: "emit_pair st pair = foldl print_next st (map param_text (flat_pair pair))"
proof -
  have "foldl (\<lambda>st v. print_next st (name @ v)) st (map query_urlencode vs) =
      foldl (\<lambda>st value. print_next st (name @ query_urlencode value)) st vs" for name vs
    by (induction vs arbitrary: st) auto
  then show ?thesis
    by (simp add: emit_pair_def flat_pair_def param_text_def foldl_map)
qed

lemma emit_texts:
  "foldl emit_pair st vs = foldl print_next st (map param_text (concat (map flat_pair vs)))"
  by (induction vs arbitrary: st) (simp_all add: emit_pair_texts)

lemma print_rest: "foldl print_next (False, out) ts = (False, out @ concat (map (\<lambda>t. ''&'' @ t) ts))"
  by (induction ts arbitrary: out) (simp_all add: append_out_def)

lemma print_join: "snd (foldl print_next (True, []) ts) = join_with ''&'' ts"
proof (cases ts)
  case (Cons t ts')
  have "print_next (True, []) t = (False, t)" by (simp add: append_out_def)
  with Cons show ?thesis by (simp only: foldl_Cons print_rest join_with_Cons) simp
qed simp

lemma query_string_join: "query_string q = join_with ''&'' (map param_text (flat_list q))"
  by (simp add: query_string_def emit_texts flat_list_pairs print_join)

lemma length_flat_list: "flat_length q = length (flat_list q)"
proof -
  have "foldl (\<lambda>n pair. if snd pair = [] then n + 1 else n + length (snd pair)) k vs =
      k + length (concat (map flat_pair vs))" for k and vs :: "(string \<times> string list) list"
    by (induction vs arbitrary: k) (auto simp: flat_pair_def)
  then show ?thesis by (simp add: flat_length_def flat_list_pairs)
qed

section \<open>Round trip\<close>

lemma query_urlencode_clean:
  "c \<in> set (query_urlencode s) \<Longrightarrow> c \<noteq> CHR ''&'' \<and> c \<noteq> CHR ''='' \<and> c \<noteq> CHR ''?'' \<and> c \<noteq> CHR ''#''"
proof -
  assume "c \<in> set (query_urlencode s)"
  then have "c = CHR ''%'' \<or> c \<in> set hexes \<or> (\<exists>d. query_issafe d \<and> c = query_write_ch d)"
    unfolding query_urlencode_def by (rule query_codec.encode_set)
  then show ?thesis
    by (auto simp: query_issafe_def query_write_ch_def dest!: hexes_issafe safe_classes)
qed

lemma query_decode_encode: "query_decode (query_urlencode s) = s"
  by (simp add: query_decode_def query_urlencode_def query_codec.decode_encode)

lemma param_of_text: "param_of (param_text p) = p"
proof (cases p)
  case (Pair n w)
  have "CHR ''='' \<notin> set (query_urlencode n)" using query_urlencode_clean by blast
  then show ?thesis
    by (cases w) (simp_all add: Pair param_text_def param_of_name param_of_value query_decode_encode)
qed

lemma param_text_clean: "c \<in> set (param_text p) \<Longrightarrow> c \<noteq> CHR ''&'' \<and> c \<noteq> CHR ''?''"
  by (auto simp: param_text_def dest: query_urlencode_clean split: option.splits)

lemma query_urlencode_Nil: "query_urlencode s = [] \<longleftrightarrow> s = []"
  by (cases s) (auto simp: query_urlencode_def)

lemma param_text_Nil: "param_text p = [] \<longleftrightarrow> p = ([], None)"
  by (cases p) (auto simp: param_text_def query_urlencode_Nil split: option.splits)

lemma pieces_join:
  assumes "ts = [] \<or> last ts \<noteq> []" "\<And>t. t \<in> set ts \<Longrightarrow> CHR ''&'' \<notin> set t"
  shows "pieces (join_with ''&'' ts) = ts"
  using assms by (cases "ts = []") (simp_all add: pieces_Nil pieces_def split_on_join)

lemma add_values:
  assumes "q_values q = base @ [(n, us)]" "q_keys q n = Some (length base)"
  shows "foldl apply_query q (map (\<lambda>v. (n, Some v)) vs) = q\<lparr>q_values := base @ [(n, us @ vs)]\<rparr>"
  using assms
proof (induction vs arbitrary: q us)
  case Nil
  then show ?case by (cases q) simp
next
  case (Cons v vs)
  have "query_add n v q = q\<lparr>q_values := base @ [(n, us @ [v])]\<rparr>"
    using Cons.prems by (simp add: query_add_def)
  with Cons.IH [of "q\<lparr>q_values := base @ [(n, us @ [v])]\<rparr>" "us @ [v]"] Cons.prems
  show ?case by simp
qed

lemma apply_flat_pair:
  assumes "q_keys q n = None"
  shows "q_values (foldl apply_query q (flat_pair (n, vs))) = q_values q @ [(n, vs)]"
proof (cases vs)
  case Nil
  with assms show ?thesis by (simp add: flat_pair_def query_set_def)
next
  case (Cons v us)
  define q' where "q' = query_add n v q"
  have "q_values q' = q_values q @ [(n, [v])]" "q_keys q' n = Some (length (q_values q))"
    using assms by (simp_all add: q'_def query_add_def)
  from add_values [OF this, of us] Cons show ?thesis
    by (simp add: flat_pair_def q'_def)
qed

lemma apply_flat_list:
  "query_ok q \<Longrightarrow> distinct (names q @ map fst vs)
    \<Longrightarrow> q_values (foldl apply_query q (concat (map flat_pair vs))) = q_values q @ vs"
proof (induction vs arbitrary: q)
  case Nil
  then show ?case by simp
next
  case (Cons p vs)
  obtain n us where p: "p = (n, us)" by force
  define q' where "q' = foldl apply_query q (flat_pair p)"
  from Cons.prems have "sv_find n (names q) = None" by (simp add: p sv_find_None)
  with Cons.prems(1) have "q_keys q n = None" by (simp add: query_ok_def)
  then have vals: "q_values q' = q_values q @ [p]" by (simp add: q'_def p apply_flat_pair)
  have "query_ok q'" unfolding q'_def using Cons.prems(1) by (rule query_map.inv_foldl)
  from Cons.IH [OF this] Cons.prems(2) vals show ?case
    by (simp add: q'_def [symmetric])
qed

lemma query_eqI: "query_ok q \<Longrightarrow> query_ok r \<Longrightarrow> q_values q = q_values r \<Longrightarrow> q = r"
  by (rule query.equality) (auto simp: query_ok_def fun_eq_iff)

lemma apply_flat_list_eq: "query_ok q \<Longrightarrow> foldl apply_query query_empty (flat_list q) = q"
proof -
  assume ok: "query_ok q"
  have "q_values (foldl apply_query query_empty (flat_list q)) = q_values query_empty @ q_values q"
    unfolding flat_list_pairs
    by (rule apply_flat_list) (use ok in \<open>simp_all add: query_ok_empty query_ok_def query_empty_def\<close>)
  moreover have "query_ok (foldl apply_query query_empty (flat_list q))"
    by (rule query_map.inv_foldl) (rule query_ok_empty)
  ultimately show ?thesis
    using ok by (intro query_eqI) (simp_all add: query_empty_def)
qed

section \<open>Properties\<close>

text \<open>C23: The builder operations keep the index exact (each name once, at its position) and act on the
  map from names to value lists as their names say: \<open>add\<close> appends a value, \<open>set\<close> leaves the
  name without values, \<open>remove\<close> deletes it, every other name keeps its values.\<close>

theorem query_operations:
  assumes "query_ok q"
  shows "query_ok (query_add n v q) \<and> query_ok (query_set n q) \<and> query_ok (query_remove n q) \<and>
    query_lookup (query_add n v q) =
      (query_lookup q)(n \<mapsto> (case query_lookup q n of None \<Rightarrow> [v] | Some vs \<Rightarrow> vs @ [v])) \<and>
    query_lookup (query_set n q) = (query_lookup q)(n \<mapsto> []) \<and>
    query_lookup (query_remove n q) = (query_lookup q)(n := None)"
  using query_map.inv_add query_map.inv_set query_map.inv_remove query_map.lookup_add
    query_map.lookup_set query_map.lookup_remove assms by blast

theorem query_operations_witness:
  "query_lookup (query_remove ''a'' (query_add ''b'' ''2'' (query_add ''a'' ''1'' query_empty))) ''b'' = Some [''2'']"
proof -
  let ?q = "query_add ''b'' ''2'' (query_add ''a'' ''1'' query_empty)"
  have "query_ok ?q" by (intro query_map.inv_add query_map.inv_empty)
  moreover have "query_lookup ?q ''b'' = Some [''2'']" by code_simp
  ultimately show ?thesis using query_operations [of ?q "''a''"] by simp
qed

text \<open>C22: The parser computes its specification: the text, less a leading \<open>?\<close>, is cut at every \<open>&\<close> and
  each piece at its first \<open>=\<close>; names and values are percent-decoded, and the parameters are
  applied in order. The byte behind the text must not be a hex digit.\<close>

theorem query_parse_correct:
  assumes "\<not> isxdigit (beyond 0)" "length s < size_max"
  shows "query_parse beyond s = parse_spec (case s of [] \<Rightarrow> [] | c # cs \<Rightarrow> if c = CHR ''?'' then cs else s) query_empty"
  using assms by (auto simp: query_parse_def query_parse_loop_spec split: list.split)

theorem query_parse_correct_witness:
  "q_values (query_parse (\<lambda>i. CHR '' '') ''?a=1&b&a=%32'') = [(''a'', [''1'', ''2'']), (''b'', [])]"
proof -
  have "q_values (parse_spec ''a=1&b&a=%32'' query_empty) = [(''a'', [''1'', ''2'']), (''b'', [])]"
    by code_simp
  moreover have "length ''?a=1&b&a=%32'' < size_max" by (simp add: size_max_def)
  ultimately show ?thesis
    using query_parse_correct [of "\<lambda>i. CHR '' ''" "''?a=1&b&a=%32''"] by (simp add: isxdigit_def isdigit_def)
qed

text \<open>C7: Printing a query and parsing the text gives the query back, names, values, their order and
  the index included, unless it ends with a nameless parameter that has no value.\<close>

theorem query_roundtrip:
  assumes "query_ok q" "q_values q = [] \<or> last (q_values q) \<noteq> ([], [])"
    "\<not> isxdigit (beyond 0)" "length (query_string q) < size_max"
  shows "query_parse beyond (query_string q) = q"
proof -
  let ?ts = "map param_text (flat_list q)"
  have "?ts = [] \<or> last ?ts \<noteq> []"
  proof (cases "q_values q" rule: rev_cases)
    case (snoc vs p)
    with assms(2) show ?thesis
      by (cases p; cases "snd p" rule: rev_cases) (auto simp: flat_list_pairs flat_pair_def param_text_Nil last_map)
  qed (simp add: flat_list_pairs)
  moreover have "CHR ''&'' \<notin> set t" if "t \<in> set ?ts" for t
    using that param_text_clean by auto
  ultimately have "pieces (query_string q) = ?ts"
    unfolding query_string_join by (rule pieces_join)
  then have "parse_spec (query_string q) query_empty = q"
    using apply_flat_list_eq [OF assms(1)] by (simp add: parse_spec_def comp_def param_of_text)
  moreover have "CHR ''?'' \<notin> set (query_string q)"
    unfolding query_string_join using param_text_clean by (fastforce dest: join_with_set)
  ultimately show ?thesis
    using assms(3,4) by (auto simp: query_parse_def query_parse_loop_spec split: list.splits)
qed

theorem query_roundtrip_witness:
  "query_parse (\<lambda>i. CHR '' '') (query_string (query_set ''d'' (query_add ''a&b'' ''='' query_empty))) =
     query_set ''d'' (query_add ''a&b'' ''='' query_empty)"
proof (rule query_roundtrip)
  show "query_ok (query_set ''d'' (query_add ''a&b'' ''='' query_empty))"
    by (intro query_map.inv_add query_map.inv_set query_map.inv_empty)
  show "q_values (query_set ''d'' (query_add ''a&b'' ''='' query_empty)) = [] \<or>
      last (q_values (query_set ''d'' (query_add ''a&b'' ''='' query_empty))) \<noteq> ([], [])"
    "\<not> isxdigit (CHR '' '')"
    by code_simp+
  show "length (query_string (query_set ''d'' (query_add ''a&b'' ''='' query_empty))) < size_max"
    by (rule small_size) code_simp
qed

end
