(* ===== verification/Regex.thy ===== *)
theory Regex
  imports Prelude
begin

text \<open>
  The part of \<open>std::regex\<close> (ECMAScript grammar) that \<open>path_compiler.cc\<close> relies on: the regular
  expressions themselves and the backtracking matcher. A match attempt yields the list of all
  its outcomes in the order in which the ECMAScript matcher would try them, each an end
  position and the captures; \<open>regex_match\<close> takes the first one that ends at the end of the
  subject, \<open>regex_search\<close> the first one at the leftmost start. A greedy quantifier lists the
  longer iterations first, a lazy one last; an iteration beyond the minimum that consumes
  nothing is not tried; captures inside a quantified expression are reset at each iteration.
  Back references, word boundaries and POSIX bracket classes are not in the type (see
  \<open>Regex_Syntax\<close>).
\<close>

section \<open>Expressions\<close>

datatype class_item = Item char | Span char char | Digits bool | Words bool | Spaces bool

datatype regex =
    REmpty
  | RCh char
  | RDot
  | RClass bool "class_item list"
  | RSeq regex regex
  | RAlt regex regex
  | RRep regex nat "nat option" bool
  | RGroup nat regex
  | RLook bool regex
  | RBol
  | REol

type_synonym caps = "nat \<Rightarrow> (nat \<times> nat) option"
type_synonym mstate = "nat \<times> caps"

section \<open>Single characters\<close>

definition toupper :: "char \<Rightarrow> char" where
  "toupper c = (if islower c then char_of (code c - 32) else c)"

definition is_word :: "char \<Rightarrow> bool" where
  "is_word c \<longleftrightarrow> isalnum c \<or> c = CHR ''_''"

definition is_line_end :: "char \<Rightarrow> bool" where
  "is_line_end c \<longleftrightarrow> code c = 10 \<or> code c = 13"

definition char_matches :: "bool \<Rightarrow> char \<Rightarrow> char \<Rightarrow> bool" where
  "char_matches icase c x \<longleftrightarrow> (if icase then tolower c = tolower x else c = x)"

definition in_span :: "char \<Rightarrow> char \<Rightarrow> char \<Rightarrow> bool" where
  "in_span a b x \<longleftrightarrow> code a \<le> code x \<and> code x \<le> code b"

fun item_matches :: "bool \<Rightarrow> class_item \<Rightarrow> char \<Rightarrow> bool" where
  "item_matches icase (Item c) x \<longleftrightarrow> char_matches icase c x"
| "item_matches icase (Span a b) x \<longleftrightarrow>
     in_span a b x \<or> icase \<and> (in_span a b (tolower x) \<or> in_span a b (toupper x))"
| "item_matches icase (Digits neg) x \<longleftrightarrow> isdigit x \<noteq> neg"
| "item_matches icase (Words neg) x \<longleftrightarrow> is_word x \<noteq> neg"
| "item_matches icase (Spaces neg) x \<longleftrightarrow> isspace x \<noteq> neg"

definition class_matches :: "bool \<Rightarrow> bool \<Rightarrow> class_item list \<Rightarrow> char \<Rightarrow> bool" where
  "class_matches icase neg items x \<longleftrightarrow> (\<exists>it \<in> set items. item_matches icase it x) \<noteq> neg"

section \<open>The matcher\<close>

text \<open>
  \<open>n\<close> is the length of the subject. The outcomes of \<open>m\<close> never lie before its start nor behind
  the end (lemma \<open>rmatch_bounds\<close>), so the filter drops exactly the empty iterations.
\<close>

function rep_matches ::
  "nat \<Rightarrow> (mstate \<Rightarrow> mstate list) \<Rightarrow> nat \<Rightarrow> nat option \<Rightarrow> bool \<Rightarrow> mstate \<Rightarrow> mstate list" where
  "rep_matches n m lo hi greedy x =
    (if hi = Some 0 then [x]
     else
       let more = concat (map (\<lambda>y. rep_matches n m (lo - 1) (map_option (\<lambda>h. h - 1) hi) greedy y)
                    (filter (\<lambda>y. 0 < lo \<or> (fst x < fst y \<and> fst y \<le> n)) (m x)))
       in if 0 < lo then more else if greedy then more @ [x] else x # more)"
  by pat_completeness auto
termination
  by (relation "measures [\<lambda>(n, m, lo, hi, greedy, x). lo, \<lambda>(n, m, lo, hi, greedy, x). n - fst x]")
    auto

declare rep_matches.simps [simp del]

primrec groups :: "regex \<Rightarrow> nat list" where
  "groups REmpty = []"
| "groups (RCh c) = []"
| "groups RDot = []"
| "groups (RClass neg items) = []"
| "groups (RSeq a b) = groups a @ groups b"
| "groups (RAlt a b) = groups a @ groups b"
| "groups (RRep r lo hi greedy) = groups r"
| "groups (RGroup g r) = g # groups r"
| "groups (RLook neg r) = groups r"
| "groups RBol = []"
| "groups REol = []"

definition reset_caps :: "nat list \<Rightarrow> caps \<Rightarrow> caps" where
  "reset_caps gs k = foldl (\<lambda>k g. k(g := None)) k gs"

definition one_char :: "(char \<Rightarrow> bool) \<Rightarrow> string \<Rightarrow> mstate \<Rightarrow> mstate list" where
  "one_char P s x = (if fst x < length s \<and> P (s ! fst x) then [(Suc (fst x), snd x)] else [])"

primrec rmatch :: "bool \<Rightarrow> string \<Rightarrow> regex \<Rightarrow> mstate \<Rightarrow> mstate list" where
  "rmatch icase s REmpty = (\<lambda>x. [x])"
| "rmatch icase s (RCh c) = one_char (char_matches icase c) s"
| "rmatch icase s RDot = one_char (\<lambda>c. \<not> is_line_end c) s"
| "rmatch icase s (RClass neg items) = one_char (class_matches icase neg items) s"
| "rmatch icase s (RSeq a b) = (\<lambda>x. concat (map (rmatch icase s b) (rmatch icase s a x)))"
| "rmatch icase s (RAlt a b) = (\<lambda>x. rmatch icase s a x @ rmatch icase s b x)"
| "rmatch icase s (RRep r lo hi greedy) =
     rep_matches (length s) (\<lambda>x. rmatch icase s r (fst x, reset_caps (groups r) (snd x))) lo hi greedy"
| "rmatch icase s (RGroup g r) =
     (\<lambda>x. map (\<lambda>y. (fst y, (snd y)(g \<mapsto> (fst x, fst y)))) (rmatch icase s r x))"
| "rmatch icase s (RLook neg r) =
     (\<lambda>x. case rmatch icase s r x of
            [] \<Rightarrow> if neg then [x] else []
          | y # _ \<Rightarrow> if neg then [] else [(fst x, snd y)])"
| "rmatch icase s RBol = (\<lambda>x. if fst x = 0 then [x] else [])"
| "rmatch icase s REol = (\<lambda>x. if fst x = length s then [x] else [])"

section \<open>Algorithms over the matcher\<close>

definition regex_match :: "bool \<Rightarrow> regex \<Rightarrow> string \<Rightarrow> caps option" where
  "regex_match icase r s =
    map_option snd (List.find (\<lambda>y. fst y = length s) (rmatch icase s r (0, Map.empty)))"

function regex_search :: "bool \<Rightarrow> regex \<Rightarrow> string \<Rightarrow> nat \<Rightarrow> (nat \<times> mstate) option" where
  "regex_search icase r s from =
    (case rmatch icase s r (from, Map.empty) of
       y # _ \<Rightarrow> Some (from, y)
     | [] \<Rightarrow> if from < length s then regex_search icase r s (Suc from) else None)"
  by pat_completeness auto
termination
  by (relation "measure (\<lambda>(icase, r, s, from). length s - from)") auto

declare regex_search.simps [simp del]

text \<open>
  \<open>std::sregex_iterator\<close>: the next search starts where the last match ended. The code iterates
  an expression that never matches the empty string (\<open>Path_Compiler.path_regex_progress\<close>), so
  the standard's special case for empty matches is not reached; the iteration stops there.
\<close>

function regex_iterate :: "bool \<Rightarrow> regex \<Rightarrow> string \<Rightarrow> nat \<Rightarrow> (nat \<times> mstate) list" where
  "regex_iterate icase r s from =
    (case regex_search icase r s from of
       None \<Rightarrow> []
     | Some (b, y) \<Rightarrow>
         (b, y) # (if from < fst y \<and> fst y \<le> length s then regex_iterate icase r s (fst y) else []))"
  by pat_completeness auto
termination
  by (relation "measure (\<lambda>(icase, r, s, from). length s - from)") auto

declare regex_iterate.simps [simp del]

text \<open>\<open>std::string{match[g]}\<close>: the text of a group, empty when it did not take part.\<close>

definition group_text :: "string \<Rightarrow> caps \<Rightarrow> nat \<Rightarrow> string" where
  "group_text s k g = (case k g of None \<Rightarrow> [] | Some (b, e) \<Rightarrow> take (e - b) (drop b s))"

section \<open>Bounds\<close>

lemma one_char_bounds: "y \<in> set (one_char P s x) \<Longrightarrow> fst y = Suc (fst x) \<and> fst y \<le> length s"
  by (cases "fst x < length s \<and> P (s ! fst x)") (simp_all add: one_char_def)

lemma rep_matches_cases:
  assumes "y \<in> set (rep_matches n m lo hi greedy x)"
  obtains "y = x"
  | z where "hi \<noteq> Some 0" "z \<in> set (m x)" "0 < lo \<or> fst x < fst z \<and> fst z \<le> n"
      "y \<in> set (rep_matches n m (lo - 1) (map_option (\<lambda>h. h - 1) hi) greedy z)"
  using assms by (subst (asm) rep_matches.simps) (auto simp: Let_def split: if_splits)

lemma rep_matches_bounds:
  assumes "\<And>x y. fst x \<le> n \<Longrightarrow> y \<in> set (m x) \<Longrightarrow> fst x \<le> fst y \<and> fst y \<le> n"
    and "fst x \<le> n" "y \<in> set (rep_matches n m lo hi greedy x)"
  shows "fst x \<le> fst y \<and> fst y \<le> n"
  using assms
proof (induction n m lo hi greedy x arbitrary: y rule: rep_matches.induct)
  case (1 n m lo hi greedy x)
  note step = "1.prems"(1)
  from "1.prems"(3) show ?case
  proof (cases rule: rep_matches_cases)
    case 1
    with "1.prems"(2) show ?thesis by simp
  next
    case (2 z)
    from step [OF "1.prems"(2) 2(2)] have z: "fst x \<le> fst z" "fst z \<le> n" by auto
    have "fst z \<le> fst y \<and> fst y \<le> n"
      by (rule "1.IH" [OF 2(1) _ step z(2) 2(4)]) (use 2 in auto)
    with z show ?thesis by simp
  qed
qed

lemma rmatch_bounds:
  "fst x \<le> length s \<Longrightarrow> y \<in> set (rmatch icase s r x) \<Longrightarrow> fst x \<le> fst y \<and> fst y \<le> length s"
proof (induction r arbitrary: x y)
  case (RSeq a b)
  from RSeq.prems(2) obtain z where z: "z \<in> set (rmatch icase s a x)" "y \<in> set (rmatch icase s b z)" by auto
  from RSeq.IH(1) [OF RSeq.prems(1) z(1)] have "fst x \<le> fst z" "fst z \<le> length s" by auto
  moreover from RSeq.IH(2) [OF this(2) z(2)] have "fst z \<le> fst y" "fst y \<le> length s" by auto
  ultimately show ?case by simp
next
  case (RRep r lo hi greedy)
  let ?m = "\<lambda>x. rmatch icase s r (fst x, reset_caps (groups r) (snd x))"
  have "fst x \<le> fst y \<and> fst y \<le> length s" if "fst x \<le> length s" "y \<in> set (?m x)" for x y
    using RRep.IH [of "(fst x, reset_caps (groups r) (snd x))" y] that by simp
  from rep_matches_bounds [OF this RRep.prems(1)] RRep.prems(2) show ?case by simp
next
  case (RAlt a b)
  from RAlt.prems(2) consider "y \<in> set (rmatch icase s a x)" | "y \<in> set (rmatch icase s b x)"
    by auto
  then show ?case by cases (use RAlt.IH RAlt.prems(1) in blast)+
next
  case (RGroup g r)
  from RGroup.prems(2) obtain z where "z \<in> set (rmatch icase s r x)" "fst y = fst z" by auto
  with RGroup.IH [OF RGroup.prems(1), of z] show ?case by simp
next
  case (RLook neg r)
  then have "fst y = fst x" by (simp split: list.splits if_splits)
  with RLook.prems(1) show ?case by simp
qed (simp_all split: if_splits, (drule one_char_bounds, simp)+)

lemma regex_search_Some:
  "regex_search icase r s from = Some (b, y) \<Longrightarrow>
    from \<le> b \<and> y \<in> set (rmatch icase s r (b, Map.empty)) \<and> (b = from \<or> b \<le> length s)"
proof (induction icase r s "from" rule: regex_search.induct)
  case (1 icase r s "from")
  note eq = regex_search.simps [of icase r s "from"]
  show ?case
  proof (cases "rmatch icase s r (from, Map.empty)")
    case Nil
    with "1.prems" have "from < length s" "regex_search icase r s (Suc from) = Some (b, y)"
      unfolding eq by (simp_all split: if_splits)
    with "1.IH" [OF Nil] show ?thesis by auto
  next
    case (Cons z zs)
    with "1.prems" show ?thesis unfolding eq by auto
  qed
qed

text \<open>No outcome at any start means no search succeeds.\<close>

lemma regex_search_None:
  "(\<And>b. rmatch icase s r (b, Map.empty) = []) \<Longrightarrow> regex_search icase r s from = None"
proof (induction icase r s "from" rule: regex_search.induct)
  case (1 icase r s "from")
  then show ?case by (subst regex_search.simps) simp
qed

lemma regex_iterate_None:
  "(\<And>b. rmatch icase s r (b, Map.empty) = []) \<Longrightarrow> regex_iterate icase r s from = []"
  by (subst regex_iterate.simps) (simp add: regex_search_None)

end
