(* ===== verification/Regex_Syntax.thy ===== *)
theory Regex_Syntax
  imports Regex
begin

text \<open>
  The constructor \<open>std::regex{text, flags}\<close>: the ECMAScript pattern grammar, read one character
  at a time by a machine with a lexical mode and a stack of open groups. Reading a text is a
  fold of \<open>step\<close>, so compiling a concatenation is compiling the first part and going on with
  the second (\<open>run_append\<close>); a text that compiles on its own compiles to the same expression
  inside a group (\<open>run_embed\<close>). \<open>Unsupported\<close> marks what the type \<open>regex\<close> does not have (back
  references, \<open>\b\<close>, \<open>\c\<close>, \<open>\x\<close>, \<open>\u\<close>, POSIX bracket classes); the other errors are the
  \<open>std::regex_error\<close>s the standard names.
\<close>

section \<open>The machine\<close>

datatype rx_error = Error_escape | Error_brack | Error_paren | Error_brace | Error_badbrace
  | Error_range | Error_badrepeat | Unsupported

datatype group_kind = KNon | KCap nat | KLook bool

text \<open>
  An alternation under construction: the finished alternatives and the terms of the current
  one, both latest first.
\<close>

record frame =
  f_alts :: "regex list"
  f_terms :: "regex list"

text \<open>Inside brackets: what has been read, and the character that may still start a range.\<close>

record bracket =
  b_neg :: bool
  b_items :: "class_item list"
  b_last :: "char option"
  b_dash :: bool

datatype mode =
    MNormal
  | MEscape
  | MOpen
  | MOpenQ
  | MBrace "nat option"
  | MBrace2 nat "nat option"
  | MClass0
  | MClass bracket
  | MClassEsc bracket
  | MClassBrack bracket

text \<open>What a quantifier would apply to: nothing, the last term, or (for \<open>?\<close>) a greedy quantifier.\<close>

datatype quant = QNone | QAtom | QGreedy

record pstate =
  p_mode :: mode
  p_frame :: frame
  p_stack :: "(group_kind \<times> frame) list"
  p_groups :: nat
  p_quant :: quant

definition empty_frame :: frame where
  "empty_frame = \<lparr>f_alts = [], f_terms = []\<rparr>"

definition init_state :: pstate where
  "init_state = \<lparr>p_mode = MNormal, p_frame = empty_frame, p_stack = [], p_groups = 0, p_quant = QNone\<rparr>"

fun seq_of :: "regex list \<Rightarrow> regex" where
  "seq_of [] = REmpty"
| "seq_of (t # ts) = RSeq t (seq_of ts)"

fun alt_of :: "regex list \<Rightarrow> regex" where
  "alt_of [] = REmpty"
| "alt_of [r] = r"
| "alt_of (r # rs) = RAlt r (alt_of rs)"

definition close_frame :: "frame \<Rightarrow> regex" where
  "close_frame f = alt_of (rev (seq_of (rev (f_terms f)) # f_alts f))"

definition wrap :: "group_kind \<Rightarrow> regex \<Rightarrow> regex" where
  "wrap k r = (case k of KNon \<Rightarrow> r | KCap g \<Rightarrow> RGroup g r | KLook neg \<Rightarrow> RLook neg r)"

definition push_term :: "regex \<Rightarrow> quant \<Rightarrow> pstate \<Rightarrow> pstate" where
  "push_term r q st = st\<lparr>p_mode := MNormal, p_quant := q,
     p_frame := (p_frame st)\<lparr>f_terms := r # f_terms (p_frame st)\<rparr>\<rparr>"

definition set_mode :: "mode \<Rightarrow> pstate \<Rightarrow> pstate" where
  "set_mode m st = st\<lparr>p_mode := m\<rparr>"

definition open_group :: "group_kind \<Rightarrow> pstate \<Rightarrow> pstate" where
  "open_group k st = st\<lparr>p_mode := MNormal, p_quant := QNone, p_frame := empty_frame,
     p_stack := (k, p_frame st) # p_stack st\<rparr>"

definition open_capture :: "pstate \<Rightarrow> pstate" where
  "open_capture st = open_group (KCap (Suc (p_groups st))) (st\<lparr>p_groups := Suc (p_groups st)\<rparr>)"

definition close_group :: "pstate \<Rightarrow> rx_error + pstate" where
  "close_group st =
    (case p_stack st of
       [] \<Rightarrow> Inl Error_paren
     | (k, outer) # stack \<Rightarrow>
         Inr (push_term (wrap k (close_frame (p_frame st)))
           (case k of KLook neg \<Rightarrow> QNone | _ \<Rightarrow> QAtom)
           (st\<lparr>p_frame := outer, p_stack := stack\<rparr>)))"

definition next_alt :: "pstate \<Rightarrow> pstate" where
  "next_alt st = st\<lparr>p_mode := MNormal, p_quant := QNone,
     p_frame := \<lparr>f_alts = seq_of (rev (f_terms (p_frame st))) # f_alts (p_frame st), f_terms = []\<rparr>\<rparr>"

text \<open>A quantifier replaces the last term; a \<open>?\<close> right behind it makes it lazy.\<close>

definition quantify :: "nat \<Rightarrow> nat option \<Rightarrow> pstate \<Rightarrow> rx_error + pstate" where
  "quantify lo hi st =
    (case (p_quant st, f_terms (p_frame st)) of
       (QAtom, t # ts) \<Rightarrow>
         if (case hi of Some h \<Rightarrow> h < lo | None \<Rightarrow> False) then Inl Error_badbrace
         else Inr (st\<lparr>p_mode := MNormal, p_quant := QGreedy,
                p_frame := (p_frame st)\<lparr>f_terms := RRep t lo hi True # ts\<rparr>\<rparr>)
     | _ \<Rightarrow> Inl Error_badrepeat)"

definition lazify :: "pstate \<Rightarrow> rx_error + pstate" where
  "lazify st =
    (case f_terms (p_frame st) of
       RRep t lo hi greedy # ts \<Rightarrow>
         Inr (st\<lparr>p_quant := QNone, p_frame := (p_frame st)\<lparr>f_terms := RRep t lo hi False # ts\<rparr>\<rparr>)
     | _ \<Rightarrow> Inl Error_badrepeat)"

definition normal_step :: "pstate \<Rightarrow> char \<Rightarrow> rx_error + pstate" where
  "normal_step st c =
    (if c = CHR ''^'' then Inr (push_term RBol QNone st)
     else if c = CHR ''$'' then Inr (push_term REol QNone st)
     else if c = CHR ''.'' then Inr (push_term RDot QAtom st)
     else if c = CHR 0x5C then Inr (set_mode MEscape st)
     else if c = CHR ''('' then Inr (set_mode MOpen st)
     else if c = CHR '')'' then close_group st
     else if c = CHR ''['' then Inr (set_mode MClass0 st)
     else if c = CHR ''|'' then Inr (next_alt st)
     else if c = CHR ''*'' then quantify 0 None st
     else if c = CHR ''+'' then quantify 1 None st
     else if c = CHR ''?'' then
       (if p_quant st = QGreedy then lazify st else quantify 0 (Some 1) st)
     else if c = CHR ''{'' then
       (if p_quant st = QAtom then Inr (set_mode (MBrace None) st) else Inl Error_badrepeat)
     else Inr (push_term (RCh c) QAtom st))"

section \<open>Escapes, brackets, braces\<close>

definition char_class :: "char \<Rightarrow> class_item option" where
  "char_class c =
    (if c = CHR ''d'' then Some (Digits False) else if c = CHR ''D'' then Some (Digits True)
     else if c = CHR ''w'' then Some (Words False) else if c = CHR ''W'' then Some (Words True)
     else if c = CHR ''s'' then Some (Spaces False) else if c = CHR ''S'' then Some (Spaces True)
     else None)"

definition escaped_char :: "char \<Rightarrow> rx_error + char" where
  "escaped_char c =
    (if c = CHR ''f'' then Inr (CHR 0x0C) else if c = CHR ''n'' then Inr (CHR 0x0A)
     else if c = CHR ''r'' then Inr (CHR 0x0D) else if c = CHR ''t'' then Inr (CHR 0x09)
     else if c = CHR ''v'' then Inr (CHR 0x0B) else if c = CHR ''0'' then Inr (CHR 0x00)
     else if isdigit c \<or> c \<in> set ''bBcxu'' then Inl Unsupported
     else Inr c)"

definition escape_step :: "pstate \<Rightarrow> char \<Rightarrow> rx_error + pstate" where
  "escape_step st c =
    (case char_class c of
       Some it \<Rightarrow> Inr (push_term (RClass False [it]) QAtom st)
     | None \<Rightarrow>
         (case escaped_char c of Inl e \<Rightarrow> Inl e | Inr d \<Rightarrow> Inr (push_term (RCh d) QAtom st)))"

definition bracket_char :: "bracket \<Rightarrow> char \<Rightarrow> rx_error + bracket" where
  "bracket_char b c =
    (case (b_last b, b_dash b) of
       (Some a, True) \<Rightarrow>
         if code a \<le> code c
         then Inr (b\<lparr>b_items := Span a c # b_items b, b_last := None, b_dash := False\<rparr>)
         else Inl Error_range
     | (Some a, False) \<Rightarrow> Inr (b\<lparr>b_items := Item a # b_items b, b_last := Some c\<rparr>)
     | (None, _) \<Rightarrow> Inr (b\<lparr>b_last := Some c\<rparr>))"

definition bracket_class :: "bracket \<Rightarrow> class_item \<Rightarrow> rx_error + bracket" where
  "bracket_class b it =
    (case (b_last b, b_dash b) of
       (Some a, True) \<Rightarrow> Inl Error_range
     | (Some a, False) \<Rightarrow> Inr (b\<lparr>b_items := it # Item a # b_items b, b_last := None\<rparr>)
     | (None, _) \<Rightarrow> Inr (b\<lparr>b_items := it # b_items b\<rparr>))"

definition bracket_dash :: "bracket \<Rightarrow> rx_error + bracket" where
  "bracket_dash b =
    (if b_dash b \<or> b_last b = None then bracket_char b (CHR ''-'') else Inr (b\<lparr>b_dash := True\<rparr>))"

definition bracket_items :: "bracket \<Rightarrow> class_item list" where
  "bracket_items b =
    rev ((if b_dash b then [Item (CHR ''-'')] else [])
      @ (case b_last b of None \<Rightarrow> [] | Some a \<Rightarrow> [Item a]) @ b_items b)"

definition keep_class :: "pstate \<Rightarrow> rx_error + bracket \<Rightarrow> rx_error + pstate" where
  "keep_class st b = (case b of Inl e \<Rightarrow> Inl e | Inr b' \<Rightarrow> Inr (set_mode (MClass b') st))"

definition class_step :: "pstate \<Rightarrow> bracket \<Rightarrow> char \<Rightarrow> rx_error + pstate" where
  "class_step st b c =
    (if c = CHR '']'' then Inr (push_term (RClass (b_neg b) (bracket_items b)) QAtom st)
     else if c = CHR 0x5C then Inr (set_mode (MClassEsc b) st)
     else if c = CHR ''['' then Inr (set_mode (MClassBrack b) st)
     else if c = CHR ''-'' then keep_class st (bracket_dash b)
     else keep_class st (bracket_char b c))"

definition class_esc_step :: "pstate \<Rightarrow> bracket \<Rightarrow> char \<Rightarrow> rx_error + pstate" where
  "class_esc_step st b c =
    (case char_class c of
       Some it \<Rightarrow> keep_class st (bracket_class b it)
     | None \<Rightarrow>
         (case escaped_char c of Inl e \<Rightarrow> Inl e | Inr d \<Rightarrow> keep_class st (bracket_char b d)))"

definition class_brack_step :: "pstate \<Rightarrow> bracket \<Rightarrow> char \<Rightarrow> rx_error + pstate" where
  "class_brack_step st b c =
    (if c \<in> set '':.='' then Inl Unsupported
     else (case bracket_char b (CHR ''['') of Inl e \<Rightarrow> Inl e | Inr b' \<Rightarrow> class_step st b' c))"

definition add_digit :: "nat option \<Rightarrow> char \<Rightarrow> nat option" where
  "add_digit n c = Some (10 * (case n of None \<Rightarrow> 0 | Some k \<Rightarrow> k) + (code c - 48))"

definition brace_step :: "pstate \<Rightarrow> nat option \<Rightarrow> char \<Rightarrow> rx_error + pstate" where
  "brace_step st n c =
    (if isdigit c then Inr (set_mode (MBrace (add_digit n c)) st)
     else (case n of
             None \<Rightarrow> Inl Error_badbrace
           | Some lo \<Rightarrow>
               if c = CHR '','' then Inr (set_mode (MBrace2 lo None) st)
               else if c = CHR ''}'' then quantify lo (Some lo) st
               else Inl Error_badbrace))"

definition brace2_step :: "pstate \<Rightarrow> nat \<Rightarrow> nat option \<Rightarrow> char \<Rightarrow> rx_error + pstate" where
  "brace2_step st lo n c =
    (if isdigit c then Inr (set_mode (MBrace2 lo (add_digit n c)) st)
     else if c = CHR ''}'' then quantify lo n st
     else Inl Error_badbrace)"

definition new_bracket :: "bool \<Rightarrow> bracket" where
  "new_bracket neg = \<lparr>b_neg = neg, b_items = [], b_last = None, b_dash = False\<rparr>"

definition step :: "pstate \<Rightarrow> char \<Rightarrow> rx_error + pstate" where
  "step st c =
    (case p_mode st of
       MNormal \<Rightarrow> normal_step st c
     | MEscape \<Rightarrow> escape_step st c
     | MOpen \<Rightarrow> if c = CHR ''?'' then Inr (set_mode MOpenQ st) else normal_step (open_capture st) c
     | MOpenQ \<Rightarrow>
         if c = CHR '':'' then Inr (open_group KNon st)
         else if c = CHR ''='' then Inr (open_group (KLook False) st)
         else if c = CHR ''!'' then Inr (open_group (KLook True) st)
         else Inl Error_paren
     | MBrace n \<Rightarrow> brace_step st n c
     | MBrace2 lo n \<Rightarrow> brace2_step st lo n c
     | MClass0 \<Rightarrow>
         if c = CHR ''^'' then Inr (set_mode (MClass (new_bracket True)) st)
         else class_step st (new_bracket False) c
     | MClass b \<Rightarrow> class_step st b c
     | MClassEsc b \<Rightarrow> class_esc_step st b c
     | MClassBrack b \<Rightarrow> class_brack_step st b c)"

fun run :: "pstate \<Rightarrow> string \<Rightarrow> rx_error + pstate" where
  "run st [] = Inr st"
| "run st (c # cs) = (case step st c of Inl e \<Rightarrow> Inl e | Inr st' \<Rightarrow> run st' cs)"

definition finish :: "pstate \<Rightarrow> rx_error + regex" where
  "finish st =
    (case p_mode st of
       MNormal \<Rightarrow> if p_stack st = [] then Inr (close_frame (p_frame st)) else Inl Error_paren
     | MEscape \<Rightarrow> Inl Error_escape
     | MOpen \<Rightarrow> Inl Error_paren
     | MOpenQ \<Rightarrow> Inl Error_paren
     | MBrace n \<Rightarrow> Inl Error_brace
     | MBrace2 lo n \<Rightarrow> Inl Error_brace
     | MClass0 \<Rightarrow> Inl Error_brack
     | MClass b \<Rightarrow> Inl Error_brack
     | MClassEsc b \<Rightarrow> Inl Error_escape
     | MClassBrack b \<Rightarrow> Inl Error_brack)"

definition regex_compile :: "string \<Rightarrow> rx_error + regex" where
  "regex_compile text = (case run init_state text of Inl e \<Rightarrow> Inl e | Inr st \<Rightarrow> finish st)"

section \<open>Reading a concatenation\<close>

lemma run_append: "run st (a @ b) = (case run st a of Inl e \<Rightarrow> Inl e | Inr st' \<Rightarrow> run st' b)"
  by (induction a arbitrary: st) (auto split: sum.splits)

lemma run_append_Inr: "run st a = Inr st' \<Longrightarrow> run st (a @ b) = run st' b"
  by (simp add: run_append)

section \<open>Reading the same text inside a group\<close>

text \<open>
  \<open>embed K g st\<close> is \<open>st\<close> with the open groups \<open>K\<close> below its own and \<open>g\<close> capture groups opened
  before. A step that opens no capture does the same in both.
\<close>

definition embed :: "(group_kind \<times> frame) list \<Rightarrow> nat \<Rightarrow> pstate \<Rightarrow> pstate" where
  "embed K g st = st\<lparr>p_stack := p_stack st @ K, p_groups := g\<rparr>"

lemma embed_sel [simp]:
  "p_mode (embed K g st) = p_mode st" "p_frame (embed K g st) = p_frame st"
  "p_quant (embed K g st) = p_quant st" "p_stack (embed K g st) = p_stack st @ K"
  "p_groups (embed K g st) = g"
  by (simp_all add: embed_def)

lemma embed_ops:
  "push_term r q (embed K g st) = embed K g (push_term r q st)"
  "set_mode m (embed K g st) = embed K g (set_mode m st)"
  "open_group k (embed K g st) = embed K g (open_group k st)"
  "next_alt (embed K g st) = embed K g (next_alt st)"
  by (simp_all add: embed_def push_term_def set_mode_def open_group_def next_alt_def)

lemma groups_ops [simp]:
  "p_groups (push_term r q st) = p_groups st" "p_groups (set_mode m st) = p_groups st"
  "p_groups (open_group k st) = p_groups st" "p_groups (next_alt st) = p_groups st"
  "p_groups (open_capture st) = Suc (p_groups st)"
  by (simp_all add: push_term_def set_mode_def open_group_def next_alt_def open_capture_def)

lemma quantify_embed: "quantify lo hi st = Inr st' \<Longrightarrow> quantify lo hi (embed K g st) = Inr (embed K g st')"
  by (auto simp: quantify_def embed_def split: quant.splits list.splits option.splits if_splits)

lemma quantify_groups: "quantify lo hi st = Inr st' \<Longrightarrow> p_groups st' = p_groups st"
  by (auto simp: quantify_def split: quant.splits list.splits option.splits if_splits)

lemma lazify_embed: "lazify st = Inr st' \<Longrightarrow> lazify (embed K g st) = Inr (embed K g st')"
  by (auto simp: lazify_def embed_def split: list.splits regex.splits)

lemma lazify_groups: "lazify st = Inr st' \<Longrightarrow> p_groups st' = p_groups st"
  by (auto simp: lazify_def split: list.splits regex.splits)

lemma close_group_embed: "close_group st = Inr st' \<Longrightarrow> close_group (embed K g st) = Inr (embed K g st')"
  by (auto simp: close_group_def embed_def push_term_def split: list.splits group_kind.splits)

lemma close_group_groups: "close_group st = Inr st' \<Longrightarrow> p_groups st' = p_groups st"
  by (auto simp: close_group_def split: list.splits)

lemmas partial_ops_embed = quantify_embed lazify_embed close_group_embed
lemmas partial_ops_groups = quantify_groups lazify_groups close_group_groups

lemma normal_step_embed:
  "normal_step st c = Inr st' \<Longrightarrow> normal_step (embed K g st) c = Inr (embed K g st')"
  by (auto simp: normal_step_def embed_ops partial_ops_embed split: if_splits)

lemma normal_step_groups: "normal_step st c = Inr st' \<Longrightarrow> p_groups st' = p_groups st"
  by (auto simp: normal_step_def dest: partial_ops_groups split: if_splits)

lemma keep_class_embed: "keep_class st b = Inr st' \<Longrightarrow> keep_class (embed K g st) b = Inr (embed K g st')"
  by (auto simp: keep_class_def embed_ops split: sum.splits)

lemma keep_class_groups: "keep_class st b = Inr st' \<Longrightarrow> p_groups st' = p_groups st"
  by (auto simp: keep_class_def split: sum.splits)

lemma class_step_embed: "class_step st b c = Inr st' \<Longrightarrow> class_step (embed K g st) b c = Inr (embed K g st')"
  by (auto simp: class_step_def embed_ops keep_class_embed split: if_splits)

lemma class_step_groups: "class_step st b c = Inr st' \<Longrightarrow> p_groups st' = p_groups st"
  by (auto simp: class_step_def dest: keep_class_groups split: if_splits)

lemmas step_defs = step_def escape_step_def class_esc_step_def class_brack_step_def brace_step_def
  brace2_step_def

lemma step_embed:
  assumes "step st c = Inr st'" "p_groups st' = p_groups st"
  shows "step (embed K g st) c = Inr (embed K g st')"
proof (cases "p_mode st")
  case MNormal
  with assms(1) show ?thesis by (simp add: step_def normal_step_embed)
next
  case MOpen
  have "normal_step (open_capture st) c \<noteq> Inr st'"
    using normal_step_groups [of "open_capture st" c st'] assms(2) by auto
  with MOpen assms(1) show ?thesis by (auto simp: step_def embed_ops split: if_splits)
next
  case MOpenQ
  with assms(1) show ?thesis by (auto simp: step_def embed_ops split: if_splits)
next
  case MClass0
  with assms(1) show ?thesis by (auto simp: step_def embed_ops class_step_embed split: if_splits)
next
  case (MClass b)
  with assms(1) show ?thesis by (simp add: step_def class_step_embed)
next
  case (MClassBrack b)
  with assms(1) show ?thesis
    by (auto simp: step_defs class_step_embed simp del: set_simps split: sum.splits if_split_asm)
qed (use assms(1) in \<open>auto simp: step_defs embed_ops keep_class_embed quantify_embed
      split: if_splits option.splits sum.splits\<close>)

lemma step_groups_mono: "step st c = Inr st' \<Longrightarrow> p_groups st \<le> p_groups st'"
  by (cases "p_mode st") (auto simp: step_defs simp del: set_simps split: if_splits option.splits sum.splits
      dest: normal_step_groups keep_class_groups class_step_groups quantify_groups)

lemma run_groups_mono: "run st cs = Inr st' \<Longrightarrow> p_groups st \<le> p_groups st'"
proof (induction cs arbitrary: st)
  case Nil
  then show ?case by simp
next
  case (Cons c cs)
  then obtain st1 where "step st c = Inr st1" "run st1 cs = Inr st'" by (auto split: sum.splits)
  with Cons.IH [of st1] step_groups_mono [of st c st1] show ?case by simp
qed

lemma run_embed:
  "run st cs = Inr st' \<Longrightarrow> p_groups st' = p_groups st \<Longrightarrow> run (embed K g st) cs = Inr (embed K g st')"
proof (induction cs arbitrary: st)
  case Nil
  then show ?case by simp
next
  case (Cons c cs)
  then obtain st1 where st1: "step st c = Inr st1" "run st1 cs = Inr st'" by (auto split: sum.splits)
  then have "p_groups st1 = p_groups st"
    using step_groups_mono run_groups_mono Cons.prems(2) by (metis le_antisym)
  with Cons st1 show ?case by (simp add: step_embed)
qed

section \<open>Literal text\<close>

text \<open>The characters with a meaning of their own outside brackets.\<close>

definition rx_special :: "char \<Rightarrow> bool" where
  "rx_special c \<longleftrightarrow> c \<in> set ''^$.()[|*+?{'' \<or> c = CHR 0x5C"

lemma step_literal:
  "p_mode st = MNormal \<Longrightarrow> \<not> rx_special c \<Longrightarrow> step st c = Inr (push_term (RCh c) QAtom st)"
  by (auto simp: step_def normal_step_def rx_special_def)

text \<open>Escaped punctuation stands for itself.\<close>

lemma char_class_alnum: "\<not> isalnum c \<Longrightarrow> char_class c = None"
proof -
  assume c: "\<not> isalnum c"
  have "list_all isalnum ''dDwWsS''" by code_simp
  with c have "c \<notin> set ''dDwWsS''" by (auto simp only: list_all_iff)
  then show ?thesis by (simp add: char_class_def)
qed

lemma escaped_char_punct: "\<not> isalnum c \<Longrightarrow> escaped_char c = Inr c"
proof -
  assume c: "\<not> isalnum c"
  have "list_all isalnum ''fnrtv0bBcxu''" by code_simp
  with c have "c \<notin> set ''fnrtv0bBcxu''" by (auto simp only: list_all_iff)
  moreover from c have "\<not> isdigit c" by (simp add: isalnum_def)
  ultimately show ?thesis by (simp add: escaped_char_def)
qed

lemma run_escaped:
  assumes "p_mode st = MNormal" "\<not> isalnum c"
  shows "run st [CHR 0x5C, c] = Inr (push_term (RCh c) QAtom st)"
  using assms
  by (simp add: step_def normal_step_def escape_step_def set_mode_def push_term_def
      char_class_alnum escaped_char_punct)

lemma push_term_mode [simp]: "p_mode (push_term r q st) = MNormal"
  by (simp add: push_term_def)

section \<open>Texts that add terms to the current alternative\<close>

text \<open>
  \<open>advance ts n st st'\<close>: from \<open>st\<close>, the terms \<open>ts\<close> have been added and \<open>n\<close> captures opened
  and closed. \<open>reads text ts n\<close>: reading \<open>text\<close> does that from any state between two terms;
  \<open>ts\<close> may depend on the number of captures before.
\<close>

definition advance :: "regex list \<Rightarrow> nat \<Rightarrow> pstate \<Rightarrow> pstate \<Rightarrow> bool" where
  "advance ts n st st' \<longleftrightarrow>
    p_mode st' = MNormal \<and> p_stack st' = p_stack st \<and> p_groups st' = p_groups st + n \<and>
    p_frame st' = (p_frame st)\<lparr>f_terms := rev ts @ f_terms (p_frame st)\<rparr>"

definition reads :: "string \<Rightarrow> (nat \<Rightarrow> regex list) \<Rightarrow> nat \<Rightarrow> bool" where
  "reads text ts n \<longleftrightarrow>
    (\<forall>st. p_mode st = MNormal \<longrightarrow> (\<exists>st'. run st text = Inr st' \<and> advance (ts (p_groups st)) n st st'))"

lemma readsI:
  "(\<And>st. p_mode st = MNormal \<Longrightarrow> \<exists>st'. run st text = Inr st' \<and> advance (ts (p_groups st)) n st st')
    \<Longrightarrow> reads text ts n"
  by (simp add: reads_def)

lemma readsE:
  assumes "reads text ts n" "p_mode st = MNormal"
  obtains st' where "run st text = Inr st'" "advance (ts (p_groups st)) n st st'"
  using assms by (auto simp: reads_def)

lemma advance_mode: "advance ts n st st' \<Longrightarrow> p_mode st' = MNormal"
  by (simp add: advance_def)

lemma advance_trans: "advance ts n st st1 \<Longrightarrow> advance us k st1 st2 \<Longrightarrow> advance (ts @ us) (n + k) st st2"
  by (simp add: advance_def)

lemma advance_push: "advance [r] 0 st (push_term r q st)"
  by (simp add: advance_def push_term_def)

lemma reads_Nil: "reads [] (\<lambda>g. []) 0"
  by (rule readsI) (simp add: advance_def)

lemma reads_append:
  assumes "reads a ts n" "reads b us k"
  shows "reads (a @ b) (\<lambda>g. ts g @ us (g + n)) (n + k)"
proof (rule readsI)
  fix st :: pstate
  assume "p_mode st = MNormal"
  with assms(1) obtain st1 where st1: "run st a = Inr st1" "advance (ts (p_groups st)) n st st1"
    by (rule readsE)
  from assms(2) advance_mode [OF st1(2)] obtain st2
    where st2: "run st1 b = Inr st2" "advance (us (p_groups st1)) k st1 st2"
    by (rule readsE)
  moreover have "p_groups st1 = p_groups st + n" using st1(2) by (simp add: advance_def)
  ultimately show "\<exists>st'. run st (a @ b) = Inr st' \<and>
      advance (ts (p_groups st) @ us (p_groups st + n)) (n + k) st st'"
    using st1 advance_trans [OF st1(2) st2(2)] by (auto simp: run_append_Inr)
qed

lemma reads_literal: "\<not> rx_special c \<Longrightarrow> reads [c] (\<lambda>g. [RCh c]) 0"
  by (rule readsI) (simp add: step_literal advance_push)

lemma reads_escaped: "\<not> isalnum c \<Longrightarrow> reads [CHR 0x5C, c] (\<lambda>g. [RCh c]) 0"
  by (rule readsI) (use advance_push run_escaped in blast)

lemma close_frame_single: "close_frame (empty_frame\<lparr>f_terms := rev ts\<rparr>) = seq_of ts"
  by (simp add: close_frame_def empty_frame_def)

text \<open>
  \<open>atomic text r n\<close>: the text adds exactly one term, to which a quantifier may be applied.
\<close>

definition atomic :: "string \<Rightarrow> (nat \<Rightarrow> regex) \<Rightarrow> nat \<Rightarrow> bool" where
  "atomic text r n \<longleftrightarrow>
    (\<forall>st. p_mode st = MNormal \<longrightarrow>
      (\<exists>st'. run st text = Inr st' \<and> advance [r (p_groups st)] n st st' \<and> p_quant st' = QAtom))"

lemma atomicI:
  "(\<And>st. p_mode st = MNormal \<Longrightarrow>
      \<exists>st'. run st text = Inr st' \<and> advance [r (p_groups st)] n st st' \<and> p_quant st' = QAtom)
    \<Longrightarrow> atomic text r n"
  by (simp add: atomic_def)

lemma atomicE:
  assumes "atomic text r n" "p_mode st = MNormal"
  obtains st' where "run st text = Inr st'" "advance [r (p_groups st)] n st st'" "p_quant st' = QAtom"
  using assms by (auto simp: atomic_def)

lemma reads_atomic: "atomic text r n \<Longrightarrow> reads text (\<lambda>g. [r g]) n"
  by (auto simp: reads_def atomic_def)

lemma quantify_advance:
  assumes "advance [t] n st st1" "p_quant st1 = QAtom" "hi = None \<or> hi = Some 1" "lo = 0 \<or> (lo = 1 \<and> hi = None)"
  shows "\<exists>st2. quantify lo hi st1 = Inr st2 \<and> advance [RRep t lo hi True] n st st2 \<and> p_quant st2 = QGreedy"
  using assms by (auto simp: quantify_def advance_def)

lemma reads_star:
  assumes "atomic text r n"
  shows "reads (text @ ''*'') (\<lambda>g. [RRep (r g) 0 None True]) n"
proof (rule readsI)
  fix st :: pstate
  assume "p_mode st = MNormal"
  with assms obtain st1 where st1: "run st text = Inr st1" "advance [r (p_groups st)] n st st1" "p_quant st1 = QAtom"
    by (rule atomicE)
  from quantify_advance [OF st1(2,3), of None 0] advance_mode [OF st1(2)] st1(1)
  show "\<exists>st'. run st (text @ ''*'') = Inr st' \<and> advance [RRep (r (p_groups st)) 0 None True] n st st'"
    by (auto simp: run_append_Inr step_def normal_step_def)
qed

lemma reads_opt:
  assumes "atomic text r n"
  shows "reads (text @ ''?'') (\<lambda>g. [RRep (r g) 0 (Some 1) True]) n"
proof (rule readsI)
  fix st :: pstate
  assume "p_mode st = MNormal"
  with assms obtain st1 where st1: "run st text = Inr st1" "advance [r (p_groups st)] n st st1" "p_quant st1 = QAtom"
    by (rule atomicE)
  from quantify_advance [OF st1(2,3), of "Some 1" 0] advance_mode [OF st1(2)] st1(1,3)
  show "\<exists>st'. run st (text @ ''?'') = Inr st' \<and> advance [RRep (r (p_groups st)) 0 (Some 1) True] n st st'"
    by (auto simp: run_append_Inr step_def normal_step_def)
qed

text \<open>A group: the text between its parentheses is read in a fresh frame.\<close>

abbreviation kind_quant :: "group_kind \<Rightarrow> quant" where
  "kind_quant k \<equiv> (case k of KLook neg \<Rightarrow> QNone | _ \<Rightarrow> QAtom)"

lemma run_close:
  assumes "p_mode st = MNormal" "p_stack st = (k, outer) # stack"
  shows "run st '')'' = Inr (push_term (wrap k (close_frame (p_frame st))) (kind_quant k)
           (st\<lparr>p_frame := outer, p_stack := stack\<rparr>))"
  using assms by (simp add: step_def normal_step_def close_group_def)

lemma run_group_body:
  assumes "reads body ts n" "p_mode st = MNormal"
  shows "\<exists>st'. run (open_group k st) (body @ '')'') = Inr st' \<and>
           advance [wrap k (seq_of (ts (p_groups st)))] n st st' \<and> p_quant st' = kind_quant k"
proof -
  have "p_mode (open_group k st) = MNormal" by (simp add: open_group_def)
  with assms(1) obtain st1 where st1: "run (open_group k st) body = Inr st1"
    "advance (ts (p_groups (open_group k st))) n (open_group k st) st1"
    by (rule readsE)
  then have stack: "p_stack st1 = (k, p_frame st) # p_stack st"
    and frame: "p_frame st1 = empty_frame\<lparr>f_terms := rev (ts (p_groups st))\<rparr>"
    and groups: "p_groups st1 = p_groups st + n"
    by (simp_all add: advance_def open_group_def empty_frame_def)
  define st2 where "st2 = push_term (wrap k (seq_of (ts (p_groups st)))) (kind_quant k)
      (st1\<lparr>p_frame := p_frame st, p_stack := p_stack st\<rparr>)"
  have "run (open_group k st) (body @ '')'') = Inr st2"
    using run_close [OF advance_mode [OF st1(2)] stack]
    by (simp only: run_append_Inr [OF st1(1)] frame close_frame_single st2_def)
  moreover have "advance [wrap k (seq_of (ts (p_groups st)))] n st st2" "p_quant st2 = kind_quant k"
    using groups by (simp_all add: st2_def advance_def push_term_def)
  ultimately show ?thesis by blast
qed

lemma atomic_group:
  assumes "reads body ts n"
  shows "atomic (''(?:'' @ body @ '')'') (\<lambda>g. seq_of (ts g)) n"
proof (rule atomicI)
  fix st :: pstate
  assume st: "p_mode st = MNormal"
  then have "run st (''(?:'' @ body @ '')'') = run (open_group KNon st) (body @ '')'')"
    by (simp add: step_def normal_step_def set_mode_def open_group_def)
  with run_group_body [OF assms st, of KNon]
  show "\<exists>st'. run st (''(?:'' @ body @ '')'') = Inr st' \<and> advance [seq_of (ts (p_groups st))] n st st'
      \<and> p_quant st' = QAtom"
    by (simp add: wrap_def)
qed

lemma run_open_capture:
  "p_mode st = MNormal \<Longrightarrow> c \<noteq> CHR ''?'' \<Longrightarrow> run st (CHR ''('' # c # cs) = run (open_capture st) (c # cs)"
  by (simp add: step_def normal_step_def set_mode_def open_capture_def open_group_def)

lemma atomic_capture:
  assumes "reads (c # body) ts n" "c \<noteq> CHR ''?''"
  shows "atomic (''('' @ (c # body) @ '')'') (\<lambda>g. RGroup (Suc g) (seq_of (ts (Suc g)))) (Suc n)"
proof (rule atomicI)
  fix st :: pstate
  assume st: "p_mode st = MNormal"
  let ?st = "st\<lparr>p_groups := Suc (p_groups st)\<rparr>"
  have "run st (''('' @ (c # body) @ '')'') = run (open_group (KCap (Suc (p_groups st))) ?st) ((c # body) @ '')'')"
    using run_open_capture [OF st assms(2), of "body @ '')''"] by (simp add: open_capture_def)
  moreover obtain st' where "run (open_group (KCap (Suc (p_groups st))) ?st) ((c # body) @ '')'') = Inr st'"
    "advance [wrap (KCap (Suc (p_groups st))) (seq_of (ts (p_groups ?st)))] n ?st st'" "p_quant st' = QAtom"
    using run_group_body [OF assms(1), of ?st "KCap (Suc (p_groups st))"] st by auto
  ultimately show "\<exists>st'. run st (''('' @ (c # body) @ '')'') = Inr st' \<and>
      advance [RGroup (Suc (p_groups st)) (seq_of (ts (Suc (p_groups st))))] (Suc n) st st' \<and>
      p_quant st' = QAtom"
    by (auto simp: advance_def wrap_def)
qed

text \<open>A whole pattern that compiles on its own and opens no capture, put between parentheses.\<close>

definition closed_pattern :: "string \<Rightarrow> bool" where
  "closed_pattern p \<longleftrightarrow>
    (case run init_state p of
       Inl e \<Rightarrow> False
     | Inr st \<Rightarrow> p_mode st = MNormal \<and> p_stack st = [] \<and> p_groups st = 0)"

definition pattern_ast :: "string \<Rightarrow> regex" where
  "pattern_ast p = (case regex_compile p of Inl e \<Rightarrow> REmpty | Inr r \<Rightarrow> r)"

lemma atomic_pattern:
  assumes "closed_pattern p"
  shows "atomic (''(?:'' @ p @ '')'') (\<lambda>g. pattern_ast p) 0"
proof (rule atomicI)
  fix st :: pstate
  assume st: "p_mode st = MNormal"
  let ?K = "(KNon, p_frame st) # p_stack st"
  from assms obtain stp where stp: "run init_state p = Inr stp" "p_mode stp = MNormal" "p_stack stp = []"
    "p_groups stp = 0"
    by (auto simp: closed_pattern_def split: sum.splits)
  have "open_group KNon st = embed ?K (p_groups st) init_state"
    by (simp add: open_group_def embed_def init_state_def)
  then have "run (open_group KNon st) p = Inr (embed ?K (p_groups st) stp)"
    using run_embed [OF stp(1), of ?K "p_groups st"] stp(4) by (simp add: init_state_def)
  moreover have "run (embed ?K (p_groups st) stp) '')'' =
      Inr (push_term (close_frame (p_frame stp)) QAtom (st\<lparr>p_quant := p_quant stp\<rparr>))"
    using run_close [of "embed ?K (p_groups st) stp"] stp st
    by (simp add: wrap_def embed_def push_term_def)
  moreover have "run st (''(?:'' @ p @ '')'') = run (open_group KNon st) (p @ '')'')"
    using st by (simp add: step_def normal_step_def set_mode_def open_group_def)
  moreover have "pattern_ast p = close_frame (p_frame stp)"
    using stp by (simp add: pattern_ast_def regex_compile_def finish_def)
  ultimately show "\<exists>st'. run st (''(?:'' @ p @ '')'') = Inr st' \<and> advance [pattern_ast p] 0 st st' \<and>
      p_quant st' = QAtom"
    by (auto simp: run_append_Inr advance_def push_term_def)
qed

text \<open>A text read from the initial state is a whole regular expression.\<close>

lemma compile_reads:
  assumes "reads text ts n"
  shows "regex_compile text = Inr (seq_of (ts 0))"
proof -
  have "p_mode init_state = MNormal" by (simp add: init_state_def)
  with assms obtain st where "run init_state text = Inr st"
    "advance (ts (p_groups init_state)) n init_state st"
    by (rule readsE)
  then show ?thesis
    by (simp add: regex_compile_def finish_def advance_def init_state_def empty_frame_def close_frame_def)
qed

end
