(* ===== verification/Path_Compiler.thy ===== *)
theory Path_Compiler
  imports Regex_Syntax
begin

text \<open>
  \<open>path_compiler.hh\<close> and \<open>path_compiler.cc\<close>: a route mask is cut into tokens
  (\<open>parse_matcher\<close>, itself written with a regular expression), the tokens are printed as one
  regular expression (\<open>description::make\<close>), and the matcher compiled from it binds the keys to
  the captured texts (\<open>matcher::matches\<close>). The regular expression of \<open>parse_matcher\<close> is compiled
  from the literal of the source by \<open>regex_compile\<close>.
\<close>

section \<open>Flags\<close>

definition KEY_IS_STRING :: u32 where "KEY_IS_STRING = 0x0001"
definition KEY_ASTERISK :: u32 where "KEY_ASTERISK = 0x0004"
definition KEY_OPTIONAL :: u32 where "KEY_OPTIONAL = 0x0008"
definition KEY_REPEAT :: u32 where "KEY_REPEAT = 0x0010"
definition KEY_PARTIAL :: u32 where "KEY_PARTIAL = 0x0020"

definition STRICT :: u32 where "STRICT = 0x0001"
definition END :: u32 where "END = 0x0002"
definition SENSITIVE :: u32 where "SENSITIVE = 0x0004"
definition OPTIMIZE :: u32 where "OPTIMIZE = 0x0008"
definition TAKE_REST :: u32 where "TAKE_REST = 0x0010"
definition DEFAULT :: u32 where "DEFAULT = END OR SENSITIVE OR OPTIMIZE"

lemmas key_flag_defs = KEY_IS_STRING_def KEY_ASTERISK_def KEY_OPTIONAL_def KEY_REPEAT_def
  KEY_PARTIAL_def
lemmas compile_flag_defs = STRICT_def END_def SENSITIVE_def OPTIMIZE_def TAKE_REST_def DEFAULT_def

section \<open>Keys\<close>

datatype key_value = Index nat | Name string

text \<open>The order of \<open>std::variant\<close>: by alternative, then by value; \<open>std::map\<close> sorts by it.\<close>

instantiation key_value :: linorder
begin

fun less_eq_key_value :: "key_value \<Rightarrow> key_value \<Rightarrow> bool" where
  "Index i \<le> Index j \<longleftrightarrow> i \<le> j"
| "Index i \<le> Name t \<longleftrightarrow> True"
| "Name s \<le> Index j \<longleftrightarrow> False"
| "Name s \<le> Name t \<longleftrightarrow> s \<le> t"

definition less_key_value :: "key_value \<Rightarrow> key_value \<Rightarrow> bool" where
  "less_key_value x y \<longleftrightarrow> x \<le> y \<and> \<not> y \<le> (x :: key_value)"

instance
proof
  fix x y z :: key_value
  show "x < y \<longleftrightarrow> x \<le> y \<and> \<not> y \<le> x" by (rule less_key_value_def)
  show "x \<le> x" by (cases x) simp_all
  show "x \<le> y \<Longrightarrow> y \<le> z \<Longrightarrow> x \<le> z" by (cases x; cases y; cases z) auto
  show "x \<le> y \<Longrightarrow> y \<le> x \<Longrightarrow> x = y" by (cases x; cases y) auto
  show "x \<le> y \<or> y \<le> x" by (cases x; cases y) auto
qed

end

record key =
  k_flags :: u32
  k_value :: key_value
  k_prefix :: string
  k_delimiter :: string
  k_pattern :: string

definition as_string :: "string \<Rightarrow> key" where
  "as_string v = \<lparr>k_flags = KEY_IS_STRING, k_value = Name v, k_prefix = [], k_delimiter = [],
     k_pattern = []\<rparr>"

definition key_make :: "key_value \<Rightarrow> string \<Rightarrow> string \<Rightarrow> string \<Rightarrow> key" where
  "key_make v pfx delimiter pattern =
     \<lparr>k_flags = 0, k_value = v, k_prefix = pfx, k_delimiter = delimiter, k_pattern = pattern\<rparr>"

definition key_has_flag :: "key \<Rightarrow> u32 \<Rightarrow> bool" where
  "key_has_flag k flag = has_flag (k_flags k) flag"

definition set_flags :: "bool \<Rightarrow> bool \<Rightarrow> bool \<Rightarrow> bool \<Rightarrow> key \<Rightarrow> key" where
  "set_flags asterisk optional repeat partial k =
    (let f0 = k_flags k;
         f1 = (if asterisk then f0 OR KEY_ASTERISK else f0);
         f2 = (if optional then f1 OR KEY_OPTIONAL else f1);
         f3 = (if repeat then f2 OR KEY_REPEAT else f2);
         f4 = (if partial then f3 OR KEY_PARTIAL else f3)
     in k\<lparr>k_flags := f4\<rparr>)"

section \<open>Escaping\<close>

definition is_string :: "char \<Rightarrow> bool" where
  "is_string c \<longleftrightarrow> c \<in> set ''.+*?=^!${}()[]:|/'' \<or> c = CHR 0x5C"

definition is_group :: "char \<Rightarrow> bool" where
  "is_group c \<longleftrightarrow> c \<in> set ''=!:$/()''"

fun escape :: "(char \<Rightarrow> bool) \<Rightarrow> string \<Rightarrow> string" where
  "escape checker [] = []"
| "escape checker (c # cs) = (if checker c then CHR 0x5C # c # escape checker cs else c # escape checker cs)"

definition escape_string :: "string \<Rightarrow> string" where
  "escape_string s = escape is_string s"

definition escape_group :: "string \<Rightarrow> string" where
  "escape_group s = escape is_group s"

section \<open>parse_matcher\<close>

text \<open>Isabelle's string literals have no backslash: \<open>raw\<close> writes \<open>~\<close> for it.\<close>

definition raw :: "string \<Rightarrow> string" where
  "raw s = map (\<lambda>c. if c = CHR ''~'' then CHR 0x5C else c) s"

definition path_regex_text :: string where
  "path_regex_text = raw
    (''(~~.)|''
     @ ''([~/.])?(?:(?:~:(~w+)(?:~(((?:~~.|[^~~()])+)~))?|~(((?:~~.|[^~~()])+)~))([+*?])?|(~*))'')"

definition path_regex :: regex where
  "path_regex = (case regex_compile path_regex_text of Inr r \<Rightarrow> r | Inl e \<Rightarrow> REmpty)"

record parse_state =
  ps_out :: "key list"
  ps_path :: string
  ps_key :: size_t
  ps_index :: size_t

text \<open>\<open>std::string{1, mask[index]}\<close> picks the initializer list: the two characters 1 and \<open>mask[index]\<close>.\<close>

definition next_text :: "string \<Rightarrow> nat \<Rightarrow> string" where
  "next_text msk index = (if index < length msk then [CHR 0x01, msk ! index] else [])"

definition push_path :: "parse_state \<Rightarrow> parse_state" where
  "push_path st = (if ps_path st \<noteq> [] then st\<lparr>ps_out := ps_out st @ [as_string (ps_path st)], ps_path := []\<rparr>
                   else st)"

definition make_pattern :: "string \<Rightarrow> string \<Rightarrow> bool \<Rightarrow> string \<Rightarrow> string" where
  "make_pattern capture grp asterisk delimiter =
    (let pattern = (if capture = [] then grp else capture)
     in if pattern \<noteq> [] then escape_group pattern
        else if asterisk then ''.*''
        else ''[^'' @ escape_string delimiter @ '']+?'')"

text \<open>One turn of the loop: the match started at \<open>fst res\<close>, ended at \<open>fst (snd res)\<close>.\<close>

definition parse_match :: "string \<Rightarrow> parse_state \<Rightarrow> nat \<times> mstate \<Rightarrow> parse_state" where
  "parse_match msk st0 res =
    (let offset = fst res;
         text = group_text msk (snd (snd res));
         st = st0\<lparr>ps_path := ps_path st0 @ take (offset - ps_index st0) (drop (ps_index st0) msk),
                  ps_index := fst (snd res)\<rparr>;
         escaped = text 1
     in if escaped \<noteq> [] then st\<lparr>ps_path := ps_path st @ [escaped ! 1]\<rparr>
        else
          let next_ch = next_text msk (ps_index st);
              pfx = text 2; name = text 3; capture = text 4; grp = text 5; modifier = text 6;
              asterisk = (text 7 = ''*'');
              st = push_path st;
              partial = (pfx \<noteq> [] \<and> next_ch \<noteq> [] \<and> next_ch \<noteq> pfx);
              repeat = (modifier = ''+'' \<or> modifier = ''*'');
              optional = (modifier = ''?'' \<or> modifier = ''*'');
              delimiter = (if pfx = [] then ''/'' else pfx);
              pattern = make_pattern capture grp asterisk delimiter
          in if name = []
             then st\<lparr>ps_key := Suc (ps_key st),
                     ps_out := ps_out st @ [set_flags asterisk optional repeat partial
                       (key_make (Index (ps_key st)) pfx delimiter pattern)]\<rparr>
             else st\<lparr>ps_out := ps_out st @ [set_flags asterisk optional repeat partial
                       (key_make (Name name) pfx delimiter pattern)]\<rparr>)"

definition parse_init :: parse_state where
  "parse_init = \<lparr>ps_out = [], ps_path = [], ps_key = 0, ps_index = 0\<rparr>"

definition parse_matcher :: "string \<Rightarrow> key list" where
  "parse_matcher msk =
    (let st = foldl (parse_match msk) parse_init (regex_iterate False path_regex msk 0);
         st = (if ps_index st < length msk
               then st\<lparr>ps_path := ps_path st @ drop (ps_index st) msk\<rparr> else st)
     in ps_out (push_path st))"

section \<open>description::make\<close>

record description =
  d_route :: string
  d_keys :: "key list"

definition token_text :: "key \<Rightarrow> exn + string" where
  "token_text k = (case k_value k of Name s \<Rightarrow> Inr s | Index i \<Rightarrow> Inl Bad_variant_access)"

definition ends_with_slash :: "key list \<Rightarrow> bool" where
  "ends_with_slash tokens \<longleftrightarrow>
    tokens \<noteq> [] \<and> key_has_flag (last tokens) KEY_IS_STRING \<and>
    (case k_value (last tokens) of Name s \<Rightarrow> s \<noteq> [] \<and> last s = CHR ''/'' | Index i \<Rightarrow> False)"

definition rest_token :: "key list \<Rightarrow> u32 \<Rightarrow> key option" where
  "rest_token tokens options =
    (if tokens = [] \<or> key_has_flag (last tokens) KEY_IS_STRING then None
     else if \<not> has_flag options TAKE_REST \<or> ends_with_slash tokens then None
     else Some (last tokens))"

definition token_capture :: "key \<Rightarrow> string" where
  "token_capture token =
    (let pfx = escape_string (k_prefix token);
         capture = ''(?:'' @ k_pattern token @ '')'';
         capture = (if key_has_flag token KEY_REPEAT
                    then capture @ ''(?:'' @ pfx @ capture @ '')*'' else capture)
     in if key_has_flag token KEY_OPTIONAL then
          (if key_has_flag token KEY_PARTIAL then pfx @ ''('' @ capture @ '')?''
           else ''(?:'' @ pfx @ ''('' @ capture @ ''))?'')
        else pfx @ ''('' @ capture @ '')'')"

fun make_loop :: "key list \<Rightarrow> description \<Rightarrow> exn + description" where
  "make_loop [] d = Inr d"
| "make_loop (token # tokens) d =
    (if key_has_flag token KEY_IS_STRING then
       (case token_text token of
          Inl e \<Rightarrow> Inl e
        | Inr text \<Rightarrow> make_loop tokens (d\<lparr>d_route := d_route d @ escape_string text\<rparr>))
     else make_loop tokens (d\<lparr>d_route := d_route d @ token_capture token, d_keys := d_keys d @ [token]\<rparr>))"

definition make_tail :: "bool \<Rightarrow> bool \<Rightarrow> bool \<Rightarrow> string \<Rightarrow> string" where
  "make_tail strict at_end slash route =
    (let route = (if \<not> strict
                  then (if slash then butlast (butlast route) else route) @ raw ''(?:~/(?=$))?''
                  else route)
     in if at_end then route @ ''$''
        else if \<not> strict \<or> \<not> slash then route @ raw ''(?=~/|$)''
        else route)"

definition description_make :: "key list \<Rightarrow> u32 \<Rightarrow> exn + description" where
  "description_make tokens options =
    (let strict = has_flag options STRICT;
         at_end = has_flag options END;
         rest = rest_token tokens options
     in case make_loop (if rest = None then tokens else butlast tokens) \<lparr>d_route = [], d_keys = []\<rparr> of
          Inl e \<Rightarrow> Inl e
        | Inr d \<Rightarrow>
            (case rest of
               Some r \<Rightarrow> Inr \<lparr>d_route = ''^'' @ d_route d @ escape_string (k_prefix r) @ ''(.*)'',
                              d_keys = d_keys d @ [r]\<rparr>
             | None \<Rightarrow> Inr \<lparr>d_route = ''^'' @ make_tail strict at_end (ends_with_slash tokens) (d_route d),
                            d_keys = d_keys d\<rparr>))"

definition description_of_mask :: "string \<Rightarrow> u32 \<Rightarrow> exn + description" where
  "description_of_mask msk options = description_make (parse_matcher msk) options"

section \<open>matcher\<close>

record matcher =
  m_regex :: regex
  m_icase :: bool
  m_keys :: "key list"

type_synonym params_type = "key_value \<Rightarrow> string option"

definition matcher_make :: "description \<Rightarrow> u32 \<Rightarrow> exn + matcher" where
  "matcher_make tokens options =
    (case regex_compile (d_route tokens) of
       Inl e \<Rightarrow> Inl Regex_error
     | Inr r \<Rightarrow> Inr \<lparr>m_regex = r, m_icase = \<not> has_flag options SENSITIVE, m_keys = d_keys tokens\<rparr>)"

definition matcher_of_mask :: "string \<Rightarrow> u32 \<Rightarrow> exn + matcher" where
  "matcher_of_mask msk options =
    (case description_of_mask msk options of
       Inl e \<Rightarrow> Inl e | Inr d \<Rightarrow> matcher_make d options)"

fun bind_keys :: "string \<Rightarrow> caps \<Rightarrow> nat \<Rightarrow> key list \<Rightarrow> params_type \<Rightarrow> params_type" where
  "bind_keys route match i [] params = params"
| "bind_keys route match i (k # ks) params =
     bind_keys route match (Suc i) ks (params(k_value k \<mapsto> group_text route match (Suc i)))"

definition matches :: "matcher \<Rightarrow> string \<Rightarrow> params_type \<Rightarrow> bool \<times> params_type" where
  "matches m route params =
    (case regex_match (m_icase m) (m_regex m) route of
       None \<Rightarrow> (False, params)
     | Some match \<Rightarrow> (True, bind_keys route match 0 (m_keys m) Map.empty))"

end
