(* ===== verification/Path_Syntax.thy ===== *)
theory Path_Syntax
  imports Path_Compiler
begin

text \<open>
  What the regular expression printed by \<open>description::make\<close> is read back as. A token is read
  as literal characters or as a capture around the pattern of its key (\<open>token_terms\<close>), a route
  as the terms of its tokens between the anchors (\<open>route_terms\<close>); \<open>matcher_make_route\<close> puts
  them together. A key's own pattern is taken as it is, provided it is a regular expression
  that opens no capture (\<open>closed_pattern\<close>).
\<close>

section \<open>Escaped text\<close>

lemma is_string_punct: "is_string c \<Longrightarrow> \<not> isalnum c"
proof -
  assume c: "is_string c"
  have "list_all (\<lambda>c. \<not> isalnum c) ''.+*?=^!${}()[]:|/''" "\<not> isalnum (CHR 0x5C)" by code_simp+
  moreover from c consider "c \<in> set ''.+*?=^!${}()[]:|/''" | "c = CHR 0x5C" unfolding is_string_def by blast
  ultimately show "\<not> isalnum c" by cases (simp_all only: list_all_iff, blast)
qed

lemma is_string_special: "rx_special c \<Longrightarrow> is_string c"
  by (auto simp: rx_special_def is_string_def)

lemma escape_string_Nil [simp]: "escape_string [] = []"
  by (simp add: escape_string_def)

lemma escape_string_Cons:
  "escape_string (c # cs) = (if is_string c then [CHR 0x5C, c] else [c]) @ escape_string cs"
  by (simp add: escape_string_def)

lemma escape_string_append: "escape_string (a @ b) = escape_string a @ escape_string b"
  by (induction a) (simp_all add: escape_string_Cons)

lemma reads_char: "reads (if is_string c then [CHR 0x5C, c] else [c]) (\<lambda>g. [RCh c]) 0"
  using reads_escaped reads_literal is_string_punct is_string_special by simp blast

lemma reads_escape_string: "reads (escape_string s) (\<lambda>g. map RCh s) 0"
proof (induction s)
  case Nil
  then show ?case by (simp add: reads_Nil)
next
  case (Cons c cs)
  from reads_append [OF reads_char [of c] Cons.IH] show ?case by (simp add: escape_string_Cons)
qed

section \<open>Tokens\<close>

definition key_body :: "key \<Rightarrow> regex list" where
  "key_body k = pattern_ast (k_pattern k) #
     (if key_has_flag k KEY_REPEAT
      then [RRep (seq_of (map RCh (k_prefix k) @ [pattern_ast (k_pattern k)])) 0 None True] else [])"

definition key_capture :: "key \<Rightarrow> nat \<Rightarrow> regex" where
  "key_capture k g = RGroup (Suc g) (seq_of (key_body k))"

definition key_terms :: "key \<Rightarrow> nat \<Rightarrow> regex list" where
  "key_terms k g =
    (if key_has_flag k KEY_OPTIONAL then
       (if key_has_flag k KEY_PARTIAL then map RCh (k_prefix k) @ [RRep (key_capture k g) 0 (Some 1) True]
        else [RRep (seq_of (map RCh (k_prefix k) @ [key_capture k g])) 0 (Some 1) True])
     else map RCh (k_prefix k) @ [key_capture k g])"

abbreviation key_body_text :: "key \<Rightarrow> string" where
  "key_body_text k \<equiv> ''(?:'' @ k_pattern k @ '')'' @
     (if key_has_flag k KEY_REPEAT
      then ''(?:'' @ escape_string (k_prefix k) @ ''(?:'' @ k_pattern k @ '')'' @ '')*'' else [])"

lemma token_capture_text:
  "token_capture k =
    (if key_has_flag k KEY_OPTIONAL then
       (if key_has_flag k KEY_PARTIAL
        then escape_string (k_prefix k) @ (''('' @ key_body_text k @ '')'') @ ''?''
        else (''(?:'' @ (escape_string (k_prefix k) @ ''('' @ key_body_text k @ '')'') @ '')'') @ ''?'')
     else escape_string (k_prefix k) @ ''('' @ key_body_text k @ '')'')"
  by (simp add: token_capture_def Let_def)

lemma reads_key_body:
  assumes "closed_pattern (k_pattern k)"
  shows "reads (key_body_text k) (\<lambda>g. key_body k) 0"
proof -
  note pat = reads_atomic [OF atomic_pattern [OF assms]]
  show ?thesis
  proof (cases "key_has_flag k KEY_REPEAT")
    case False
    with pat show ?thesis by (simp add: key_body_def)
  next
    case True
    from reads_append [OF pat reads_star [OF atomic_group [OF reads_append
            [OF reads_escape_string [of "k_prefix k"] pat]]]]
    show ?thesis using True by (simp add: key_body_def)
  qed
qed

lemma atomic_key_capture:
  assumes "closed_pattern (k_pattern k)"
  shows "atomic (''('' @ key_body_text k @ '')'') (key_capture k) 1"
  using atomic_capture [of "CHR ''(''" "''?:'' @ k_pattern k @ '')'' @
     (if key_has_flag k KEY_REPEAT
      then ''(?:'' @ escape_string (k_prefix k) @ ''(?:'' @ k_pattern k @ '')'' @ '')*'' else [])"
      "\<lambda>g. key_body k" 0] reads_key_body [OF assms]
  by (simp add: key_capture_def [abs_def])

lemma reads_key:
  assumes "closed_pattern (k_pattern k)"
  shows "reads (token_capture k) (key_terms k) 1"
proof -
  note pfx = reads_escape_string [of "k_prefix k"]
  note cap = atomic_key_capture [OF assms]
  note required = reads_append [OF pfx reads_atomic [OF cap]]
  note partial = reads_append [OF pfx reads_opt [OF cap]]
  note optional = reads_opt [OF atomic_group [OF required]]
  show ?thesis
    using required partial optional unfolding token_capture_text key_terms_def [abs_def]
    by (simp del: append_assoc append_Cons)
qed

fun token_count :: "key list \<Rightarrow> nat" where
  "token_count [] = 0"
| "token_count (t # ts) = (if key_has_flag t KEY_IS_STRING then 0 else 1) + token_count ts"

text \<open>A token as \<open>parse_matcher\<close> makes it: a string, or a key whose pattern is closed.\<close>

definition token_ok :: "key \<Rightarrow> bool" where
  "token_ok t \<longleftrightarrow>
    (if key_has_flag t KEY_IS_STRING then (case k_value t of Name s \<Rightarrow> True | Index i \<Rightarrow> False)
     else closed_pattern (k_pattern t))"

definition text_of :: "key \<Rightarrow> string" where
  "text_of t = (case k_value t of Name s \<Rightarrow> s | Index i \<Rightarrow> [])"

definition token_terms :: "key \<Rightarrow> nat \<Rightarrow> regex list" where
  "token_terms t g = (if key_has_flag t KEY_IS_STRING then map RCh (text_of t) else key_terms t g)"

fun tokens_terms :: "key list \<Rightarrow> nat \<Rightarrow> regex list" where
  "tokens_terms [] g = []"
| "tokens_terms (t # ts) g =
     token_terms t g @ tokens_terms ts (if key_has_flag t KEY_IS_STRING then g else Suc g)"

definition token_print :: "key \<Rightarrow> string" where
  "token_print t = (if key_has_flag t KEY_IS_STRING then escape_string (text_of t) else token_capture t)"

lemma token_print_simps:
  "key_has_flag t KEY_IS_STRING \<Longrightarrow> token_print t = escape_string (text_of t)"
  "\<not> key_has_flag t KEY_IS_STRING \<Longrightarrow> token_print t = token_capture t"
  by (simp_all add: token_print_def)

lemma token_text_ok: "token_ok t \<Longrightarrow> key_has_flag t KEY_IS_STRING \<Longrightarrow> token_text t = Inr (text_of t)"
  by (auto simp: token_ok_def token_text_def text_of_def split: key_value.splits)

lemma make_loop_ok:
  "list_all token_ok tokens \<Longrightarrow>
    make_loop tokens d = Inr (d\<lparr>d_route := d_route d @ concat (map token_print tokens),
      d_keys := d_keys d @ filter (\<lambda>t. \<not> key_has_flag t KEY_IS_STRING) tokens\<rparr>)"
  by (induction tokens arbitrary: d) (simp_all add: token_print_simps token_text_ok)

lemma reads_tokens:
  "list_all token_ok tokens \<Longrightarrow>
    reads (concat (map token_print tokens)) (tokens_terms tokens) (token_count tokens)"
proof (induction tokens)
  case Nil
  then show ?case by (simp add: reads_Nil [simplified])
next
  case (Cons t ts)
  then have IH: "reads (concat (map token_print ts)) (tokens_terms ts) (token_count ts)" by simp
  show ?case
  proof (cases "key_has_flag t KEY_IS_STRING")
    case True
    with reads_append [OF reads_escape_string [of "text_of t"] IH] show ?thesis
      by (simp add: token_print_simps token_terms_def)
  next
    case False
    with Cons.prems have "closed_pattern (k_pattern t)" by (simp add: token_ok_def)
    from reads_append [OF reads_key [OF this] IH] False show ?thesis
      by (simp add: token_print_simps token_terms_def)
  qed
qed

section \<open>Anchors and look-ahead\<close>

lemma reads_bol: "reads ''^'' (\<lambda>g. [RBol]) 0"
  by (rule readsI) (simp add: step_def normal_step_def advance_push)

lemma reads_eol: "reads ''$'' (\<lambda>g. [REol]) 0"
  by (rule readsI) (simp add: step_def normal_step_def advance_push)

lemma reads_dot: "atomic ''.'' (\<lambda>g. RDot) 0"
  by (rule atomicI) (simp add: step_def normal_step_def advance_def push_term_def)

lemma reads_rest: "reads ''(.*)'' (\<lambda>g. [RGroup (Suc g) (seq_of [RRep RDot 0 None True])]) 1"
  using reads_atomic [OF atomic_capture [of "CHR ''.''" "''*''" "\<lambda>g. [RRep RDot 0 None True]" 0]]
    reads_star [OF reads_dot] by simp

lemma reads_look:
  assumes "reads body ts n"
  shows "reads (''(?='' @ body @ '')'') (\<lambda>g. [RLook False (seq_of (ts g))]) n"
proof (rule readsI)
  fix st :: pstate
  assume st: "p_mode st = MNormal"
  then have "run st (''(?='' @ body @ '')'') = run (open_group (KLook False) st) (body @ '')'')"
    by (simp add: step_def normal_step_def set_mode_def open_group_def)
  with run_group_body [OF assms st, of "KLook False"]
  show "\<exists>st'. run st (''(?='' @ body @ '')'') = Inr st' \<and>
      advance [RLook False (seq_of (ts (p_groups st)))] n st st'"
    by (auto simp: wrap_def)
qed

definition slash_or_end :: regex where
  "slash_or_end = RLook False (RAlt (seq_of [RCh (CHR ''/'')]) (seq_of [REol]))"

definition end_slash :: regex where
  "end_slash = RRep (seq_of [RCh (CHR ''/''), RLook False (seq_of [REol])]) 0 (Some 1) True"

lemma slash_punct: "\<not> isalnum (CHR ''/'')"
  by code_simp

lemma reads_end_slash: "reads (raw ''(?:~/(?=$))?'') (\<lambda>g. [end_slash]) 0"
  using reads_opt [OF atomic_group [OF reads_append [OF reads_escaped [of "CHR ''/''"] reads_look [OF reads_eol]]]]
  by (simp add: raw_def end_slash_def slash_punct)

lemma reads_slash_or_end: "reads (raw ''(?=~/|$)'') (\<lambda>g. [slash_or_end]) 0"
proof (rule readsI)
  fix st :: pstate
  assume st: "p_mode st = MNormal"
  let ?o = "open_group (KLook False) st"
  have m: "p_mode ?o = MNormal" by (simp add: open_group_def)
  have "run st (raw ''(?=~/|$)'') = run ?o (CHR 0x5C # ''/|$)'')"
    using st by (simp add: raw_def step_def normal_step_def set_mode_def open_group_def)
  also have "\<dots> = run (push_term (RCh (CHR ''/'')) QAtom ?o) ''|$)''"
    using run_append_Inr [OF run_escaped [OF m, of "CHR ''/''"], of "''|$)''"]
    by (simp add: slash_punct)
  also have "\<dots> = Inr (push_term slash_or_end QNone st)"
    using st by (simp add: step_def normal_step_def push_term_def next_alt_def open_group_def
        close_group_def close_frame_def wrap_def empty_frame_def slash_or_end_def)
  finally show "\<exists>st'. run st (raw ''(?=~/|$)'') = Inr st' \<and> advance [slash_or_end] 0 st st'"
    using advance_push by blast
qed

section \<open>Routes\<close>

definition tail_terms :: "bool \<Rightarrow> bool \<Rightarrow> bool \<Rightarrow> regex list" where
  "tail_terms strict at_end slash =
    (if strict then [] else [end_slash]) @
    (if at_end then [REol] else if strict \<and> slash then [] else [slash_or_end])"

text \<open>In non-strict mode the slash that ends the last token is taken off.\<close>

definition trim_tokens :: "bool \<Rightarrow> key list \<Rightarrow> key list" where
  "trim_tokens strict tokens =
    (if \<not> strict \<and> ends_with_slash tokens
     then butlast tokens @ [as_string (butlast (text_of (last tokens)))] else tokens)"

definition tail_text :: "bool \<Rightarrow> bool \<Rightarrow> bool \<Rightarrow> string" where
  "tail_text strict at_end slash =
    (if strict then [] else raw ''(?:~/(?=$))?'') @
    (if at_end then ''$'' else if strict \<and> slash then [] else raw ''(?=~/|$)'')"

lemma reads_tail: "reads (tail_text strict at_end slash) (\<lambda>g. tail_terms strict at_end slash) 0"
proof -
  have "reads (if strict then [] else raw ''(?:~/(?=$))?'') (\<lambda>g. if strict then [] else [end_slash]) 0"
    by (simp add: reads_Nil reads_end_slash)
  moreover have "reads (if at_end then ''$'' else if strict \<and> slash then [] else raw ''(?=~/|$)'')
      (\<lambda>g. if at_end then [REol] else if strict \<and> slash then [] else [slash_or_end]) 0"
    by (simp add: reads_Nil reads_eol reads_slash_or_end)
  ultimately show ?thesis
    using reads_append by (fastforce simp: tail_text_def tail_terms_def)
qed

lemma as_string_simps [simp]:
  "key_has_flag (as_string s) KEY_IS_STRING" "text_of (as_string s) = s" "token_ok (as_string s)"
  by (simp_all add: key_has_flag_def has_flag_def as_string_def text_of_def token_ok_def)

lemma escape_string_slash: "escape_string (s @ ''/'') = escape_string s @ [CHR 0x5C, CHR ''/'']"
  by (simp add: escape_string_append escape_string_Cons is_string_def)

lemma ends_with_slashE:
  assumes "ends_with_slash tokens"
  obtains ts t s where "tokens = ts @ [t]" "key_has_flag t KEY_IS_STRING" "k_value t = Name (s @ ''/'')"
proof -
  from assms have "tokens \<noteq> []" "key_has_flag (last tokens) KEY_IS_STRING"
    by (auto simp: ends_with_slash_def)
  moreover from assms obtain v where v: "k_value (last tokens) = Name v" "v \<noteq> []" "last v = CHR ''/''"
    by (auto simp: ends_with_slash_def split: key_value.splits)
  moreover from v have "v = butlast v @ ''/''" using append_butlast_last_id [of v] by simp
  ultimately show ?thesis
    using that [of "butlast tokens" "last tokens" "butlast v"] by simp
qed

lemma make_tail_tokens:
  "make_tail strict at_end (ends_with_slash tokens) (concat (map token_print tokens)) =
    concat (map token_print (trim_tokens strict tokens)) @ tail_text strict at_end (ends_with_slash tokens)"
proof (cases "\<not> strict \<and> ends_with_slash tokens")
  case True
  from True obtain ts t s where t: "tokens = ts @ [t]" "key_has_flag t KEY_IS_STRING"
    "k_value t = Name (s @ ''/'')"
    by (auto elim: ends_with_slashE)
  then have "text_of t = s @ ''/''" by (simp add: text_of_def)
  with t True show ?thesis
    by (simp add: make_tail_def trim_tokens_def tail_text_def token_print_simps escape_string_slash
        butlast_append)
qed (auto simp: make_tail_def trim_tokens_def tail_text_def)

lemma trim_tokens_ok: "list_all token_ok tokens \<Longrightarrow> list_all token_ok (trim_tokens strict tokens)"
  by (simp add: trim_tokens_def list_all_iff) (blast dest: in_set_butlastD)

definition route_terms :: "key list \<Rightarrow> u32 \<Rightarrow> regex list" where
  "route_terms tokens options =
    (case rest_token tokens options of
       Some r \<Rightarrow>
         [RBol] @ tokens_terms (butlast tokens) 0 @ map RCh (k_prefix r) @
         [RGroup (Suc (token_count (butlast tokens))) (seq_of [RRep RDot 0 None True])]
     | None \<Rightarrow>
         [RBol] @ tokens_terms (trim_tokens (has_flag options STRICT) tokens) 0 @
         tail_terms (has_flag options STRICT) (has_flag options END) (ends_with_slash tokens))"

definition route_keys :: "key list \<Rightarrow> key list" where
  "route_keys tokens = filter (\<lambda>t. \<not> key_has_flag t KEY_IS_STRING) tokens"

lemma rest_token_Some:
  "rest_token tokens options = Some r \<Longrightarrow>
    tokens = butlast tokens @ [r] \<and> \<not> key_has_flag r KEY_IS_STRING"
  by (auto simp: rest_token_def split: if_splits)

lemma butlast_ok: "list_all P xs \<Longrightarrow> list_all P (butlast xs)"
  by (auto simp: list_all_iff dest: in_set_butlastD)

lemma description_make_route:
  assumes "list_all token_ok tokens"
  shows "\<exists>text. description_make tokens options = Inr \<lparr>d_route = text, d_keys = route_keys tokens\<rparr> \<and>
    regex_compile text = Inr (seq_of (route_terms tokens options))"
proof (cases "rest_token tokens options")
  case None
  let ?strict = "has_flag options STRICT" and ?stop = "has_flag options END"
  from make_loop_ok [OF assms] None
  have "description_make tokens options = Inr \<lparr>d_route = ''^'' @
      concat (map token_print (trim_tokens ?strict tokens)) @ tail_text ?strict ?stop (ends_with_slash tokens),
      d_keys = route_keys tokens\<rparr>"
    by (simp add: description_make_def Let_def make_tail_tokens route_keys_def)
  moreover have "regex_compile (''^'' @ concat (map token_print (trim_tokens ?strict tokens)) @
      tail_text ?strict ?stop (ends_with_slash tokens)) = Inr (seq_of (route_terms tokens options))"
    using compile_reads [OF reads_append [OF reads_bol reads_append
          [OF reads_tokens [OF trim_tokens_ok [OF assms]] reads_tail]]] None
    by (simp add: route_terms_def)
  ultimately show ?thesis by blast
next
  case (Some r)
  note r = rest_token_Some [OF Some]
  have "route_keys tokens = route_keys (butlast tokens) @ [r]"
    using r by (metis filter.simps filter_append route_keys_def)
  with make_loop_ok [OF butlast_ok [OF assms]] Some
  have "description_make tokens options = Inr \<lparr>d_route = ''^'' @ concat (map token_print (butlast tokens)) @
      escape_string (k_prefix r) @ ''(.*)'', d_keys = route_keys tokens\<rparr>"
    by (simp add: description_make_def Let_def route_keys_def)
  moreover have "regex_compile (''^'' @ concat (map token_print (butlast tokens)) @
      escape_string (k_prefix r) @ ''(.*)'') = Inr (seq_of (route_terms tokens options))"
    using compile_reads [OF reads_append [OF reads_bol reads_append [OF reads_tokens [OF butlast_ok [OF assms]]
          reads_append [OF reads_escape_string [of "k_prefix r"] reads_rest]]]] Some
    by (simp add: route_terms_def)
  ultimately show ?thesis by blast
qed

definition route_matcher :: "key list \<Rightarrow> u32 \<Rightarrow> matcher" where
  "route_matcher tokens options =
    \<lparr>m_regex = seq_of (route_terms tokens options), m_icase = \<not> has_flag options SENSITIVE,
     m_keys = route_keys tokens\<rparr>"

lemma matcher_make_route:
  assumes "list_all token_ok tokens"
  obtains d where "description_make tokens options = Inr d"
    and "matcher_make d options = Inr (route_matcher tokens options)"
  using description_make_route [OF assms, of options] by (auto simp: matcher_make_def route_matcher_def)

lemma matcher_of_mask_route:
  assumes "list_all token_ok (parse_matcher msk)"
  shows "matcher_of_mask msk options = Inr (route_matcher (parse_matcher msk) options)"
proof -
  from matcher_make_route [OF assms] obtain d where "description_make (parse_matcher msk) options = Inr d"
    "matcher_make d options = Inr (route_matcher (parse_matcher msk) options)" .
  then show ?thesis by (simp add: matcher_of_mask_def description_of_mask_def)
qed

end
