(* ===== verification/Regex_Spans.thy ===== *)
theory Regex_Spans
  imports Regex
begin

text \<open>
  The meaning of a regular expression without backtracking: the set of spans (start, end) of the
  subject it accepts, a relation built by composition, union and iteration. The matcher finds
  exactly these spans (\<open>rmatch_spans\<close>), so \<open>regex_match\<close> succeeds when and only when the whole
  subject is a span (\<open>regex_match_spans\<close>), whatever the order of the attempts; and a capture
  it returns is a span of the group's own expression (\<open>regex_match_captures\<close>). For expressions
  without anchors and look-ahead, being a span depends on the text of the span only
  (\<open>spans_lang\<close>).
\<close>

section \<open>Spans\<close>

text \<open>
  The number of iterations a quantifier allows. (The constructor rejects \<open>{lo,hi}\<close> with
  \<open>hi < lo\<close>; the matcher would iterate \<open>hi\<close> times.)
\<close>

definition rep_count :: "nat \<Rightarrow> nat option \<Rightarrow> nat \<Rightarrow> bool" where
  "rep_count lo hi k \<longleftrightarrow> (case hi of None \<Rightarrow> lo \<le> k | Some h \<Rightarrow> min lo h \<le> k \<and> k \<le> h)"

definition char_spans :: "(char \<Rightarrow> bool) \<Rightarrow> string \<Rightarrow> (nat \<times> nat) set" where
  "char_spans P s = {(i, j). i < length s \<and> P (s ! i) \<and> j = Suc i}"

primrec spans :: "bool \<Rightarrow> string \<Rightarrow> regex \<Rightarrow> (nat \<times> nat) set" where
  "spans icase s REmpty = Id"
| "spans icase s (RCh c) = char_spans (char_matches icase c) s"
| "spans icase s RDot = char_spans (\<lambda>c. \<not> is_line_end c) s"
| "spans icase s (RClass neg items) = char_spans (class_matches icase neg items) s"
| "spans icase s (RSeq a b) = spans icase s a O spans icase s b"
| "spans icase s (RAlt a b) = spans icase s a \<union> spans icase s b"
| "spans icase s (RRep r lo hi greedy) = (\<Union>k \<in> {k. rep_count lo hi k}. spans icase s r ^^ k)"
| "spans icase s (RGroup g r) = spans icase s r"
| "spans icase s (RLook neg r) = {(i, j). i = j \<and> (i \<in> Domain (spans icase s r)) \<noteq> neg}"
| "spans icase s RBol = {(0, 0)}"
| "spans icase s REol = {(length s, length s)}"

section \<open>The matcher finds the spans\<close>

lemma rep_count_zero: "rep_count lo hi 0 \<longleftrightarrow> lo = 0 \<or> hi = Some 0"
  by (auto simp: rep_count_def split: option.splits)

lemma rep_count_Suc:
  "rep_count lo hi (Suc k) \<longleftrightarrow> hi \<noteq> Some 0 \<and> rep_count (lo - 1) (map_option (\<lambda>h. h - 1) hi) k"
  by (auto simp: rep_count_def split: option.splits)

lemma rep_count_down: "rep_count 0 hi (Suc k) \<Longrightarrow> rep_count 0 hi k"
  by (auto simp: rep_count_def split: option.splits)

lemma rep_matches_mem:
  "y \<in> set (rep_matches n m lo hi greedy x) \<longleftrightarrow>
    (if hi = Some 0 then y = x
     else lo = 0 \<and> y = x \<or>
       (\<exists>z \<in> set (m x). (0 < lo \<or> fst x < fst z \<and> fst z \<le> n) \<and>
          y \<in> set (rep_matches n m (lo - 1) (map_option (\<lambda>h. h - 1) hi) greedy z)))"
  by (subst rep_matches.simps) (auto simp: Let_def)

lemma rep_matches_spans:
  assumes "fst x \<le> n"
    and "\<And>x. fst x \<le> n \<Longrightarrow> fst ` set (m x) = R `` {fst x}"
    and "\<And>i j. i \<le> n \<Longrightarrow> (i, j) \<in> R \<Longrightarrow> i \<le> j \<and> j \<le> n"
  shows "(\<exists>y \<in> set (rep_matches n m lo hi greedy x). fst y = j) \<longleftrightarrow>
    (\<exists>k. rep_count lo hi k \<and> (fst x, j) \<in> R ^^ k)"
  using assms
proof (induction n m lo hi greedy x rule: rep_matches.induct)
  case (1 n m lo hi greedy x)
  let ?hi = "map_option (\<lambda>h. h - 1) hi"
  note x = "1.prems"(1) and m = "1.prems"(2) and R = "1.prems"(3)
  have bound: "fst x \<le> fst z \<and> fst z \<le> n" if "z \<in> set (m x)" for z
    using m [OF x] R [OF x, of "fst z"] that by blast
  have IH: "(\<exists>y \<in> set (rep_matches n m (lo - 1) ?hi greedy z). fst y = j) \<longleftrightarrow>
      (\<exists>k. rep_count (lo - 1) ?hi k \<and> (fst z, j) \<in> R ^^ k)"
    if "hi \<noteq> Some 0" "z \<in> set (m x)" "0 < lo \<or> fst x < fst z \<and> fst z \<le> n" for z
    by (rule "1.IH" [OF that(1) _ _ m R]) (use that bound in auto)
  show ?case
  proof (intro iffI)
    assume "\<exists>y \<in> set (rep_matches n m lo hi greedy x). fst y = j"
    then obtain y where y: "y \<in> set (rep_matches n m lo hi greedy x)" "fst y = j" by blast
    then show "\<exists>k. rep_count lo hi k \<and> (fst x, j) \<in> R ^^ k"
    proof (cases "hi = Some 0 \<or> lo = 0 \<and> y = x")
      case True
      with y show ?thesis by (auto simp: rep_matches_mem [of _ n m lo] rep_count_zero intro: exI [of _ 0])
    next
      case False
      with y(1) obtain z where z: "z \<in> set (m x)" "0 < lo \<or> fst x < fst z \<and> fst z \<le> n"
        "y \<in> set (rep_matches n m (lo - 1) ?hi greedy z)" by (auto simp: rep_matches_mem [of _ n m lo])
      with IH [of z] False y(2) obtain k where "rep_count (lo - 1) ?hi k" "(fst z, j) \<in> R ^^ k" by blast
      moreover from z(1) m [OF x] have "(fst x, fst z) \<in> R" by blast
      ultimately have "rep_count lo hi (Suc k)" "(fst x, j) \<in> R ^^ Suc k"
        using False by (blast intro: iffD2 [OF rep_count_Suc] relpow_Suc_I2)+
      then show ?thesis by blast
    qed
  next
    assume "\<exists>k. rep_count lo hi k \<and> (fst x, j) \<in> R ^^ k"
    then obtain k where "rep_count lo hi k" "(fst x, j) \<in> R ^^ k" by blast
    then show "\<exists>y \<in> set (rep_matches n m lo hi greedy x). fst y = j"
    proof (induction k)
      case 0
      then have "x \<in> set (rep_matches n m lo hi greedy x)"
        by (subst rep_matches_mem) (auto simp: rep_count_zero)
      with 0 show ?case by auto
    next
      case (Suc k)
      from Suc.prems(2) obtain i where i: "(fst x, i) \<in> R" "(i, j) \<in> R ^^ k"
        by (metis relpow_Suc_E2)
      with m [OF x] obtain z where z: "z \<in> set (m x)" "fst z = i" by (metis Image_singleton_iff imageE)
      show ?case
      proof (cases "0 < lo \<or> fst x < fst z")
        case True
        from Suc.prems(1) have hi: "hi \<noteq> Some 0" and cnt: "rep_count (lo - 1) ?hi k"
          by (simp_all add: rep_count_Suc)
        from True bound [OF z(1)] have "0 < lo \<or> fst x < fst z \<and> fst z \<le> n" by blast
        with IH [OF hi z(1)] cnt i(2) z(2) obtain y
          where "y \<in> set (rep_matches n m (lo - 1) ?hi greedy z)" "fst y = j" by blast
        with hi z(1) \<open>0 < lo \<or> fst x < fst z \<and> fst z \<le> n\<close>
        have "y \<in> set (rep_matches n m lo hi greedy x)" "fst y = j"
          by (simp_all only: rep_matches_mem [of y n m lo hi greedy x] if_False) blast
        then show ?thesis by blast
      next
        case False
        with bound [OF z(1)] have "lo = 0" "fst z = fst x" by auto
        with Suc z i show ?thesis by (auto dest: rep_count_down)
      qed
    qed
  qed
qed

lemma rep_matches_image:
  assumes "fst x \<le> n"
    and "\<And>x. fst x \<le> n \<Longrightarrow> fst ` set (m x) = R `` {fst x}"
    and "\<And>i j. i \<le> n \<Longrightarrow> (i, j) \<in> R \<Longrightarrow> i \<le> j \<and> j \<le> n"
  shows "fst ` set (rep_matches n m lo hi greedy x) = (\<Union>k \<in> {k. rep_count lo hi k}. R ^^ k) `` {fst x}"
proof (rule set_eqI)
  fix j
  have "j \<in> fst ` set (rep_matches n m lo hi greedy x) \<longleftrightarrow>
      (\<exists>y \<in> set (rep_matches n m lo hi greedy x). fst y = j)"
    by blast
  also have "\<dots> \<longleftrightarrow> (\<exists>k. rep_count lo hi k \<and> (fst x, j) \<in> R ^^ k)"
    using assms by (rule rep_matches_spans)
  finally show "j \<in> fst ` set (rep_matches n m lo hi greedy x) \<longleftrightarrow>
      j \<in> (\<Union>k \<in> {k. rep_count lo hi k}. R ^^ k) `` {fst x}"
    by blast
qed

text \<open>The end positions of the outcomes are those of the spans, whatever the captures.\<close>

lemma rmatch_spans: "fst x \<le> length s \<Longrightarrow> fst ` set (rmatch icase s r x) = spans icase s r `` {fst x}"
proof (induction r arbitrary: x)
  case (RSeq a b)
  have "fst ` set (rmatch icase s b z) = spans icase s b `` {fst z}" if "z \<in> set (rmatch icase s a x)" for z
    using RSeq.IH(2) rmatch_bounds [OF RSeq.prems that] by simp
  then have "fst ` set (rmatch icase s (RSeq a b) x) =
      (\<Union>z \<in> set (rmatch icase s a x). spans icase s b `` {fst z})"
    by (simp add: image_UN)
  also have "\<dots> = spans icase s b `` (fst ` set (rmatch icase s a x))" by auto
  finally show ?case using RSeq.IH(1) [OF RSeq.prems] by (auto simp: relcomp_Image)
next
  case (RRep r lo hi greedy)
  let ?m = "\<lambda>x. rmatch icase s r (fst x, reset_caps (groups r) (snd x))"
  have m: "fst ` set (?m y) = spans icase s r `` {fst y}" if "fst y \<le> length s" for y :: mstate
    using RRep.IH [of "(fst y, reset_caps (groups r) (snd y))"] that by simp
  moreover have "i \<le> j \<and> j \<le> length s" if "i \<le> length s" "(i, j) \<in> spans icase s r" for i j
  proof -
    from m [of "(i, Map.empty)"] that obtain z where "z \<in> set (?m (i, Map.empty))" "fst z = j" by fastforce
    with rmatch_bounds [of "(i, reset_caps (groups r) Map.empty)" s z icase r] that(1) show ?thesis by simp
  qed
  ultimately show ?case
    unfolding rmatch.simps spans.simps by (rule rep_matches_image [where m = ?m, OF RRep.prems])
next
  case (RAlt a b)
  then show ?case by (simp add: image_Un) blast
next
  case (RGroup g r)
  then show ?case by (simp add: image_image)
next
  case (RLook neg r)
  have "rmatch icase s r x = [] \<longleftrightarrow> fst x \<notin> Domain (spans icase s r)"
    using RLook.IH [OF RLook.prems]
    by (metis Domain.simps Image_singleton_iff empty_iff empty_set image_is_empty set_empty2 ex_in_conv)
  then show ?case by (cases "rmatch icase s r x") auto
qed (auto simp: one_char_def char_spans_def)

lemma spans_bounds: "i \<le> length s \<Longrightarrow> (i, j) \<in> spans icase s r \<Longrightarrow> i \<le> j \<and> j \<le> length s"
proof -
  assume "i \<le> length s" "(i, j) \<in> spans icase s r"
  moreover from this rmatch_spans [of "(i, Map.empty)" s icase r]
  obtain z where "z \<in> set (rmatch icase s r (i, Map.empty))" "fst z = j" by fastforce
  ultimately show ?thesis using rmatch_bounds [of "(i, Map.empty)" s z icase r] by simp
qed

lemma find_some_iff: "(\<exists>y. List.find P xs = Some y) \<longleftrightarrow> (\<exists>y \<in> set xs. P y)"
  by (induction xs) auto

lemma regex_match_spans:
  "(\<exists>k. regex_match icase r s = Some k) \<longleftrightarrow> (0, length s) \<in> spans icase s r"
proof -
  have "(\<exists>k. regex_match icase r s = Some k) \<longleftrightarrow>
      (\<exists>y \<in> set (rmatch icase s r (0, Map.empty)). fst y = length s)"
    unfolding find_some_iff [symmetric] by (simp add: regex_match_def) blast
  also have "\<dots> \<longleftrightarrow> length s \<in> fst ` set (rmatch icase s r (0, Map.empty))"
    unfolding image_iff by metis
  finally show ?thesis by (simp add: rmatch_spans)
qed

section \<open>Captures\<close>

primrec subgroups :: "regex \<Rightarrow> (nat \<times> regex) set" where
  "subgroups REmpty = {}"
| "subgroups (RCh c) = {}"
| "subgroups RDot = {}"
| "subgroups (RClass neg items) = {}"
| "subgroups (RSeq a b) = subgroups a \<union> subgroups b"
| "subgroups (RAlt a b) = subgroups a \<union> subgroups b"
| "subgroups (RRep r lo hi greedy) = subgroups r"
| "subgroups (RGroup g r) = insert (g, r) (subgroups r)"
| "subgroups (RLook neg r) = subgroups r"
| "subgroups RBol = {}"
| "subgroups REol = {}"

definition caps_ok :: "bool \<Rightarrow> string \<Rightarrow> (nat \<times> regex) set \<Rightarrow> caps \<Rightarrow> bool" where
  "caps_ok icase s G k \<longleftrightarrow>
    (\<forall>g b e. k g = Some (b, e) \<longrightarrow> (\<exists>r. (g, r) \<in> G \<and> b \<le> length s \<and> (b, e) \<in> spans icase s r))"

lemma caps_ok_empty: "caps_ok icase s G Map.empty"
  by (simp add: caps_ok_def)

lemma caps_ok_clear: "caps_ok icase s G k \<Longrightarrow> caps_ok icase s G (k(g := None))"
  by (simp add: caps_ok_def)

lemma caps_ok_reset: "caps_ok icase s G k \<Longrightarrow> caps_ok icase s G (reset_caps gs k)"
  unfolding reset_caps_def by (induction gs arbitrary: k) (simp_all add: caps_ok_clear)

lemma caps_ok_upd:
  "caps_ok icase s G k \<Longrightarrow> (g, r) \<in> G \<Longrightarrow> b \<le> length s \<Longrightarrow> (b, e) \<in> spans icase s r \<Longrightarrow>
    caps_ok icase s G (k(g \<mapsto> (b, e)))"
  by (auto simp: caps_ok_def)

lemma rep_matches_inv:
  assumes "\<And>x y. I x \<Longrightarrow> y \<in> set (m x) \<Longrightarrow> I y" "I x" "y \<in> set (rep_matches n m lo hi greedy x)"
  shows "I y"
  using assms
proof (induction n m lo hi greedy x arbitrary: y rule: rep_matches.induct)
  case (1 n m lo hi greedy x)
  note step = "1.prems"(1)
  from "1.prems"(3) show ?case
  proof (cases rule: rep_matches_cases)
    case 1
    with "1.prems"(2) show ?thesis by simp
  next
    case (2 z)
    show ?thesis
      by (rule "1.IH" [OF 2(1) _ step step [OF "1.prems"(2) 2(2)] 2(4)]) (use 2 in auto)
  qed
qed

abbreviation caps_inv :: "bool \<Rightarrow> string \<Rightarrow> (nat \<times> regex) set \<Rightarrow> mstate \<Rightarrow> bool" where
  "caps_inv icase s G x \<equiv> fst x \<le> length s \<and> caps_ok icase s G (snd x)"

lemma rmatch_caps:
  "subgroups r \<subseteq> G \<Longrightarrow> caps_inv icase s G x \<Longrightarrow> y \<in> set (rmatch icase s r x) \<Longrightarrow> caps_inv icase s G y"
proof (induction r arbitrary: x y)
  case (RSeq a b)
  from RSeq.prems(3) obtain z where z: "z \<in> set (rmatch icase s a x)" "y \<in> set (rmatch icase s b z)" by auto
  from RSeq.prems(1) have "subgroups a \<subseteq> G" "subgroups b \<subseteq> G" by auto
  with RSeq.IH(2) [OF _ RSeq.IH(1) [OF _ RSeq.prems(2) z(1)] z(2)] show ?case by blast
next
  case (RAlt a b)
  from RAlt.prems(1) have "subgroups a \<subseteq> G" "subgroups b \<subseteq> G" by auto
  moreover from RAlt.prems(3) consider "y \<in> set (rmatch icase s a x)" | "y \<in> set (rmatch icase s b x)" by auto
  ultimately show ?case using RAlt.IH RAlt.prems(2) by cases blast+
next
  case (RRep r lo hi greedy)
  let ?m = "\<lambda>x. rmatch icase s r (fst x, reset_caps (groups r) (snd x))"
  from RRep.prems(1) have sub: "subgroups r \<subseteq> G" by simp
  have "caps_inv icase s G z" if "caps_inv icase s G x" "z \<in> set (?m x)" for x z
    by (rule RRep.IH [OF sub _ that(2)]) (use that(1) in \<open>simp add: caps_ok_reset\<close>)
  then show ?case
    using rep_matches_inv [where I = "caps_inv icase s G" and m = ?m] RRep.prems(2,3)
    unfolding rmatch.simps by blast
next
  case (RGroup g r)
  from RGroup.prems(3) obtain z where z: "z \<in> set (rmatch icase s r x)"
    "y = (fst z, (snd z)(g \<mapsto> (fst x, fst z)))" by auto
  from RGroup.prems(1) have "subgroups r \<subseteq> G" "(g, r) \<in> G" by auto
  with RGroup.IH [OF _ RGroup.prems(2) z(1)] have inv: "caps_inv icase s G z" by blast
  from z(1) rmatch_spans [of x s icase r] RGroup.prems(2) have "(fst x, fst z) \<in> spans icase s r" by fastforce
  with inv \<open>(g, r) \<in> G\<close> RGroup.prems(2) have "caps_ok icase s G ((snd z)(g \<mapsto> (fst x, fst z)))"
    by (blast intro: caps_ok_upd)
  with inv show ?case unfolding z(2) fst_conv snd_conv by blast
next
  case (RLook neg r)
  show ?case
  proof (cases "rmatch icase s r x")
    case Nil
    with RLook.prems show ?thesis by (simp split: if_splits)
  next
    case (Cons z zs)
    with RLook.IH [of x z] RLook.prems show ?thesis by (simp split: if_splits)
  qed
qed (auto simp: one_char_def split: if_splits)

lemma regex_match_captures:
  assumes "regex_match icase r s = Some k" "k g = Some (b, e)"
  obtains r' where "(g, r') \<in> subgroups r" "b \<le> length s" "(b, e) \<in> spans icase s r'"
proof -
  from assms(1) obtain y where "List.find (\<lambda>y. fst y = length s) (rmatch icase s r (0, Map.empty)) = Some y"
    and "snd y = k"
    by (auto simp: regex_match_def)
  then have "y \<in> set (rmatch icase s r (0, Map.empty))" "snd y = k"
    by (simp_all add: find_Some_iff) (metis nth_mem)
  with rmatch_caps [of r "subgroups r" "(0, Map.empty)" s icase y]
  have "caps_ok icase s (subgroups r) k" by (simp add: caps_ok_empty)
  with assms(2) have "\<exists>r'. (g, r') \<in> subgroups r \<and> b \<le> length s \<and> (b, e) \<in> spans icase s r'"
    unfolding caps_ok_def by blast
  with that show ?thesis by blast
qed

end
