(* ===== verification/Regex_Lang.thy ===== *)
theory Regex_Lang
  imports Regex_Spans Regex_Syntax
begin

text \<open>
  Languages of the expressions without anchors and look-ahead (\<open>plain\<close>), and two checks on the
  structure of an expression that say what every match of it has: \<open>consumes\<close> (it is not empty)
  and \<open>needs\<close> (it contains one of some characters).
\<close>

section \<open>Texts and languages\<close>

definition sub :: "string \<Rightarrow> nat \<Rightarrow> nat \<Rightarrow> string" where
  "sub s i j = take (j - i) (drop i s)"

lemma sub_whole [simp]: "sub s 0 (length s) = s"
  by (simp add: sub_def)

lemma sub_empty [simp]: "sub s i i = []"
  by (simp add: sub_def)

lemma sub_Suc: "i < length s \<Longrightarrow> sub s i (Suc i) = [s ! i]"
  by (simp add: sub_def Suc_diff_le take_Suc_conv_app_nth)

lemma length_sub: "j \<le> length s \<Longrightarrow> length (sub s i j) = j - i"
  by (simp add: sub_def)

lemma sub_append: "i \<le> m \<Longrightarrow> m \<le> j \<Longrightarrow> sub s i j = sub s i m @ sub s m j"
proof -
  assume *: "i \<le> m" "m \<le> j"
  then have "sub s i j = take ((m - i) + (j - m)) (drop i s)" by (simp add: sub_def)
  also have "\<dots> = sub s i m @ take (j - m) (drop (m - i) (drop i s))"
    unfolding sub_def by (rule take_add)
  finally show ?thesis using * by (simp add: sub_def)
qed

lemma sub_split:
  assumes "i \<le> j" "j \<le> length s" "sub s i j = a @ b"
  shows "i \<le> i + length a \<and> i + length a \<le> j \<and> a = sub s i (i + length a) \<and> b = sub s (i + length a) j"
proof -
  from assms have le: "i + length a \<le> j" using length_sub [of j s i] by simp
  from sub_append [OF _ this, of i s] assms(3) have "a @ b = sub s i (i + length a) @ sub s (i + length a) j"
    by simp
  moreover have "length a = length (sub s i (i + length a))" using le assms(2) by (simp add: length_sub)
  ultimately show ?thesis using le by simp
qed

lemma set_sub: "set (sub s i j) \<subseteq> set s"
  unfolding sub_def using set_take_subset set_drop_subset by fastforce

definition conc :: "string set \<Rightarrow> string set \<Rightarrow> string set" where
  "conc A B = {a @ b | a b. a \<in> A \<and> b \<in> B}"

lemma concI: "a \<in> A \<Longrightarrow> b \<in> B \<Longrightarrow> a @ b \<in> conc A B"
  by (auto simp: conc_def)

lemma conc_Nil [simp]: "conc {[]} A = A" "conc A {[]} = A"
  by (auto simp: conc_def)

lemma conc_assoc: "conc (conc A B) C = conc A (conc B C)"
  by (auto simp: conc_def) (metis append_assoc)+

primrec lang_pow :: "string set \<Rightarrow> nat \<Rightarrow> string set" where
  "lang_pow A 0 = {[]}"
| "lang_pow A (Suc k) = conc (lang_pow A k) A"

primrec plain :: "regex \<Rightarrow> bool" where
  "plain REmpty = True"
| "plain (RCh c) = True"
| "plain RDot = True"
| "plain (RClass neg items) = True"
| "plain (RSeq a b) = (plain a \<and> plain b)"
| "plain (RAlt a b) = (plain a \<and> plain b)"
| "plain (RRep r lo hi greedy) = plain r"
| "plain (RGroup g r) = plain r"
| "plain (RLook neg r) = False"
| "plain RBol = False"
| "plain REol = False"

primrec lang :: "bool \<Rightarrow> regex \<Rightarrow> string set" where
  "lang icase REmpty = {[]}"
| "lang icase (RCh c) = {[x] | x. char_matches icase c x}"
| "lang icase RDot = {[x] | x. \<not> is_line_end x}"
| "lang icase (RClass neg items) = {[x] | x. class_matches icase neg items x}"
| "lang icase (RSeq a b) = conc (lang icase a) (lang icase b)"
| "lang icase (RAlt a b) = lang icase a \<union> lang icase b"
| "lang icase (RRep r lo hi greedy) = (\<Union>k \<in> {k. rep_count lo hi k}. lang_pow (lang icase r) k)"
| "lang icase (RGroup g r) = lang icase r"
| "lang icase (RLook neg r) = {}"
| "lang icase RBol = {}"
| "lang icase REol = {}"

definition accepts :: "string \<Rightarrow> string set \<Rightarrow> (nat \<times> nat) set" where
  "accepts s A = {(i, j). i \<le> j \<and> j \<le> length s \<and> sub s i j \<in> A}"

text \<open>\<open>accepts\<close> turns the operations on languages into those on spans.\<close>

lemma accepts_conc: "accepts s (conc A B) = accepts s A O accepts s B"
proof (intro set_eqI iffI)
  fix x assume "x \<in> accepts s (conc A B)"
  then obtain i j where x: "x = (i, j)" "i \<le> j" "j \<le> length s" "sub s i j \<in> conc A B"
    by (auto simp: accepts_def)
  then obtain a b where ab: "sub s i j = a @ b" "a \<in> A" "b \<in> B" by (auto simp: conc_def)
  from sub_split [OF x(2,3) ab(1)] ab x
  have "(i, i + length a) \<in> accepts s A" "(i + length a, j) \<in> accepts s B"
    by (simp_all add: accepts_def)
  then show "x \<in> accepts s A O accepts s B" using x(1) by blast
next
  fix x assume "x \<in> accepts s A O accepts s B"
  then obtain i m j where x: "x = (i, j)" "i \<le> m" "m \<le> j" "j \<le> length s" "sub s i m \<in> A" "sub s m j \<in> B"
    by (auto simp: accepts_def)
  with sub_append [OF x(2,3)] show "x \<in> accepts s (conc A B)"
    by (simp add: accepts_def concI)
qed

lemma accepts_chars: "accepts s {[x] | x. P x} = char_spans P s"
proof (intro set_eqI iffI)
  fix p assume "p \<in> accepts s {[x] | x. P x}"
  then obtain i j x where p: "p = (i, j)" "i \<le> j" "j \<le> length s" "sub s i j = [x]" "P x"
    by (auto simp: accepts_def)
  with length_sub [OF p(3), of i] have "j = Suc i" by simp
  with p sub_Suc [of i s] show "p \<in> char_spans P s" by (simp add: char_spans_def)
qed (auto simp: char_spans_def accepts_def sub_Suc)

lemma accepts_Un: "accepts s (A \<union> B) = accepts s A \<union> accepts s B"
  by (auto simp: accepts_def)

lemma accepts_UN: "accepts s (\<Union>k \<in> K. A k) = (\<Union>k \<in> K. accepts s (A k))"
  by (auto simp: accepts_def)

definition within :: "string \<Rightarrow> (nat \<times> nat) set" where
  "within s = {(i, i) | i. i \<le> length s}"

lemma accepts_Nil: "accepts s {[]} = within s"
  by (auto simp: accepts_def within_def sub_def)

lemma accepts_pow: "within s O accepts s A ^^ k = accepts s (lang_pow A k)"
proof (induction k)
  case 0
  then show ?case by (simp add: accepts_Nil)
next
  case (Suc k)
  then show ?case by (simp add: accepts_conc O_assoc [symmetric])
qed

lemma within_accepts: "within s O accepts s A = accepts s A"
  by (auto simp: within_def accepts_def)

lemma within_char_spans: "within s O char_spans P s = char_spans P s"
  by (auto simp: within_def char_spans_def)

text \<open>A relation that stays inside the subject may be restricted to it at every iteration.\<close>

lemma within_pow: "R `` {..length s} \<subseteq> {..length s} \<Longrightarrow> within s O R ^^ k = within s O (within s O R) ^^ k"
proof (induction k)
  case 0
  then show ?case by simp
next
  case (Suc k)
  have step: "within s O R ^^ m \<subseteq> UNIV \<times> {..length s}" for m
    using Suc.prems by (induction m) (auto simp: within_def)
  have "within s O R ^^ Suc k = (within s O R ^^ k) O R" by (simp add: O_assoc)
  also have "\<dots> = (within s O R ^^ k) O (within s O R)"
    using step [of k] by (fastforce simp: within_def)
  also have "\<dots> = within s O (within s O R) ^^ Suc k" using Suc by (simp add: O_assoc)
  finally show ?case .
qed

theorem spans_lang: "plain r \<Longrightarrow> within s O spans icase s r = accepts s (lang icase r)"
proof (induction r)
  case (RSeq a b)
  then have IH: "within s O spans icase s a = accepts s (lang icase a)"
    "within s O spans icase s b = accepts s (lang icase b)" by simp_all
  have step: "accepts s A O R = accepts s A O (within s O R)" for A and R :: "(nat \<times> nat) set"
    by (auto simp: within_def accepts_def relcomp_unfold)
  have "within s O spans icase s (RSeq a b) = (within s O spans icase s a) O spans icase s b"
    by (simp only: O_assoc spans.simps)
  also have "\<dots> = accepts s (lang icase a) O accepts s (lang icase b)"
    unfolding IH(1) step [of _ "spans icase s b"] IH(2) ..
  finally show ?case by (simp only: accepts_conc lang.simps)
next
  case (RAlt a b)
  then show ?case by (simp only: accepts_Un relcomp_distrib spans.simps lang.simps plain.simps)
next
  case (RRep r lo hi greedy)
  then have IH: "within s O spans icase s r = accepts s (lang icase r)" by simp
  have "spans icase s r `` {..length s} \<subseteq> {..length s}"
  proof
    fix j assume "j \<in> spans icase s r `` {..length s}"
    then obtain i where "i \<le> length s" "(i, j) \<in> spans icase s r" by blast
    from spans_bounds [OF this] show "j \<in> {..length s}" by simp
  qed
  note inside = within_pow [OF this]
  have pow: "within s O spans icase s r ^^ k = accepts s (lang_pow (lang icase r) k)" for k
    unfolding inside IH accepts_pow ..
  show ?case unfolding spans.simps lang.simps accepts_UN relcomp_UNION_distrib pow ..
qed (simp_all add: within_char_spans accepts_chars accepts_Nil)

section \<open>What every match has\<close>

text \<open>\<open>consumes r\<close>: no match is empty.\<close>

primrec consumes :: "regex \<Rightarrow> bool" where
  "consumes REmpty = False"
| "consumes (RCh c) = True"
| "consumes RDot = True"
| "consumes (RClass neg items) = True"
| "consumes (RSeq a b) = (consumes a \<or> consumes b)"
| "consumes (RAlt a b) = (consumes a \<and> consumes b)"
| "consumes (RRep r lo hi greedy) = (0 < lo \<and> hi \<noteq> Some 0 \<and> consumes r)"
| "consumes (RGroup g r) = consumes r"
| "consumes (RLook neg r) = False"
| "consumes RBol = False"
| "consumes REol = False"

lemma relpow_mono_le:
  assumes "\<And>i j. i \<le> n \<Longrightarrow> (i, j) \<in> R \<Longrightarrow> i \<le> j \<and> j \<le> n" "i \<le> n" "(i, j) \<in> R ^^ k"
  shows "i \<le> j \<and> j \<le> (n :: nat)"
  using assms(3)
proof (induction k arbitrary: j)
  case 0
  with assms(2) show ?case by simp
next
  case (Suc k)
  then obtain m where m: "(i, m) \<in> R ^^ k" "(m, j) \<in> R" by auto
  from Suc.IH [OF m(1)] have "i \<le> m" "m \<le> n" by auto
  with assms(1) [OF _ m(2)] show ?case by simp
qed

lemma consumes_spans: "consumes r \<Longrightarrow> i \<le> length s \<Longrightarrow> (i, j) \<in> spans icase s r \<Longrightarrow> i < j"
proof (induction r arbitrary: i j)
  case (RSeq a b)
  from RSeq.prems(3) obtain m where m: "(i, m) \<in> spans icase s a" "(m, j) \<in> spans icase s b" by auto
  from spans_bounds [OF RSeq.prems(2) m(1)] have le: "i \<le> m" "m \<le> length s" by auto
  from spans_bounds [OF le(2) m(2)] have "m \<le> j" by simp
  moreover have "i < m \<or> m < j"
    using RSeq.prems(1) RSeq.IH(1) [OF _ RSeq.prems(2) m(1)] RSeq.IH(2) [OF _ le(2) m(2)] by auto
  ultimately show ?case using le by linarith
next
  case (RRep r lo hi greedy)
  from RRep.prems obtain k where k: "rep_count lo hi k" "(i, j) \<in> spans icase s r ^^ k" by auto
  with RRep.prems(1) obtain k' where "k = Suc k'"
    by (cases k) (auto simp: rep_count_def split: option.splits)
  with k(2) obtain m where m: "(i, m) \<in> spans icase s r" "(m, j) \<in> spans icase s r ^^ k'"
    by (metis relpow_Suc_E2)
  from RRep.IH [OF _ RRep.prems(2) m(1)] RRep.prems(1) have "i < m" by simp
  moreover from spans_bounds [OF RRep.prems(2) m(1)] have "m \<le> length s" by simp
  then have "m \<le> j" using relpow_mono_le [where n = "length s" and R = "spans icase s r", OF _ _ m(2)] spans_bounds by blast
  ultimately show ?case by simp
qed (auto simp: char_spans_def)

text \<open>\<open>needs C r\<close>: every match contains a character of \<open>C\<close> (case-sensitive matching).\<close>

primrec needs :: "string \<Rightarrow> regex \<Rightarrow> bool" where
  "needs C REmpty = False"
| "needs C (RCh c) = (c \<in> set C)"
| "needs C RDot = False"
| "needs C (RClass neg items) = False"
| "needs C (RSeq a b) = (needs C a \<or> needs C b)"
| "needs C (RAlt a b) = (needs C a \<and> needs C b)"
| "needs C (RRep r lo hi greedy) = (0 < lo \<and> hi \<noteq> Some 0 \<and> needs C r)"
| "needs C (RGroup g r) = needs C r"
| "needs C (RLook neg r) = False"
| "needs C RBol = False"
| "needs C REol = False"

lemma needs_spans: "needs C r \<Longrightarrow> (i, j) \<in> spans False s r \<Longrightarrow> set C \<inter> set s \<noteq> {}"
proof (induction r arbitrary: i j)
  case (RCh c)
  then show ?case using nth_mem by (fastforce simp: char_spans_def char_matches_def)
next
  case (RRep r lo hi greedy)
  then obtain k where k: "rep_count lo hi k" "(i, j) \<in> spans False s r ^^ k" by auto
  with RRep.prems(1) obtain k' where "k = Suc k'"
    by (cases k) (auto simp: rep_count_def split: option.splits)
  with k(2) obtain m where "(i, m) \<in> spans False s r" by (metis relpow_Suc_E2)
  with RRep show ?case by simp
qed auto

text \<open>\<open>needs_for C g r\<close>: a match that takes group \<open>g\<close> contains a character of \<open>C\<close>.\<close>

primrec needs_for :: "string \<Rightarrow> nat \<Rightarrow> regex \<Rightarrow> bool" where
  "needs_for C g REmpty = True"
| "needs_for C g (RCh c) = True"
| "needs_for C g RDot = True"
| "needs_for C g (RClass neg items) = True"
| "needs_for C g (RSeq a b) =
     (needs C a \<or> needs C b \<or> (needs_for C g a \<and> needs_for C g b))"
| "needs_for C g (RAlt a b) = (needs_for C g a \<and> needs_for C g b)"
| "needs_for C g (RRep r lo hi greedy) = needs_for C g r"
| "needs_for C g (RGroup g' r) = (if g = g' then needs C r else needs_for C g r)"
| "needs_for C g (RLook neg r) = needs_for C g r"
| "needs_for C g RBol = True"
| "needs_for C g REol = True"

lemma rmatch_needs:
  assumes "needs C r" "fst x \<le> length s" "y \<in> set (rmatch False s r x)"
  shows "set C \<inter> set s \<noteq> {}"
proof -
  from assms(3) rmatch_spans [OF assms(2)] have "(fst x, fst y) \<in> spans False s r" by fastforce
  with assms(1) show ?thesis by (rule needs_spans)
qed

abbreviation taken_with :: "string \<Rightarrow> nat \<Rightarrow> string \<Rightarrow> mstate \<Rightarrow> bool" where
  "taken_with C g s x \<equiv> fst x \<le> length s \<and> (snd x g = None \<or> set C \<inter> set s \<noteq> {})"

lemma reset_caps_None: "k g = None \<Longrightarrow> reset_caps gs k g = None"
  unfolding reset_caps_def by (induction gs arbitrary: k) simp_all

lemma needs_for_rmatch:
  "needs_for C g r \<Longrightarrow> taken_with C g s x \<Longrightarrow> y \<in> set (rmatch False s r x) \<Longrightarrow> taken_with C g s y"
proof (induction r arbitrary: x y)
  case (RSeq a b)
  from RSeq.prems(3) obtain z where z: "z \<in> set (rmatch False s a x)" "y \<in> set (rmatch False s b z)" by auto
  from RSeq.prems(2) rmatch_bounds z have le: "fst z \<le> length s" "fst y \<le> length s" by blast+
  from RSeq.prems(1) consider "needs C a \<or> needs C b" | "needs_for C g a" "needs_for C g b" by auto
  then show ?case
  proof cases
    case 1
    with rmatch_needs [of C] z le RSeq.prems(2) have "set C \<inter> set s \<noteq> {}" by blast
    with le show ?thesis by simp
  next
    case 2
    with RSeq.IH RSeq.prems(2) z show ?thesis by blast
  qed
next
  case (RAlt a b)
  from RAlt.prems(1) have "needs_for C g a" "needs_for C g b" by auto
  moreover from RAlt.prems(3) consider "y \<in> set (rmatch False s a x)" | "y \<in> set (rmatch False s b x)" by auto
  ultimately show ?case using RAlt.IH RAlt.prems(2) by cases blast+
next
  case (RRep r lo hi greedy)
  let ?m = "\<lambda>x. rmatch False s r (fst x, reset_caps (groups r) (snd x))"
  from RRep.prems(1) have sub: "needs_for C g r" by simp
  have "taken_with C g s z" if "taken_with C g s x" "z \<in> set (?m x)" for x z
    by (rule RRep.IH [OF sub _ that(2)]) (use that(1) reset_caps_None in auto)
  then show ?case
    using rep_matches_inv [where I = "taken_with C g s" and m = ?m] RRep.prems(2,3)
    unfolding rmatch.simps by blast
next
  case (RGroup g' r)
  from RGroup.prems(3) obtain z where z: "z \<in> set (rmatch False s r x)"
    "y = (fst z, (snd z)(g' \<mapsto> (fst x, fst z)))" by auto
  from rmatch_bounds [OF conjunct1 [OF RGroup.prems(2)] z(1)] z(2) have le: "fst y \<le> length s" by simp
  show ?case
  proof (cases "g = g'")
    case True
    with RGroup.prems(1) have "needs C r" by simp
    from rmatch_needs [OF this _ z(1)] RGroup.prems(2) le show ?thesis by blast
  next
    case False
    with RGroup.prems(1) have "needs_for C g r" by simp
    from RGroup.IH [OF this RGroup.prems(2) z(1)] le z(2) False show ?thesis by simp
  qed
next
  case (RLook neg r)
  show ?case
  proof (cases "rmatch False s r x")
    case Nil
    with RLook.prems show ?thesis by (simp split: if_splits)
  next
    case (Cons z zs)
    with RLook.prems(3) have y: "y = (fst x, snd z)" by (simp split: if_splits)
    from RLook.IH [of x z] RLook.prems(1,2) Cons have "taken_with C g s z" by simp
    with y RLook.prems(2) show ?thesis by simp
  qed
qed (auto simp: one_char_def split: if_splits)

end
