(* ===== verification/Path_Language.thy ===== *)
theory Path_Language
  imports Path_Syntax Regex_Lang
begin

text \<open>
  Which paths a route accepts. The language of a token list is written down without regular
  expressions (\<open>route_lang\<close>): literal text as it is, a key as its prefix and its pattern, with
  the repetition and the optionality its flags ask for, and one more slash at the end unless
  the route is strict. \<open>route_matches\<close> shows that the compiled matcher accepts exactly this
  language.
\<close>

section \<open>Languages of tokens\<close>

definition text_lang :: "bool \<Rightarrow> string \<Rightarrow> string set" where
  "text_lang icase t = {u. list_all2 (char_matches icase) t u}"

definition star :: "string set \<Rightarrow> string set" where
  "star A = (\<Union>k. lang_pow A k)"

definition pattern_lang :: "bool \<Rightarrow> key \<Rightarrow> string set" where
  "pattern_lang icase k = lang icase (pattern_ast (k_pattern k))"

definition body_lang :: "bool \<Rightarrow> key \<Rightarrow> string set" where
  "body_lang icase k =
    (if key_has_flag k KEY_REPEAT
     then conc (pattern_lang icase k) (star (conc (text_lang icase (k_prefix k)) (pattern_lang icase k)))
     else pattern_lang icase k)"

definition key_lang :: "bool \<Rightarrow> key \<Rightarrow> string set" where
  "key_lang icase k =
    (let pfx = text_lang icase (k_prefix k); body = body_lang icase k
     in if key_has_flag k KEY_OPTIONAL then
          (if key_has_flag k KEY_PARTIAL then conc pfx ({[]} \<union> body) else {[]} \<union> conc pfx body)
        else conc pfx body)"

definition token_lang :: "bool \<Rightarrow> key \<Rightarrow> string set" where
  "token_lang icase t =
    (if key_has_flag t KEY_IS_STRING then text_lang icase (text_of t) else key_lang icase t)"

fun tokens_lang :: "bool \<Rightarrow> key list \<Rightarrow> string set" where
  "tokens_lang icase [] = {[]}"
| "tokens_lang icase (t # ts) = conc (token_lang icase t) (tokens_lang icase ts)"

definition route_lang :: "key list \<Rightarrow> u32 \<Rightarrow> string set" where
  "route_lang tokens options =
    (let icase = \<not> has_flag options SENSITIVE; strict = has_flag options STRICT
     in case rest_token tokens options of
          Some r \<Rightarrow> conc (tokens_lang icase (butlast tokens))
                      (conc (text_lang icase (k_prefix r)) {u. list_all (\<lambda>c. \<not> is_line_end c) u})
        | None \<Rightarrow> conc (tokens_lang icase (trim_tokens strict tokens)) (if strict then {[]} else {[], ''/''}))"

section \<open>The expression of a token has its language\<close>

definition plain_token :: "key \<Rightarrow> bool" where
  "plain_token t \<longleftrightarrow> key_has_flag t KEY_IS_STRING \<or> plain (pattern_ast (k_pattern t))"

lemma lang_seq_append: "lang icase (seq_of (a @ b)) = conc (lang icase (seq_of a)) (lang icase (seq_of b))"
  by (induction a) (simp_all add: conc_assoc)

lemma plain_seq_append: "plain (seq_of (a @ b)) = (plain (seq_of a) \<and> plain (seq_of b))"
  by (induction a) simp_all

lemma lang_seq_single: "lang icase (seq_of [r]) = lang icase r"
  by simp

lemma conc_char: "conc {[x] | x. P x} B = {x # v | x v. P x \<and> v \<in> B}"
proof (intro set_eqI iffI)
  fix w assume "w \<in> conc {[x] | x. P x} B"
  then obtain x v where "w = [x] @ v" "P x" "v \<in> B" unfolding conc_def by blast
  then show "w \<in> {x # v | x v. P x \<and> v \<in> B}" by simp
next
  fix w assume "w \<in> {x # v | x v. P x \<and> v \<in> B}"
  then obtain x v where w: "w = [x] @ v" "P x" "v \<in> B" by auto
  then show "w \<in> conc {[x] | x. P x} B" using concI [of "[x]" "{[x] | x. P x}" v B] by simp
qed

lemma lang_text: "lang icase (seq_of (map RCh t)) = text_lang icase t"
proof (induction t)
  case Nil
  then show ?case by (simp add: text_lang_def)
next
  case (Cons c t)
  have "lang icase (seq_of (map RCh (c # t))) = conc {[x] | x. char_matches icase c x} (text_lang icase t)"
    by (simp add: Cons)
  also have "\<dots> = text_lang icase (c # t)"
    unfolding conc_char by (auto simp: text_lang_def list_all2_Cons1)
  finally show ?case .
qed

lemma plain_text: "plain (seq_of (map RCh t))"
  by (induction t) simp_all

lemma lang_option: "lang icase (RRep r 0 (Some 1) True) = {[]} \<union> lang icase r"
proof -
  have "{k. rep_count 0 (Some 1) k} = {0, 1}" by (auto simp: rep_count_def)
  then show ?thesis by simp
qed

lemma lang_star: "lang icase (RRep r 0 None True) = star (lang icase r)"
  by (simp add: star_def rep_count_def)

lemma lang_key_body: "lang icase (seq_of (key_body k)) = body_lang icase k"
proof (cases "key_has_flag k KEY_REPEAT")
  case True
  have "lang icase (seq_of (key_body k)) = conc (lang icase (pattern_ast (k_pattern k)))
      (lang icase (RRep (seq_of (map RCh (k_prefix k) @ [pattern_ast (k_pattern k)])) 0 None True))"
    using True by (simp add: key_body_def)
  also have "\<dots> = body_lang icase k"
    unfolding lang_star lang_seq_append lang_text lang_seq_single
    using True by (simp only: body_lang_def pattern_lang_def if_True)
  finally show ?thesis .
qed (simp add: key_body_def body_lang_def pattern_lang_def)

lemma lang_key_terms: "lang icase (seq_of (key_terms k g)) = key_lang icase k"
proof -
  have cap: "lang icase (key_capture k g) = body_lang icase k"
    by (simp add: key_capture_def lang_key_body)
  show ?thesis
    unfolding key_terms_def key_lang_def Let_def
    by (simp only: if_distrib [of "\<lambda>ts. lang icase (seq_of ts)"] lang_option lang_seq_append
        lang_text lang_seq_single cap)
qed

lemma plain_key_terms: "plain (pattern_ast (k_pattern k)) \<Longrightarrow> plain (seq_of (key_terms k g))"
  by (simp add: key_terms_def key_capture_def key_body_def plain_seq_append plain_text)

lemma lang_tokens_terms: "lang icase (seq_of (tokens_terms ts g)) = tokens_lang icase ts"
  by (induction ts arbitrary: g)
    (simp_all add: lang_seq_append token_terms_def token_lang_def lang_text lang_key_terms)

lemma plain_tokens_terms: "list_all plain_token ts \<Longrightarrow> plain (seq_of (tokens_terms ts g))"
  by (induction ts arbitrary: g)
    (auto simp: plain_seq_append token_terms_def plain_token_def plain_text plain_key_terms)

section \<open>The route\<close>

lemma spans_seq_append: "spans icase s (seq_of (a @ b)) = spans icase s (seq_of a) O spans icase s (seq_of b)"
  by (induction a) (simp_all add: O_assoc)

lemma tolower_slash: "tolower c = CHR ''/'' \<longleftrightarrow> c = CHR ''/''"
proof
  assume eq: "tolower c = CHR ''/''"
  show "c = CHR ''/''"
  proof (cases "isupper c")
    case True
    then have "code (tolower c) = code c + 32" "65 \<le> code c"
      by (simp_all add: tolower_def isupper_def)
    with eq show ?thesis by simp
  qed (use eq in \<open>simp add: tolower_def\<close>)
qed (simp add: tolower_def isupper_def)

lemma char_matches_slash: "char_matches icase (CHR ''/'') c \<longleftrightarrow> c = CHR ''/''"
proof -
  have "tolower (CHR ''/'') = CHR ''/''" by code_simp
  with tolower_slash [of c] show ?thesis unfolding char_matches_def by metis
qed

lemma end_slash_spans:
  "(m, j) \<in> spans icase s end_slash \<longleftrightarrow> j = m \<or> (j = Suc m \<and> Suc m = length s \<and> s ! m = CHR ''/'')"
proof -
  have "{k. rep_count 0 (Some 1) k} = {0, 1}" by (auto simp: rep_count_def)
  then have "spans icase s end_slash = Id \<union> spans icase s (seq_of [RCh (CHR ''/''), RLook False (seq_of [REol])])"
    by (simp add: end_slash_def)
  also have "spans icase s (seq_of [RCh (CHR ''/''), RLook False (seq_of [REol])]) =
      {(m, j). j = Suc m \<and> Suc m = length s \<and> s ! m = CHR ''/''}"
    by (auto simp: char_spans_def char_matches_slash relcomp_unfold)
  finally show ?thesis by auto
qed

lemma slash_or_end_spans: "(length s, length s) \<in> spans icase s slash_or_end"
  by (auto simp: slash_or_end_def)

lemma slash_or_end_same: "(m, j) \<in> spans icase s slash_or_end \<Longrightarrow> m = j"
  by (auto simp: slash_or_end_def)

text \<open>Up to the end of the path, the tail of the expression allows one more slash or nothing.\<close>

lemma tail_spans:
  "m \<le> length s \<Longrightarrow> (m, length s) \<in> spans icase s (seq_of (tail_terms strict at_end slash)) \<longleftrightarrow>
    m = length s \<or> (\<not> strict \<and> Suc m = length s \<and> s ! m = CHR ''/'')"
  by (cases strict; cases at_end; cases slash)
    (auto simp: tail_terms_def end_slash_spans relcomp_unfold slash_or_end_spans dest: slash_or_end_same)

lemma sub_last_slash: "Suc m = length s \<Longrightarrow> s ! m = CHR ''/'' \<longleftrightarrow> s = sub s 0 m @ ''/''"
  by (simp add: sub_def) (metis butlast_conv_take diff_Suc_1 last_conv_nth list.size(3) nat.distinct(1)
      snoc_eq_iff_butlast)

lemma route_spans_none:
  assumes "plain (seq_of ts)" "lang icase (seq_of ts) = L"
  shows "(0, length s) \<in> spans icase s (seq_of ([RBol] @ ts @ tail_terms strict at_end slash)) \<longleftrightarrow>
    s \<in> conc L (if strict then {[]} else {[], ''/''})"
proof -
  have "(0, length s) \<in> spans icase s (seq_of ([RBol] @ ts @ tail_terms strict at_end slash)) \<longleftrightarrow>
      (0, length s) \<in> (within s O spans icase s (seq_of ts)) O spans icase s (seq_of (tail_terms strict at_end slash))"
    by (auto simp: spans_seq_append within_def)
  also have "\<dots> \<longleftrightarrow> (\<exists>m. m \<le> length s \<and> sub s 0 m \<in> L \<and>
      (m = length s \<or> (\<not> strict \<and> Suc m = length s \<and> s ! m = CHR ''/'')))"
    unfolding spans_lang [OF assms(1)] assms(2)
    by (simp add: accepts_def relcomp_unfold tail_spans conj_ac cong: conj_cong)
  also have "\<dots> \<longleftrightarrow> s \<in> L \<or> (\<not> strict \<and> (\<exists>u \<in> L. s = u @ ''/''))"
  proof (intro iffI; (elim exE conjE disjE bexE)?)
    fix m assume m: "sub s 0 m \<in> L" "\<not> strict" "Suc m = length s" "s ! m = CHR ''/''"
    with sub_last_slash [OF m(3)] show "s \<in> L \<or> (\<not> strict \<and> (\<exists>u \<in> L. s = u @ ''/''))" by blast
  next
    fix u assume u: "\<not> strict" "u \<in> L" "s = u @ ''/''"
    then have "sub s 0 (length u) \<in> L" "Suc (length u) = length s" "s ! length u = CHR ''/''"
      by (simp_all add: sub_def)
    with u(1) show "\<exists>m. m \<le> length s \<and> sub s 0 m \<in> L \<and>
        (m = length s \<or> (\<not> strict \<and> Suc m = length s \<and> s ! m = CHR ''/''))"
      by (intro exI [of _ "length u"]) simp
  next
    assume "s \<in> L"
    then show "\<exists>m. m \<le> length s \<and> sub s 0 m \<in> L \<and>
        (m = length s \<or> (\<not> strict \<and> Suc m = length s \<and> s ! m = CHR ''/''))"
      by (intro exI [of _ "length s"]) simp
  qed simp
  also have "\<dots> \<longleftrightarrow> s \<in> conc L (if strict then {[]} else {[], ''/''})"
    by (auto simp: conc_def)
  finally show ?thesis .
qed

lemma route_spans_rest:
  assumes "plain (seq_of ts)" "lang icase (seq_of ts) = L"
  shows "(0, length s) \<in> spans icase s (seq_of ([RBol] @ ts)) \<longleftrightarrow> s \<in> L"
proof -
  have "(0, length s) \<in> spans icase s (seq_of ([RBol] @ ts)) \<longleftrightarrow>
      (0, length s) \<in> within s O spans icase s (seq_of ts)"
    by (auto simp: spans_seq_append within_def)
  also have "\<dots> \<longleftrightarrow> s \<in> L"
    unfolding spans_lang [OF assms(1)] assms(2) by (simp add: accepts_def)
  finally show ?thesis .
qed

lemma lang_pow_chars: "u \<in> lang_pow {[x] | x. P x} k \<longleftrightarrow> length u = k \<and> list_all P u"
proof (induction k arbitrary: u)
  case 0
  then show ?case by auto
next
  case (Suc k)
  have "u \<in> lang_pow {[x] | x. P x} (Suc k) \<longleftrightarrow> (\<exists>v x. u = v @ [x] \<and> length v = k \<and> list_all P v \<and> P x)"
    using Suc by (auto simp: conc_def)
  also have "\<dots> \<longleftrightarrow> length u = Suc k \<and> list_all P u"
    by (cases u rule: rev_cases) auto
  finally show ?case .
qed

lemma star_chars: "star {[x] | x. P x} = {u. list_all P u}"
  by (auto simp: star_def lang_pow_chars)

lemma rest_terms:
  "plain (seq_of [RGroup g (seq_of [RRep RDot 0 None True])])"
  "lang icase (seq_of [RGroup g (seq_of [RRep RDot 0 None True])]) = {u. list_all (\<lambda>c. \<not> is_line_end c) u}"
proof -
  show "lang icase (seq_of [RGroup g (seq_of [RRep RDot 0 None True])]) = {u. list_all (\<lambda>c. \<not> is_line_end c) u}"
    unfolding lang_seq_single lang.simps(8) lang_star lang.simps(3) star_chars ..
qed simp

lemma trim_tokens_plain: "list_all plain_token tokens \<Longrightarrow> list_all plain_token (trim_tokens strict tokens)"
  by (simp add: trim_tokens_def plain_token_def list_all_iff) (blast dest: in_set_butlastD)

theorem route_lang_spans:
  assumes "list_all plain_token tokens"
  shows "(0, length s) \<in> spans (\<not> has_flag options SENSITIVE) s (seq_of (route_terms tokens options))
    \<longleftrightarrow> s \<in> route_lang tokens options"
proof (cases "rest_token tokens options")
  case None
  let ?ts = "tokens_terms (trim_tokens (has_flag options STRICT) tokens) 0"
  from route_spans_none [OF plain_tokens_terms [OF trim_tokens_plain [OF assms]] lang_tokens_terms] None
  show ?thesis unfolding route_terms_def route_lang_def Let_def by simp
next
  case (Some r)
  let ?ts = "tokens_terms (butlast tokens) 0 @ map RCh (k_prefix r) @
      [RGroup (Suc (token_count (butlast tokens))) (seq_of [RRep RDot 0 None True])]"
  have "plain (seq_of ?ts)"
    unfolding plain_seq_append
    by (simp only: plain_tokens_terms [OF butlast_ok [OF assms]] plain_text rest_terms)
  moreover have "lang icase (seq_of ?ts) = conc (tokens_lang icase (butlast tokens))
      (conc (text_lang icase (k_prefix r)) {u. list_all (\<lambda>c. \<not> is_line_end c) u})" for icase
    unfolding lang_seq_append by (simp only: lang_tokens_terms lang_text rest_terms)
  ultimately show ?thesis
    using route_spans_rest [of ?ts] Some by (simp only: route_terms_def route_lang_def Let_def option.case)
qed

text \<open>The compiled matcher accepts the language of the route.\<close>

lemma matches_spans:
  "fst (matches m route params) \<longleftrightarrow> (0, length route) \<in> spans (m_icase m) route (m_regex m)"
  unfolding regex_match_spans [symmetric] matches_def by (simp split: option.split)

lemma route_matches:
  "list_all plain_token tokens \<Longrightarrow>
    fst (matches (route_matcher tokens options) route params) \<longleftrightarrow> route \<in> route_lang tokens options"
  unfolding matches_spans by (simp add: route_matcher_def route_lang_spans)

end
