(* ===== verification/Path_Tokens.thy ===== *)
theory Path_Tokens
  imports Path_Language
begin

text \<open>
  What \<open>parse_matcher\<close> makes of a mask: the shape of its tokens (\<open>token_shape\<close>, an invariant of
  the loop), the numbering of the unnamed keys, the literal masks, and the masks without
  parentheses, whose patterns are the three texts the code writes itself
  (\<open>own_patterns\<close>). The facts about the expression the loop searches with are read off its
  syntax tree by evaluation.
\<close>

section \<open>The expression of the loop\<close>

lemma path_regex_progress: "consumes path_regex"
  by code_simp

lemma path_regex_needs: "needs (CHR 0x5C # '':(*'') path_regex"
  by code_simp

lemma path_regex_parens: "needs_for ''('' 4 path_regex" "needs_for ''('' 5 path_regex"
  by code_simp+

lemma path_regex_group:
  "\<forall>(g, r) \<in> subgroups path_regex.
    (g = 1 \<longrightarrow> r = RSeq (RCh (CHR 0x5C)) (RSeq RDot REmpty)) \<and>
    (g = 2 \<longrightarrow> r = RSeq (RClass False [Item (CHR ''/''), Item (CHR ''.'')]) REmpty) \<and>
    (g = 3 \<longrightarrow> r = RSeq (RRep (RClass False [Words False]) 1 None True) REmpty)"
  by code_simp

text \<open>A match of the loop, from where it starts to the outcome of the search.\<close>

definition path_match :: "string \<Rightarrow> nat \<times> mstate \<Rightarrow> bool" where
  "path_match msk res \<longleftrightarrow>
    fst res \<le> length msk \<and> snd res \<in> set (rmatch False msk path_regex (fst res, Map.empty))"

lemma regex_iterate_matches:
  "from \<le> length s \<Longrightarrow> res \<in> set (regex_iterate icase r s from) \<Longrightarrow>
    from \<le> fst res \<and> fst res \<le> length s \<and> snd res \<in> set (rmatch icase s r (fst res, Map.empty))"
proof (induction icase r s "from" rule: regex_iterate.induct)
  case (1 icase r s "from")
  show ?case
  proof (cases "regex_search icase r s from")
    case None
    with "1.prems" show ?thesis by (subst (asm) regex_iterate.simps) simp
  next
    case (Some hit)
    obtain b y where hit: "hit = (b, y)" by (cases hit) blast
    from regex_search_Some Some hit "1.prems"(1)
    have first: "from \<le> b" "b \<le> length s" "y \<in> set (rmatch icase s r (b, Map.empty))" by blast+
    from "1.prems"(2) Some hit consider "res = (b, y)"
      | "from < fst y" "fst y \<le> length s" "res \<in> set (regex_iterate icase r s (fst y))"
      by (subst (asm) regex_iterate.simps) (auto split: if_splits)
    then show ?thesis
    proof cases
      case 1
      with first show ?thesis by simp
    next
      case 2
      then have "fst y \<le> fst res \<and> fst res \<le> length s \<and> snd res \<in> set (rmatch icase s r (fst res, Map.empty))"
        by (intro "1.IH" [OF Some hit [symmetric]]) simp_all
      with 2(1) show ?thesis by simp
    qed
  qed
qed

lemma iterate_path_match: "list_all (path_match msk) (regex_iterate False path_regex msk 0)"
  using regex_iterate_matches [of 0 msk] by (auto simp: list_all_iff path_match_def)

section \<open>The texts of the groups\<close>

lemma path_match_group:
  assumes "path_match msk res" "group_text msk (snd (snd res)) g \<noteq> []"
  shows "\<exists>r. (g, r) \<in> subgroups path_regex \<and> (plain r \<longrightarrow> group_text msk (snd (snd res)) g \<in> lang False r)"
proof -
  from assms(2) obtain b e where be: "snd (snd res) g = Some (b, e)" "group_text msk (snd (snd res)) g = sub msk b e"
    by (auto simp: group_text_def sub_def split: option.splits)
  from assms(1) have "caps_inv False msk (subgroups path_regex) (snd res)"
    using rmatch_caps [of path_regex "subgroups path_regex" "(fst res, Map.empty)" msk False "snd res"]
    by (simp add: path_match_def caps_ok_empty)
  with be(1) obtain r where r: "(g, r) \<in> subgroups path_regex" "b \<le> length msk" "(b, e) \<in> spans False msk r"
    unfolding caps_ok_def by blast
  then have "(b, e) \<in> within msk O spans False msk r" by (auto simp: within_def)
  then have "sub msk b e \<in> lang False r" if "plain r"
    unfolding spans_lang [OF that] by (simp add: accepts_def)
  with r(1) be(2) show ?thesis by auto
qed

lemma path_match_escaped:
  assumes "path_match msk res" "group_text msk (snd (snd res)) 1 \<noteq> []"
  obtains c where "group_text msk (snd (snd res)) 1 = [CHR 0x5C, c]"
proof -
  from assms obtain r where r: "(1, r) \<in> subgroups path_regex"
    "plain r \<longrightarrow> group_text msk (snd (snd res)) 1 \<in> lang False r"
    using path_match_group by blast
  from path_regex_group r(1) have "r = RSeq (RCh (CHR 0x5C)) (RSeq RDot REmpty)" by blast
  with r(2) that show ?thesis by (auto simp: conc_def char_matches_def)
qed

lemma path_match_prefix:
  assumes "path_match msk res"
  shows "group_text msk (snd (snd res)) 2 \<in> {[], ''/'', ''.''}"
proof (cases "group_text msk (snd (snd res)) 2 = []")
  case False
  with assms obtain r where r: "(2, r) \<in> subgroups path_regex"
    "plain r \<longrightarrow> group_text msk (snd (snd res)) 2 \<in> lang False r"
    using path_match_group by blast
  from path_regex_group r(1) have "r = RSeq (RClass False [Item (CHR ''/''), Item (CHR ''.'')]) REmpty"
    by blast
  with r(2) show ?thesis by (auto simp: conc_def class_matches_def char_matches_def)
qed simp

lemma path_match_name:
  assumes "path_match msk res"
  shows "list_all is_word (group_text msk (snd (snd res)) 3)"
proof (cases "group_text msk (snd (snd res)) 3 = []")
  case False
  with assms obtain r where r: "(3, r) \<in> subgroups path_regex"
    "plain r \<longrightarrow> group_text msk (snd (snd res)) 3 \<in> lang False r"
    using path_match_group by blast
  from path_regex_group r(1) have "r = RSeq (RRep (RClass False [Words False]) 1 None True) REmpty"
    by blast
  with r(2) show ?thesis
    by (auto simp: lang_pow_chars class_matches_def)
qed simp

lemma path_match_parens:
  assumes "path_match msk res" "CHR ''('' \<notin> set msk"
  shows "group_text msk (snd (snd res)) 4 = []" "group_text msk (snd (snd res)) 5 = []"
proof -
  have "snd (snd res) g = None" if "needs_for ''('' g path_regex" for g
    using needs_for_rmatch [OF that, of "(fst res, Map.empty)" msk "snd res"] assms
    by (simp add: path_match_def)
  with path_regex_parens show "group_text msk (snd (snd res)) 4 = []" "group_text msk (snd (snd res)) 5 = []"
    by (simp_all add: group_text_def)
qed

section \<open>The shape of a token\<close>

definition key_shape :: "key \<Rightarrow> bool" where
  "key_shape k \<longleftrightarrow>
    k_prefix k \<in> {[], ''/'', ''.''} \<and>
    k_delimiter k = (if k_prefix k = [] then ''/'' else k_prefix k) \<and>
    k_pattern k \<noteq> [] \<and>
    (case k_value k of Name n \<Rightarrow> n \<noteq> [] \<and> list_all is_word n | Index i \<Rightarrow> True)"

definition token_shape :: "key \<Rightarrow> bool" where
  "token_shape t \<longleftrightarrow>
    (if key_has_flag t KEY_IS_STRING then (\<exists>s. s \<noteq> [] \<and> t = as_string s) else key_shape t)"

definition index_of :: "key \<Rightarrow> nat list" where
  "index_of t = (case k_value t of Index i \<Rightarrow> [i] | Name s \<Rightarrow> [])"

definition parse_inv :: "string \<Rightarrow> parse_state \<Rightarrow> bool" where
  "parse_inv msk st \<longleftrightarrow>
    list_all token_shape (ps_out st) \<and> concat (map index_of (ps_out st)) = [0..<ps_key st] \<and>
    (CHR ''('' \<notin> set msk \<longrightarrow>
      list_all (\<lambda>t. key_has_flag t KEY_IS_STRING \<or> k_pattern t \<in> {''.*'', ''[^'' @ escape_string (k_delimiter t) @ '']+?''})
        (ps_out st))"

lemma set_flags_sel [simp]:
  "k_value (set_flags a opt rep part k) = k_value k" "k_prefix (set_flags a opt rep part k) = k_prefix k"
  "k_delimiter (set_flags a opt rep part k) = k_delimiter k" "k_pattern (set_flags a opt rep part k) = k_pattern k"
  by (simp_all add: set_flags_def Let_def)

lemma key_make_sel [simp]:
  "k_value (key_make v p d t) = v" "k_prefix (key_make v p d t) = p" "k_delimiter (key_make v p d t) = d"
  "k_pattern (key_make v p d t) = t"
  by (simp_all add: key_make_def)

lemma set_flags_key:
  "\<not> key_has_flag (set_flags a opt rep part (key_make v p d t)) KEY_IS_STRING"
  by (cases a; cases opt; cases rep; cases part)
    (simp_all add: set_flags_def key_make_def key_has_flag_def has_flag_def key_flag_defs)

lemma parse_inv_push_path: "parse_inv msk st \<Longrightarrow> parse_inv msk (push_path st)"
  by (auto simp: parse_inv_def push_path_def token_shape_def index_of_def) (simp_all add: as_string_def)

lemma escape_nonempty: "s \<noteq> [] \<Longrightarrow> escape P s \<noteq> []"
  by (cases s) auto

lemma make_pattern_nonempty: "make_pattern capture grp asterisk delimiter \<noteq> []"
  by (simp add: make_pattern_def Let_def escape_group_def escape_nonempty)

text \<open>What the loop appends for a parameter.\<close>

definition match_key :: "string \<Rightarrow> nat \<Rightarrow> nat \<times> mstate \<Rightarrow> key" where
  "match_key msk key_no res =
    (let text = group_text msk (snd (snd res));
         next_ch = next_text msk (fst (snd res));
         delimiter = (if text 2 = [] then ''/'' else text 2)
     in set_flags (text 7 = ''*'') (text 6 = ''?'' \<or> text 6 = ''*'') (text 6 = ''+'' \<or> text 6 = ''*'')
          (text 2 \<noteq> [] \<and> next_ch \<noteq> [] \<and> next_ch \<noteq> text 2)
          (key_make (if text 3 = [] then Index key_no else Name (text 3)) (text 2) delimiter
            (make_pattern (text 4) (text 5) (text 7 = ''*'') delimiter)))"

definition literal_upto :: "string \<Rightarrow> parse_state \<Rightarrow> nat \<times> mstate \<Rightarrow> parse_state" where
  "literal_upto msk st res =
    st\<lparr>ps_path := ps_path st @ take (fst res - ps_index st) (drop (ps_index st) msk),
       ps_index := fst (snd res)\<rparr>"

lemma parse_match_escaped:
  "group_text msk (snd (snd res)) 1 \<noteq> [] \<Longrightarrow>
    parse_match msk st res = (literal_upto msk st res)
      \<lparr>ps_path := ps_path (literal_upto msk st res) @ [group_text msk (snd (snd res)) 1 ! 1]\<rparr>"
  by (simp add: parse_match_def literal_upto_def Let_def)

lemma parse_match_key:
  assumes "group_text msk (snd (snd res)) 1 = []"
  shows "parse_match msk st res =
    (let st1 = push_path (literal_upto msk st res); k = match_key msk (ps_key st) res
     in st1\<lparr>ps_out := ps_out st1 @ [k],
            ps_key := (if group_text msk (snd (snd res)) 3 = [] then Suc (ps_key st1) else ps_key st1)\<rparr>)"
  using assms
  by (simp add: parse_match_def match_key_def literal_upto_def push_path_def Let_def)

lemma match_key_shape: "path_match msk res \<Longrightarrow> token_shape (match_key msk n res)"
  using path_match_prefix [of msk res] path_match_name [of msk res]
  by (simp add: token_shape_def key_shape_def match_key_def Let_def set_flags_key make_pattern_nonempty)

lemma match_key_pattern:
  assumes "path_match msk res" "CHR ''('' \<notin> set msk"
  shows "k_pattern (match_key msk n res) \<in>
    {''.*'', ''[^'' @ escape_string (k_delimiter (match_key msk n res)) @ '']+?''}"
  using path_match_parens [OF assms] by (simp add: match_key_def make_pattern_def Let_def)

lemma parse_inv_literal:
  "parse_inv msk st \<Longrightarrow> parse_inv msk (st\<lparr>ps_index := i, ps_path := p\<rparr>)"
  "parse_inv msk st \<Longrightarrow> parse_inv msk (st\<lparr>ps_path := p\<rparr>)"
  by (simp_all add: parse_inv_def)

lemma parse_inv_match:
  assumes "parse_inv msk st" "path_match msk res"
  shows "parse_inv msk (parse_match msk st res)"
proof (cases "group_text msk (snd (snd res)) 1 = []")
  case False
  with assms(1) show ?thesis by (simp add: parse_match_escaped literal_upto_def parse_inv_literal)
next
  case True
  define st1 where "st1 = push_path (literal_upto msk st res)"
  from assms(1) have "parse_inv msk (literal_upto msk st res)"
    by (simp add: literal_upto_def parse_inv_def)
  then have st1: "parse_inv msk st1" unfolding st1_def by (rule parse_inv_push_path)
  have "ps_key st1 = ps_key st" by (simp add: st1_def push_path_def literal_upto_def)
  note st1 = st1 this
  let ?k = "match_key msk (ps_key st) res"
  have "index_of ?k = (if group_text msk (snd (snd res)) 3 = [] then [ps_key st] else [])"
    by (simp add: index_of_def match_key_def Let_def)
  with st1 match_key_shape [OF assms(2)] match_key_pattern [OF assms(2)] show ?thesis
    unfolding parse_match_key [OF True] st1_def [symmetric]
    by (simp add: parse_inv_def Let_def)
qed

lemma parse_inv_loop:
  "parse_inv msk st \<Longrightarrow> list_all (path_match msk) ms \<Longrightarrow> parse_inv msk (foldl (parse_match msk) st ms)"
  by (induction ms arbitrary: st) (simp_all add: parse_inv_match)

lemma parse_matcher_inv:
  obtains st where "parse_inv msk st" "ps_out st = parse_matcher msk"
proof -
  have "parse_inv msk parse_init" by (simp add: parse_inv_def parse_init_def)
  from parse_inv_loop [OF this iterate_path_match]
  have loop: "parse_inv msk (foldl (parse_match msk) parse_init (regex_iterate False path_regex msk 0))" .
  show ?thesis
    by (rule that [of "push_path (let st = foldl (parse_match msk) parse_init (regex_iterate False path_regex msk 0)
          in if ps_index st < length msk then st\<lparr>ps_path := ps_path st @ drop (ps_index st) msk\<rparr> else st)"])
      (use loop in \<open>simp_all add: Let_def parse_matcher_def parse_inv_push_path parse_inv_literal\<close>)
qed

lemma parse_matcher_shape: "list_all token_shape (parse_matcher msk)"
  using parse_matcher_inv [of msk] by (metis parse_inv_def)

lemma parse_matcher_indices: "\<exists>n. concat (map index_of (parse_matcher msk)) = [0..<n]"
  using parse_matcher_inv [of msk] by (metis parse_inv_def)

section \<open>Literal masks\<close>

lemma path_regex_none:
  assumes "set (CHR 0x5C # '':(*'') \<inter> set msk = {}"
  shows "regex_iterate False path_regex msk 0 = []"
proof (rule ccontr)
  assume "regex_iterate False path_regex msk 0 \<noteq> []"
  then obtain res where "res \<in> set (regex_iterate False path_regex msk 0)"
    by (meson ex_in_conv set_empty)
  from regex_iterate_matches [OF _ this]
  have "fst (fst res, Map.empty :: caps) \<le> length msk" "snd res \<in> set (rmatch False msk path_regex (fst res, Map.empty))"
    by simp_all
  from rmatch_needs [OF path_regex_needs this] assms show False by simp
qed

lemma parse_matcher_literal:
  "set (CHR 0x5C # '':(*'') \<inter> set msk = {} \<Longrightarrow>
    parse_matcher msk = (if msk = [] then [] else [as_string msk])"
  unfolding parse_matcher_def path_regex_none
  by (auto simp: parse_init_def push_path_def)

section \<open>Masks without parentheses\<close>

definition own_pattern :: "string \<Rightarrow> bool" where
  "own_pattern p \<longleftrightarrow> p \<in> {''.*'', raw ''[^~/]+?'', raw ''[^~.]+?''}"

lemma own_pattern_cases:
  "own_pattern p \<Longrightarrow> closed_pattern p \<and> plain (pattern_ast p) \<and> groups (pattern_ast p) = []"
proof -
  have "list_all (\<lambda>p. closed_pattern p \<and> plain (pattern_ast p) \<and> groups (pattern_ast p) = [])
      [''.*'', raw ''[^~/]+?'', raw ''[^~.]+?'']" by code_simp
  then show "own_pattern p \<Longrightarrow> closed_pattern p \<and> plain (pattern_ast p) \<and> groups (pattern_ast p) = []"
    unfolding own_pattern_def by (auto simp only: list.pred_inject)
qed

lemma own_pattern_delimiter:
  "d \<in> {''/'', ''.''} \<Longrightarrow> p \<in> {''.*'', ''[^'' @ escape_string d @ '']+?''} \<Longrightarrow> own_pattern p"
proof -
  have "''[^'' @ escape_string ''/'' @ '']+?'' = raw ''[^~/]+?''" "''[^'' @ escape_string ''.'' @ '']+?'' = raw ''[^~.]+?''"
    by code_simp+
  then show "d \<in> {''/'', ''.''} \<Longrightarrow> p \<in> {''.*'', ''[^'' @ escape_string d @ '']+?''} \<Longrightarrow> own_pattern p"
    unfolding own_pattern_def by auto
qed

text \<open>Every token the compiled expression can be reasoned about: text, or a key with a pattern of the code's own.\<close>

definition own_token :: "key \<Rightarrow> bool" where
  "own_token t \<longleftrightarrow> key_has_flag t KEY_IS_STRING \<and> (\<exists>s. t = as_string s) \<or>
     \<not> key_has_flag t KEY_IS_STRING \<and> own_pattern (k_pattern t)"

lemma own_token_ok: "own_token t \<Longrightarrow> token_ok t \<and> plain_token t"
  using own_pattern_cases by (auto simp: own_token_def plain_token_def token_ok_def as_string_def)

lemma parse_matcher_own:
  assumes "CHR ''('' \<notin> set msk"
  shows "list_all own_token (parse_matcher msk)"
proof -
  obtain st where "parse_inv msk st" "ps_out st = parse_matcher msk" by (rule parse_matcher_inv)
  with assms have "\<forall>t \<in> set (parse_matcher msk). token_shape t \<and> (key_has_flag t KEY_IS_STRING \<or>
      k_pattern t \<in> {''.*'', ''[^'' @ escape_string (k_delimiter t) @ '']+?''})"
    by (auto simp: parse_inv_def list_all_iff)
  moreover have "own_token t" if "token_shape t" "key_has_flag t KEY_IS_STRING \<or>
      k_pattern t \<in> {''.*'', ''[^'' @ escape_string (k_delimiter t) @ '']+?''}" for t
  proof (cases "key_has_flag t KEY_IS_STRING")
    case True
    with that(1) show ?thesis by (auto simp: token_shape_def own_token_def)
  next
    case False
    with that(1) have "k_delimiter t \<in> {''/'', ''.''}" by (auto simp: token_shape_def key_shape_def)
    from own_pattern_delimiter [OF this] False that(2) show ?thesis by (auto simp: own_token_def)
  qed
  ultimately show ?thesis unfolding list_all_iff by blast
qed

lemma mask_matcher:
  assumes "CHR ''('' \<notin> set msk"
  shows "matcher_of_mask msk options = Inr (route_matcher (parse_matcher msk) options)"
    "list_all plain_token (parse_matcher msk)"
  using parse_matcher_own [OF assms] own_token_ok
  by (auto intro!: matcher_of_mask_route simp: list_all_iff)

section \<open>Bound values\<close>

lemma bind_keys_other: "v \<notin> set (map k_value ks) \<Longrightarrow> bind_keys route match i ks params v = params v"
  by (induction ks arbitrary: i params) auto

lemma bind_keys_nth:
  "distinct (map k_value ks) \<Longrightarrow> j < length ks \<Longrightarrow>
    bind_keys route match i ks params (k_value (ks ! j)) = Some (group_text route match (Suc (i + j)))"
proof (induction ks arbitrary: i j params)
  case Nil
  then show ?case by simp
next
  case (Cons k ks)
  show ?case
  proof (cases j)
    case 0
    with Cons.prems(1) show ?thesis by (simp add: bind_keys_other)
  next
    case (Suc j')
    with Cons show ?thesis by simp
  qed
qed

lemma bind_keys_dom: "dom (bind_keys route match i ks params) = dom params \<union> k_value ` set ks"
  by (induction ks arbitrary: i params) auto

lemma subgroups_none: "groups r = [] \<Longrightarrow> subgroups r = {}"
  by (induction r) auto

lemma subgroups_seq_append: "subgroups (seq_of (a @ b)) = subgroups (seq_of a) \<union> subgroups (seq_of b)"
  by (induction a) auto

lemma subgroups_text: "subgroups (seq_of (map RCh t)) = {}"
  by (induction t) simp_all

lemma subgroups_key_terms:
  assumes "groups (pattern_ast (k_pattern k)) = []"
  shows "subgroups (seq_of (key_terms k g)) = {(Suc g, seq_of (key_body k))}"
proof -
  note pat = subgroups_none [OF assms]
  have "subgroups (seq_of (key_body k)) = {}"
    by (simp add: key_body_def pat subgroups_seq_append subgroups_text)
  then show ?thesis
    by (simp add: key_terms_def key_capture_def subgroups_seq_append subgroups_text)
qed

lemma subgroups_tokens_terms:
  "list_all own_token ts \<Longrightarrow> (n, r) \<in> subgroups (seq_of (tokens_terms ts g)) \<Longrightarrow>
    \<exists>j < length (route_keys ts). n = Suc (g + j) \<and> r = seq_of (key_body (route_keys ts ! j))"
proof (induction ts arbitrary: g)
  case Nil
  then show ?case by simp
next
  case (Cons t ts)
  show ?case
  proof (cases "key_has_flag t KEY_IS_STRING")
    case True
    with Cons show ?thesis
      by (simp add: subgroups_seq_append token_terms_def subgroups_text route_keys_def)
  next
    case False
    with Cons.prems(1) have t: "groups (pattern_ast (k_pattern t)) = []"
      using own_pattern_cases by (simp add: own_token_def)
    from Cons.prems(2) False consider "n = Suc g" "r = seq_of (key_body t)"
      | "(n, r) \<in> subgroups (seq_of (tokens_terms ts (Suc g)))"
      by (auto simp: subgroups_seq_append token_terms_def subgroups_key_terms [OF t])
    then show ?thesis
    proof cases
      case 1
      with False show ?thesis by (intro exI [of _ 0]) (simp add: route_keys_def)
    next
      case 2
      with Cons obtain j where "j < length (route_keys ts)" "n = Suc (Suc g + j)"
        "r = seq_of (key_body (route_keys ts ! j))" by fastforce
      with False show ?thesis by (intro exI [of _ "Suc j"]) (simp add: route_keys_def)
    qed
  qed
qed

lemma trim_tokens_keys: "route_keys (trim_tokens strict tokens) = route_keys tokens"
proof (cases "\<not> strict \<and> ends_with_slash tokens")
  case True
  then obtain ts t where "tokens = ts @ [t]" "key_has_flag t KEY_IS_STRING"
    by (auto elim: ends_with_slashE)
  with True show ?thesis by (simp add: trim_tokens_def route_keys_def)
qed (auto simp: trim_tokens_def)

lemma trim_tokens_own: "list_all own_token tokens \<Longrightarrow> list_all own_token (trim_tokens strict tokens)"
  by (simp add: trim_tokens_def own_token_def list_all_iff) (blast dest: in_set_butlastD)

lemma subgroups_route:
  assumes "list_all own_token tokens" "rest_token tokens options = None"
    "(n, r) \<in> subgroups (seq_of (route_terms tokens options))"
  obtains j where "j < length (route_keys tokens)" "n = Suc j" "r = seq_of (key_body (route_keys tokens ! j))"
proof -
  have "subgroups (seq_of (tail_terms strict at_end slash)) = {}" for strict at_end slash
    by (simp add: tail_terms_def end_slash_def slash_or_end_def)
  with assms(2,3) have "(n, r) \<in> subgroups (seq_of (tokens_terms (trim_tokens (has_flag options STRICT) tokens) 0))"
    by (simp add: route_terms_def subgroups_seq_append)
  from subgroups_tokens_terms [OF trim_tokens_own [OF assms(1)] this] that show ?thesis
    by (auto simp: trim_tokens_keys)
qed

lemma plain_key_body: "plain (pattern_ast (k_pattern k)) \<Longrightarrow> plain (seq_of (key_body k))"
  by (simp add: key_body_def plain_seq_append plain_text)

text \<open>What a successful match binds: every key, and only to a text its pattern describes.\<close>

lemma matches_binds:
  assumes "list_all own_token tokens" "rest_token tokens options = None"
    "distinct (map k_value (route_keys tokens))"
    "matches (route_matcher tokens options) route p0 = (True, params)" "j < length (route_keys tokens)"
  shows "\<exists>v. params (k_value (route_keys tokens ! j)) = Some v \<and>
    (v = [] \<or> v \<in> body_lang (\<not> has_flag options SENSITIVE) (route_keys tokens ! j))"
proof -
  let ?k = "route_keys tokens ! j" and ?icase = "\<not> has_flag options SENSITIVE"
  from assms(4) obtain match
    where match: "regex_match ?icase (seq_of (route_terms tokens options)) route = Some match"
      "params = bind_keys route match 0 (route_keys tokens) Map.empty"
    by (auto simp: matches_def route_matcher_def split: option.splits)
  define v where "v = group_text route match (Suc j)"
  have "params (k_value ?k) = Some v"
    using bind_keys_nth [OF assms(3,5), of route match 0] match(2) by (simp add: v_def)
  moreover have "v \<in> body_lang ?icase ?k" if "v \<noteq> []"
  proof -
    from that obtain b e where be: "match (Suc j) = Some (b, e)" "v = sub route b e"
      by (auto simp: v_def group_text_def sub_def split: option.splits)
    from match(1) be(1) obtain r where r: "(Suc j, r) \<in> subgroups (seq_of (route_terms tokens options))"
      "b \<le> length route" "(b, e) \<in> spans ?icase route r"
      by (rule regex_match_captures)
    from assms(1,2) r(1) have body: "r = seq_of (key_body ?k)"
      by (rule subgroups_route) simp
    from assms(1,5) have "own_token ?k" "\<not> key_has_flag ?k KEY_IS_STRING"
      using nth_mem [OF assms(5)] by (auto simp: route_keys_def list_all_iff)
    then have "plain r" using own_token_ok [of ?k] body plain_key_body by (simp add: plain_token_def)
    from r(2,3) have "(b, e) \<in> within route O spans ?icase route r" by (auto simp: within_def)
    then have "sub route b e \<in> lang ?icase r"
      unfolding spans_lang [OF \<open>plain r\<close>] by (simp add: accepts_def)
    with be(2) body show ?thesis by (simp add: lang_key_body)
  qed
  ultimately show ?thesis by blast
qed

section \<open>The languages of the code's own patterns\<close>

lemma own_pattern_ast:
  "pattern_ast ''.*'' = RSeq (RRep RDot 0 None True) REmpty"
  "pattern_ast (raw ''[^~/]+?'') = RSeq (RRep (RClass True [Item (CHR ''/'')]) 1 None False) REmpty"
  "pattern_ast (raw ''[^~.]+?'') = RSeq (RRep (RClass True [Item (CHR ''.'')]) 1 None False) REmpty"
  by code_simp+

lemma tolower_dot: "tolower c = CHR ''.'' \<longleftrightarrow> c = CHR ''.''"
proof
  assume eq: "tolower c = CHR ''.''"
  show "c = CHR ''.''"
  proof (cases "isupper c")
    case True
    then have "code (tolower c) = code c + 32" "65 \<le> code c"
      by (simp_all add: tolower_def isupper_def)
    with eq show ?thesis by simp
  qed (use eq in \<open>simp add: tolower_def\<close>)
qed (simp add: tolower_def isupper_def)

lemma class_not_delimiter:
  "d \<in> {CHR ''/'', CHR ''.''} \<Longrightarrow> class_matches icase True [Item d] c \<longleftrightarrow> c \<noteq> d"
proof -
  have "tolower (CHR ''.'') = CHR ''.''" "tolower (CHR ''/'') = CHR ''/''" by code_simp+
  then show "d \<in> {CHR ''/'', CHR ''.''} \<Longrightarrow> class_matches icase True [Item d] c \<longleftrightarrow> c \<noteq> d"
    using tolower_dot [of c] tolower_slash [of c] by (auto simp: class_matches_def char_matches_def)
qed

lemma lang_pow_some: "(\<Union>k \<in> {k. rep_count 1 None k}. lang_pow {[x] | x. P x} k) = {u. u \<noteq> [] \<and> list_all P u}"
  by (auto simp: lang_pow_chars rep_count_def Suc_le_eq)

lemma delimited_lang:
  "d \<in> {CHR ''/'', CHR ''.''} \<Longrightarrow>
    lang icase (RSeq (RRep (RClass True [Item d]) 1 None False) REmpty) = {u. u \<noteq> [] \<and> d \<notin> set u}"
  unfolding lang.simps conc_Nil class_not_delimiter lang_pow_some
  by (auto simp: list_all_iff)

text \<open>A key with no pattern of its own stands for a nonempty text without its delimiter.\<close>

lemma own_pattern_lang:
  assumes "d \<in> {''/'', ''.''}" "k_pattern k = ''[^'' @ escape_string d @ '']+?''"
  shows "pattern_lang icase k = {u. u \<noteq> [] \<and> hd d \<notin> set u}"
proof -
  have eq: "''[^'' @ escape_string ''/'' @ '']+?'' = raw ''[^~/]+?''" "''[^'' @ escape_string ''.'' @ '']+?'' = raw ''[^~.]+?''"
    by code_simp+
  from assms eq consider "d = ''/''" "k_pattern k = raw ''[^~/]+?''" | "d = ''.''" "k_pattern k = raw ''[^~.]+?''"
    by auto
  then show ?thesis
  proof cases
    case 1
    with delimited_lang [of "CHR ''/''" icase] show ?thesis
      by (simp only: pattern_lang_def own_pattern_ast list.sel) blast
  next
    case 2
    with delimited_lang [of "CHR ''.''" icase] show ?thesis
      by (simp only: pattern_lang_def own_pattern_ast list.sel) blast
  qed
qed

end
