(* ===== verification/Path_Properties.thy ===== *)
theory Path_Properties
  imports Path_Tokens
begin

text \<open>The properties of the path compiler, from the lemmas of the \<open>Path_\<close> theories.\<close>

section \<open>Tokens\<close>

text \<open>C27: A mask of any shape is cut into well-formed tokens: strings are not empty, a key has the
  prefix \<open>/\<close>, \<open>.\<close> or none, that prefix (or \<open>/\<close>) as its delimiter, a pattern that is not empty and a
  name of word characters or a number, and the unnamed keys are numbered from 0 in order.\<close>

theorem parse_matcher_tokens:
  "list_all token_shape (parse_matcher msk) \<and> (\<exists>n. concat (map index_of (parse_matcher msk)) = [0..<n])"
  using parse_matcher_shape parse_matcher_indices by blast

lemma partial_flag:
  "key_has_flag (set_flags a opt rep part (key_make v p d t)) KEY_PARTIAL \<longleftrightarrow> part"
  by (cases a; cases opt; cases rep; cases part)
    (simp_all add: set_flags_def key_make_def key_has_flag_def has_flag_def key_flag_defs)

text \<open>A key is flagged \<open>PARTIAL\<close> as soon as it has a prefix and the mask goes on behind it: the
  comparison of the next character with the prefix never has an effect, because the text it
  compares has two characters. Hence \<open>/:a?/b\<close> accepts \<open>/x/b\<close> and \<open>//b\<close> but not \<open>/b\<close>.\<close>

theorem partial_always:
  assumes "path_match msk res"
  shows "key_has_flag (match_key msk n res) KEY_PARTIAL \<longleftrightarrow>
    group_text msk (snd (snd res)) 2 \<noteq> [] \<and> fst (snd res) < length msk"
  using path_match_prefix [OF assms]
  by (auto simp: match_key_def Let_def partial_flag next_text_def)

definition optional_mask_matches :: "string \<Rightarrow> bool" where
  "optional_mask_matches route =
    (case matcher_of_mask ''/:a?/b'' DEFAULT of Inl e \<Rightarrow> False | Inr m \<Rightarrow> fst (matches m route Map.empty))"

theorem partial_always_witness:
  "key_has_flag (match_key ''/:a?/b'' 0 (hd (regex_iterate False path_regex ''/:a?/b'' 0))) KEY_PARTIAL \<and>
   optional_mask_matches ''/x/b'' \<and> optional_mask_matches ''//b'' \<and> \<not> optional_mask_matches ''/b''"
proof -
  let ?res = "hd (regex_iterate False path_regex ''/:a?/b'' 0)"
  have "regex_iterate False path_regex ''/:a?/b'' 0 \<noteq> []" by code_simp
  then have "path_match ''/:a?/b'' ?res"
    using iterate_path_match [of "''/:a?/b''"] by (simp add: list_all_iff)
  moreover have "group_text ''/:a?/b'' (snd (snd ?res)) 2 \<noteq> []" "fst (snd ?res) < length ''/:a?/b''"
    by code_simp+
  ultimately have "key_has_flag (match_key ''/:a?/b'' 0 ?res) KEY_PARTIAL"
    using partial_always [of "''/:a?/b''" ?res 0] by blast
  moreover have "optional_mask_matches ''/x/b''" "optional_mask_matches ''//b''" "\<not> optional_mask_matches ''/b''"
    by code_simp+
  ultimately show ?thesis by blast
qed

section \<open>Routes\<close>

lemma text_lang_sensitive: "text_lang False t = {t}"
proof -
  have "char_matches False = (=)" by (simp add: char_matches_def fun_eq_iff)
  then show ?thesis by (auto simp: text_lang_def list.rel_eq)
qed

text \<open>A mask without backslash, colon, parenthesis and asterisk is literal: with case-sensitive
  matching its route accepts the mask itself; unless strict, a slash more or less at the end is
  accepted too, and nothing else is.\<close>

theorem literal_route:
  assumes "set (CHR 0x5C # '':(*'') \<inter> set msk = {}" "msk \<noteq> []" "has_flag options SENSITIVE"
  shows "\<exists>m. matcher_of_mask msk options = Inr m \<and>
    (\<forall>route params. fst (matches m route params) \<longleftrightarrow>
      (if has_flag options STRICT then route = msk
       else let base = (if last msk = CHR ''/'' then butlast msk else msk)
            in route = base \<or> route = base @ ''/''))"
proof -
  have tokens: "parse_matcher msk = [as_string msk]"
    using parse_matcher_literal [OF assms(1)] assms(2) by simp
  have "CHR ''('' \<notin> set msk" using assms(1) by auto
  note m = mask_matcher(1) [OF this, of options] mask_matcher(2) [OF this]
  have slash: "ends_with_slash [as_string msk] \<longleftrightarrow> last msk = CHR ''/''"
    using assms(2) by (simp add: ends_with_slash_def) (simp add: as_string_def)
  have "rest_token [as_string msk] options = None" by (simp add: rest_token_def)
  then have "route_lang [as_string msk] options =
      (if has_flag options STRICT then {msk}
       else let base = (if last msk = CHR ''/'' then butlast msk else msk) in {base, base @ ''/''})"
    using assms(3) slash
    by (auto simp: route_lang_def trim_tokens_def token_lang_def text_lang_sensitive conc_def Let_def)
  then show ?thesis
    using route_matches [OF m(2) [unfolded tokens], of options] m(1) unfolding tokens
    by (auto simp: Let_def split: if_splits)
qed

theorem literal_route_witness:
  "\<exists>m. matcher_of_mask ''/a/b'' DEFAULT = Inr m \<and>
    (\<forall>route params. fst (matches m route params) \<longleftrightarrow> route = ''/a/b'' \<or> route = ''/a/b/'')"
proof -
  have "set (CHR 0x5C # '':(*'') \<inter> set ''/a/b'' = {}" by simp
  moreover have "has_flag DEFAULT SENSITIVE" "\<not> has_flag DEFAULT STRICT" by code_simp+
  ultimately show ?thesis using literal_route [of "''/a/b''" DEFAULT] by (simp add: Let_def)
qed

text \<open>C1: Every mask without parentheses compiles, whatever the options, and its matcher accepts
  exactly the language of its tokens: text as it is, a key as its prefix and its pattern under its
  repetition and optionality, and a slash more at the end unless strict.\<close>

theorem mask_language:
  assumes "CHR ''('' \<notin> set msk"
  shows "\<exists>m. matcher_of_mask msk options = Inr m \<and>
    (\<forall>route params. fst (matches m route params) \<longleftrightarrow> route \<in> route_lang (parse_matcher msk) options)"
  using mask_matcher [OF assms] route_matches by blast

theorem mask_language_witness:
  "\<exists>m. matcher_of_mask ''/u/:id'' DEFAULT = Inr m \<and>
    (\<forall>route params. fst (matches m route params) \<longleftrightarrow> route \<in> route_lang (parse_matcher ''/u/:id'') DEFAULT)"
  by (rule mask_language) simp

text \<open>C26: Patterns given in parentheses: when each compiles on its own, opens no group, and has no
  anchor or look-ahead, the route still compiles to exactly the language of its tokens.\<close>

theorem custom_route_language:
  assumes "list_all token_ok (parse_matcher msk)" "list_all plain_token (parse_matcher msk)"
  shows "\<exists>m. matcher_of_mask msk options = Inr m \<and> m_keys m = route_keys (parse_matcher msk) \<and>
    (\<forall>route params. fst (matches m route params) \<longleftrightarrow> route \<in> route_lang (parse_matcher msk) options)"
  using matcher_of_mask_route [OF assms(1), of options] route_matches [OF assms(2)]
  by (auto simp: route_matcher_def)

definition digits_mask :: string where
  "digits_mask = raw ''/u/:id(~d+)?''"

theorem custom_route_language_witness:
  "\<exists>m. matcher_of_mask digits_mask DEFAULT = Inr m \<and> m_keys m = route_keys (parse_matcher digits_mask) \<and>
    (\<forall>route params. fst (matches m route params) \<longleftrightarrow> route \<in> route_lang (parse_matcher digits_mask) DEFAULT)"
  by (rule custom_route_language; code_simp)



lemma compile_flags_bits:
  "STRICT = push_bit 0 1" "END = push_bit 1 1" "SENSITIVE = push_bit 2 1" "OPTIMIZE = push_bit 3 1"
  "TAKE_REST = push_bit 4 1"
  by (simp_all add: compile_flag_defs)

lemma has_flag_END:
  "has_flag (options OR END) STRICT = has_flag options STRICT"
  "has_flag (options OR END) SENSITIVE = has_flag options SENSITIVE"
  "has_flag (options OR END) TAKE_REST = has_flag options TAKE_REST"
  unfolding compile_flags_bits has_flag_or by (simp_all add: has_flag_def)

text \<open>The option \<open>END\<close> has no effect on what a route accepts, because the whole path is matched:
  there is no matching of prefixes.\<close>

theorem end_option_ignored:
  assumes "list_all plain_token tokens"
  shows "fst (matches (route_matcher tokens (options OR END)) route params) =
    fst (matches (route_matcher tokens options) route params)"
proof -
  have "route_lang tokens (options OR END) = route_lang tokens options"
    by (simp only: route_lang_def rest_token_def has_flag_END)
  then show ?thesis by (simp only: route_matches [OF assms])
qed

theorem end_option_ignored_witness:
  "fst (matches (route_matcher [as_string ''/a''] (SENSITIVE OR END)) ''/a/b'' Map.empty) =
   fst (matches (route_matcher [as_string ''/a''] SENSITIVE) ''/a/b'' Map.empty)"
  by (rule end_option_ignored) (simp add: plain_token_def)

section \<open>The regular expression engine\<close>

text \<open>The backtracking matcher decides the meaning of an expression: a match of the whole
  subject is found when, and only when, the subject is one of its spans.\<close>

theorem matcher_decides:
  "(\<exists>k. regex_match icase r s = Some k) \<longleftrightarrow> (0, length s) \<in> spans icase s r"
  by (rule regex_match_spans)

end
