(* ===== verification/Mime_Types.thy ===== *)
theory Mime_Types
  imports Mime_Table
begin

text \<open>
  \<open>static_files_types.cc\<close>: the media type of a file, looked up by the first four characters of its
  extension packed into 32 bits.
\<close>

section \<open>The packed extension\<close>

text \<open>\<open>char\<close> is signed.\<close>

definition char_int :: "char \<Rightarrow> int" where
  "char_int c = (if code c < 128 then int (code c) else int (code c) - 256)"

definition ext_char :: "char \<Rightarrow> int" where
  "ext_char c =
    (if char_int c = 0 then 0
     else if char_int c < char_int CHR ''a'' then char_int c + (char_int CHR ''a'' - char_int CHR ''A'')
     else char_int c)"

definition ext_tmplt :: "(nat \<Rightarrow> char) \<Rightarrow> u32" where
  "ext_tmplt e =
    fst (foldl (\<lambda>(result, shl) index. (result OR push_bit (nat shl) (of_int (ext_char (e index))), shl - 8))
      (0, 24 :: int) [0..<4])"

text \<open>The literals of the table end in NUL characters.\<close>

definition ext_u32 :: "string \<Rightarrow> u32" where
  "ext_u32 e = ext_tmplt (\<lambda>i. if i < length e then e ! i else CHR 0x00)"

definition create_types :: "(u32 \<times> string) list" where
  "create_types = sort (map (\<lambda>(ext, mime). (ext_u32 ext, mime)) mime_table)"

section \<open>Lookup\<close>

text \<open>
  \<open>path::extension\<close>: what starts at the last period of the last component, unless that period is
  its first character or the component is a pair of periods.
\<close>

definition path_filename :: "string \<Rightarrow> string" where
  "path_filename path = rev (takeWhile (\<lambda>c. c \<noteq> CHR ''/'') (rev path))"

definition path_extension :: "string \<Rightarrow> string" where
  "path_extension path =
    (let name = path_filename path; back = takeWhile (\<lambda>c. c \<noteq> CHR ''.'') (rev name)
     in if name = ''..'' \<or> length name \<le> length back + 1 then [] else CHR ''.'' # rev back)"

fun find_type :: "u32 \<Rightarrow> (u32 \<times> string) list \<Rightarrow> string" where
  "find_type extension [] = ''application/octet-stream''"
| "find_type extension ((ext, mime) # rest) = (if ext = extension then mime else find_type extension rest)"

text \<open>\<open>beyond\<close> is the memory behind the terminated extension.\<close>

definition mime_type :: "(nat \<Rightarrow> char) \<Rightarrow> string \<Rightarrow> string" where
  "mime_type beyond path =
    (let ext = path_extension path;
         extension = (if ext = [] then 0
           else ext_tmplt (\<lambda>i. if i < length (tl ext) then tl ext ! i
             else if i = length (tl ext) then CHR 0x00 else beyond (i - length ext)))
     in find_type extension create_types)"

lemma ext_tmplt_or:
  "ext_tmplt e = push_bit 24 (of_int (ext_char (e 0))) OR push_bit 16 (of_int (ext_char (e 1))) OR
    push_bit 8 (of_int (ext_char (e 2))) OR of_int (ext_char (e 3))"
  by (simp add: ext_tmplt_def upt_rec numeral_3_eq_3 numeral_2_eq_2 or.assoc)

section \<open>The table\<close>

text \<open>A digit or a lower-case letter, told from the bits of the character.\<close>

fun plain :: "char \<Rightarrow> bool" where
  "plain (Char b0 b1 b2 b3 b4 b5 b6 b7) \<longleftrightarrow> \<not> b7 \<and> b5 \<and>
    (if b6 then (b0 \<or> b1 \<or> b2 \<or> b3 \<or> b4) \<and> \<not> (b4 \<and> b3 \<and> (b2 \<or> b1 \<and> b0)) else b4 \<and> \<not> (b3 \<and> (b2 \<or> b1)))"

lemma plain_iff: "plain c \<longleftrightarrow> isdigit c \<or> islower c"
  by (cases c) (simp add: char_simps of_char_def split: if_splits)

fun table_ext :: "string \<Rightarrow> bool" where
  "table_ext [a] = plain a"
| "table_ext [a, b] = (plain a \<and> plain b)"
| "table_ext [a, b, c] = (plain a \<and> plain b \<and> plain c)"
| "table_ext [a, b, c, d] = (plain a \<and> plain b \<and> plain c \<and> plain d)"
| "table_ext _ = False"

lemmas mime_table_defs = mime_table_def mime_table_1_def mime_table_2_def mime_table_3_def mime_table_4_def
  mime_table_5_def mime_table_6_def mime_table_7_def

lemma table_exts: "list_all table_ext (map fst mime_table)"
  by (simp add: mime_table_defs)

lemma table_ext_plain: "table_ext e \<longleftrightarrow> e \<noteq> [] \<and> length e \<le> 4 \<and> (\<forall>c \<in> set e. plain c)"
  by (induction e rule: table_ext.induct) auto

lemma table_entry:
  assumes "(e, m) \<in> set mime_table"
  shows "e \<noteq> []" "length e \<le> 4" "c \<in> set e \<Longrightarrow> plain c"
  using table_exts assms by (auto simp: list_all_iff table_ext_plain)

text \<open>The bits of a string, the most significant of each character first: the table is sorted.\<close>

fun bits_of :: "string \<Rightarrow> bool list" where
  "bits_of [] = []"
| "bits_of (Char b0 b1 b2 b3 b4 b5 b6 b7 # s) = b7 # b6 # b5 # b4 # b3 # b2 # b1 # b0 # bits_of s"

lemma table_sorted: "successively (<) (map bits_of (map fst mime_table))"
  by (simp only: mime_table_defs append_Cons append_Nil list.map fst_conv bits_of.simps successively.simps
      Cons_less_Cons not_less_Nil Nil_less_Cons simp_thms less_bool_def)

lemma table_distinct: "distinct (map fst mime_table)"
proof -
  have "sorted_wrt (<) (map bits_of (map fst mime_table))"
    using table_sorted by (simp add: successively_conv_sorted_wrt)
  then have "distinct (map bits_of (map fst mime_table))"
    by (simp add: strict_sorted_iff)
  then show ?thesis by (simp only: distinct_map [of bits_of])
qed

section \<open>Keys\<close>

lemma ext_char_plain: "plain c \<Longrightarrow> ext_char c = (if isdigit c then int (code c) + 32 else int (code c))"
  by (auto simp: plain_iff char_simps ext_char_def char_int_def)

lemma ext_char_range: "plain c \<Longrightarrow> 80 \<le> ext_char c \<and> ext_char c \<le> 122"
  by (auto simp: plain_iff char_simps ext_char_def char_int_def)

lemma ext_char_inj: "plain c \<Longrightarrow> plain d \<Longrightarrow> ext_char c = ext_char d \<Longrightarrow> c = d"
  by (auto simp: ext_char_plain plain_iff char_simps split: if_splits)

lemma ext_char_nul: "ext_char CHR 0x00 = 0"
  by (simp add: ext_char_def char_int_def)

lemma tolower_plain: "isalnum c \<Longrightarrow> plain (tolower c) \<and> ext_char (tolower c) = ext_char c"
  by (auto simp: plain_iff char_simps tolower_def ext_char_def char_int_def)

text \<open>The four bytes of a key.\<close>

lemma key_bytes:
  fixes w0 w1 w2 w3 :: u32
  assumes "take_bit 8 w0 = w0" "take_bit 8 w1 = w1" "take_bit 8 w2 = w2" "take_bit 8 w3 = w3"
    and key: "key = push_bit 24 w0 OR push_bit 16 w1 OR push_bit 8 w2 OR w3"
  shows "take_bit 8 (drop_bit 24 key) = w0" "take_bit 8 (drop_bit 16 key) = w1"
    "take_bit 8 (drop_bit 8 key) = w2" "take_bit 8 key = w3"
proof -
  have small: "bit w n \<Longrightarrow> n < 8" if "take_bit 8 w = w" for w :: u32 and n
    using that by (metis bit_take_bit_iff)
  note s = small [OF assms(1)] small [OF assms(2)] small [OF assms(3)] small [OF assms(4)]
  show "take_bit 8 (drop_bit 24 key) = w0"
    unfolding key by (rule bit_word_eqI) (auto simp: bit_simps dest: s)
  show "take_bit 8 (drop_bit 16 key) = w1"
    unfolding key by (rule bit_word_eqI) (auto simp: bit_simps dest: s)
  show "take_bit 8 (drop_bit 8 key) = w2"
    unfolding key by (rule bit_word_eqI) (auto simp: bit_simps dest: s)
  show "take_bit 8 key = w3"
    unfolding key by (rule bit_word_eqI) (auto simp: bit_simps dest: s)
qed

text \<open>What a key is made of: four values that fit into a byte.\<close>

definition byte_values :: "(nat \<Rightarrow> char) \<Rightarrow> bool" where
  "byte_values e \<longleftrightarrow> (\<forall>i < 4. 0 \<le> ext_char (e i) \<and> ext_char (e i) < 256)"

lemma ext_tmplt_bytes:
  assumes "byte_values e"
  shows "take_bit 8 (drop_bit 24 (ext_tmplt e)) = of_int (ext_char (e 0))"
    "take_bit 8 (drop_bit 16 (ext_tmplt e)) = of_int (ext_char (e 1))"
    "take_bit 8 (drop_bit 8 (ext_tmplt e)) = of_int (ext_char (e 2))"
    "take_bit 8 (ext_tmplt e) = of_int (ext_char (e 3))"
proof -
  have "take_bit 8 (of_int (ext_char (e i)) :: u32) = of_int (ext_char (e i))" if "i < 4" for i
  proof -
    have "take_bit 8 (ext_char (e i)) = ext_char (e i)"
      using assms that by (simp add: byte_values_def take_bit_int_eq_self)
    then show ?thesis by (metis take_bit_of_int)
  qed
  then have "take_bit 8 (of_int (ext_char (e 0)) :: u32) = of_int (ext_char (e 0))"
    "take_bit 8 (of_int (ext_char (e 1)) :: u32) = of_int (ext_char (e 1))"
    "take_bit 8 (of_int (ext_char (e 2)) :: u32) = of_int (ext_char (e 2))"
    "take_bit 8 (of_int (ext_char (e 3)) :: u32) = of_int (ext_char (e 3))" by simp_all
  from key_bytes [OF this ext_tmplt_or] show
    "take_bit 8 (drop_bit 24 (ext_tmplt e)) = of_int (ext_char (e 0))"
    "take_bit 8 (drop_bit 16 (ext_tmplt e)) = of_int (ext_char (e 1))"
    "take_bit 8 (drop_bit 8 (ext_tmplt e)) = of_int (ext_char (e 2))"
    "take_bit 8 (ext_tmplt e) = of_int (ext_char (e 3))" .
qed

lemma byte_word_inj:
  "0 \<le> a \<Longrightarrow> a < 256 \<Longrightarrow> 0 \<le> b \<Longrightarrow> b < 256 \<Longrightarrow> (of_int a :: u32) = of_int b \<Longrightarrow> a = b"
  by (simp add: word_of_int_eq_iff take_bit_int_eq_self)

lemma ext_tmplt_inj:
  assumes "byte_values e" "byte_values d" "ext_tmplt e = ext_tmplt d" "i < 4"
  shows "ext_char (e i) = ext_char (d i)"
proof -
  note e = ext_tmplt_bytes [OF assms(1)] and d = ext_tmplt_bytes [OF assms(2)]
  have "(of_int (ext_char (e 0)) :: u32) = of_int (ext_char (d 0))"
    "(of_int (ext_char (e 1)) :: u32) = of_int (ext_char (d 1))"
    "(of_int (ext_char (e 2)) :: u32) = of_int (ext_char (d 2))"
    "(of_int (ext_char (e 3)) :: u32) = of_int (ext_char (d 3))"
    using e [symmetric] d [symmetric] assms(3) by simp_all
  moreover have "i = 0 \<or> i = 1 \<or> i = 2 \<or> i = 3" using assms(4) by linarith
  ultimately have "(of_int (ext_char (e i)) :: u32) = of_int (ext_char (d i))" by blast
  then show ?thesis
    using assms(1,2,4) by (intro byte_word_inj) (simp_all add: byte_values_def)
qed

definition padded :: "string \<Rightarrow> nat \<Rightarrow> char" where
  "padded e i = (if i < length e then e ! i else CHR 0x00)"

lemma ext_u32_padded: "ext_u32 e = ext_tmplt (padded e)"
  by (simp add: ext_u32_def padded_def [abs_def])

lemma padded_char:
  "(\<And>c. c \<in> set e \<Longrightarrow> plain c) \<Longrightarrow>
    (if i < length e then 80 \<le> ext_char (padded e i) \<and> ext_char (padded e i) \<le> 122 else ext_char (padded e i) = 0)"
  using ext_char_range [of "e ! i"] by (simp add: padded_def ext_char_nul)

lemma padded_bytes: "(\<And>c. c \<in> set e \<Longrightarrow> plain c) \<Longrightarrow> byte_values (padded e)"
  unfolding byte_values_def using padded_char [of e] by (smt (verit))

lemma padded_inj:
  assumes "\<And>c. c \<in> set e \<Longrightarrow> plain c" "\<And>c. c \<in> set d \<Longrightarrow> plain c" "length e \<le> 4" "length d \<le> 4"
    "ext_u32 e = ext_u32 d"
  shows "e = d"
proof -
  have same: "ext_char (padded e i) = ext_char (padded d i)" if "i < 4" for i
    using ext_tmplt_inj [OF padded_bytes [OF assms(1)] padded_bytes [OF assms(2)]] assms(5) that
    by (simp add: ext_u32_padded)
  have len: "i < length e \<longleftrightarrow> i < length d" if "i < 4" for i
    using same [OF that] padded_char [of e i, OF assms(1)] padded_char [of d i, OF assms(2)]
    by (simp split: if_splits)
  have "length e = length d"
    using len [of "length e"] len [of "length d"] assms(3,4) by (cases "length e" "length d" rule: linorder_cases) auto
  moreover have "e ! i = d ! i" if "i < length e" for i
    using same [of i] that calculation assms(1-3) ext_char_inj [of "e ! i" "d ! i"] by (simp add: padded_def)
  ultimately show ?thesis by (rule nth_equalityI)
qed

section \<open>The lookup\<close>

lemma find_type_map_of:
  "find_type k ts = (case map_of ts k of Some m \<Rightarrow> m | None \<Rightarrow> ''application/octet-stream'')"
  by (induction ts) auto

text \<open>The keys of the table are distinct, so that sorting it does not change what is found.\<close>

lemma keys_inj: "inj_on ext_u32 (set (map fst mime_table))"
proof (rule inj_onI)
  fix e d
  assume "e \<in> set (map fst mime_table)" "d \<in> set (map fst mime_table)" and same: "ext_u32 e = ext_u32 d"
  then obtain m n where "(e, m) \<in> set mime_table" "(d, n) \<in> set mime_table" by auto
  note e = table_entry [OF this(1)] and d = table_entry [OF this(2)]
  show "e = d" by (rule padded_inj [OF e(3) d(3) e(2) d(2) same])
qed

lemma create_types_map_of: "map_of create_types = map_of (map (\<lambda>(e, m). (ext_u32 e, m)) mime_table)"
proof -
  let ?xs = "map (\<lambda>(e, m). (ext_u32 e, m)) mime_table"
  have keys: "map fst ?xs = map ext_u32 (map fst mime_table)" by auto
  have d: "distinct (map fst ?xs)"
    unfolding keys using table_distinct keys_inj by (simp only: distinct_map [of ext_u32])
  then have "distinct (map fst create_types)"
    by (simp add: create_types_def distinct_map del: map_map)
  with d show ?thesis by (simp add: map_of_inject_set) (simp add: create_types_def)
qed

lemma map_of_key:
  assumes "\<And>e m. (e, m) \<in> set t \<Longrightarrow> f e = k \<longleftrightarrow> e = d"
  shows "map_of (map (\<lambda>(e, m). (f e, m)) t) k = map_of t d"
  using assms
proof (induction t)
  case (Cons p t)
  obtain e m where p: "p = (e, m)" by force
  have "f e = k \<longleftrightarrow> e = d" using Cons.prems [of e m] p by simp
  moreover have "f e = k \<longleftrightarrow> e = d" if "(e, m) \<in> set t" for e m
    using Cons.prems [of e m] that by simp
  then have "map_of (map (\<lambda>(e, m). (f e, m)) t) k = map_of t d" by (rule Cons.IH)
  ultimately show ?case by (auto simp: p)
qed simp

lemma find_table:
  assumes "\<And>c. c \<in> set d \<Longrightarrow> plain c" "length d \<le> 4"
  shows "find_type (ext_u32 d) create_types =
    (case map_of mime_table d of Some m \<Rightarrow> m | None \<Rightarrow> ''application/octet-stream'')"
proof -
  have "ext_u32 e = ext_u32 d \<longleftrightarrow> e = d" if "(e, m) \<in> set mime_table" for e m
    using padded_inj [OF table_entry(3) [OF that] assms(1) table_entry(2) [OF that] assms(2)] by blast
  then show ?thesis
    by (simp add: find_type_map_of create_types_map_of map_of_key [where d = d])
qed

text \<open>The memory a terminated extension is read from.\<close>

definition ext_mem :: "(nat \<Rightarrow> char) \<Rightarrow> string \<Rightarrow> nat \<Rightarrow> char" where
  "ext_mem beyond ext i = (if i < length ext then ext ! i else if i = length ext then CHR 0x00
     else beyond (i - Suc (length ext)))"

lemma mime_type_ext:
  "path_extension path = CHR ''.'' # ext \<Longrightarrow>
    mime_type beyond path = find_type (ext_tmplt (ext_mem beyond ext)) create_types"
proof -
  assume path: "path_extension path = CHR ''.'' # ext"
  have "ext_mem beyond ext = (\<lambda>i. if i < length (tl (CHR ''.'' # ext)) then tl (CHR ''.'' # ext) ! i
      else if i = length (tl (CHR ''.'' # ext)) then CHR 0x00 else beyond (i - length (CHR ''.'' # ext)))"
    by (rule ext) (simp add: ext_mem_def)
  then show ?thesis by (simp only: mime_type_def path Let_def list.distinct if_False)
qed

lemma ext_tmplt_cong: "(\<And>i. i < 4 \<Longrightarrow> ext_char (e i) = ext_char (d i)) \<Longrightarrow> ext_tmplt e = ext_tmplt d"
  by (simp add: ext_tmplt_or)

text \<open>The extension of a file: what the file name ends in behind a last period.\<close>

lemma path_extension_stem:
  assumes "stem \<noteq> []" "last stem \<noteq> CHR ''/''" "ext \<noteq> []" "CHR ''.'' \<notin> set ext" "CHR ''/'' \<notin> set ext"
  shows "path_extension (stem @ CHR ''.'' # ext) = CHR ''.'' # ext"
proof -
  from assms(1,2) obtain s c where stem: "stem = s @ [c]" "c \<noteq> CHR ''/''" by (metis rev_exhaust last_snoc)
  have "takeWhile (\<lambda>c. c \<noteq> CHR ''/'') (rev (stem @ CHR ''.'' # ext)) =
      rev ext @ CHR ''.'' # c # takeWhile (\<lambda>c. c \<noteq> CHR ''/'') (rev s)"
    using stem assms(5) by (simp add: takeWhile_append)
  then have name: "path_filename (stem @ CHR ''.'' # ext) =
      rev (takeWhile (\<lambda>c. c \<noteq> CHR ''/'') (rev s)) @ c # CHR ''.'' # ext"
    by (simp add: path_filename_def)
  have "takeWhile (\<lambda>c. c \<noteq> CHR ''.'') (rev (path_filename (stem @ CHR ''.'' # ext))) = rev ext"
    using assms(4) by (simp add: name takeWhile_append)
  moreover have "path_filename (stem @ CHR ''.'' # ext) \<noteq> ''..''"
    using assms(3,4) by (auto simp: name append_eq_Cons_conv)
  ultimately show ?thesis by (simp add: path_extension_def name)
qed

lemma less_4_iff: "(\<forall>i < (4 :: nat). P i) \<longleftrightarrow> P 0 \<and> P 1 \<and> P 2 \<and> P 3"
  by (auto simp: All_less_Suc eval_nat_numeral)

lemma char_int_range: "- 128 \<le> char_int c \<and> char_int c \<le> 127"
  unfolding char_int_def using code_less [of c] by (simp only: split: if_split) linarith

lemma ext_char_less: "ext_char c < 256" and ext_char_more: "- 128 \<le> ext_char c"
  using char_int_range [of c] by (auto simp: ext_char_def char_int_def)

lemma negative_bit: "\<not> 0 \<le> k \<Longrightarrow> - 128 \<le> k \<Longrightarrow> bit (of_int k :: u32) 15"
proof -
  assume "\<not> 0 \<le> k" "- 128 \<le> k"
  then have "k div 2 ^ 15 = - 1" by simp
  then have "bit k 15" unfolding bit_iff_odd by (simp only:) simp
  then show ?thesis by (simp add: bit_word_of_int_iff)
qed

lemma small_bit: "0 \<le> k \<Longrightarrow> k < 128 \<Longrightarrow> \<not> bit (of_int k :: u32) 7"
proof -
  assume "0 \<le> k" "k < 128"
  then have "k div 2 ^ 7 = 0" by simp
  then have "\<not> bit k 7" unfolding bit_iff_odd by (simp only:) simp
  then show ?thesis by (simp add: bit_word_of_int_iff)
qed

lemma plain_no_sep: "isalnum c \<Longrightarrow> c \<noteq> CHR ''.'' \<and> c \<noteq> CHR ''/''"
  by (auto simp: char_simps)

definition default_type :: "string option \<Rightarrow> string" where
  "default_type entry = (case entry of Some mime \<Rightarrow> mime | None \<Rightarrow> ''application/octet-stream'')"

text \<open>C14: The media type of a file is that of the table for the first four characters of its extension, in
  lower case, and \<open>application/octet-stream\<close> when the table has none: for an extension of at least
  three letters and digits, whatever lies in memory behind it.\<close>

theorem mime_type_table:
  assumes "stem \<noteq> []" "last stem \<noteq> CHR ''/''" "3 \<le> length ext" "\<forall>c \<in> set ext. isalnum c"
  shows "mime_type beyond (stem @ CHR ''.'' # ext) = default_type (map_of mime_table (take 4 (map tolower ext)))"
proof -
  have sep: "CHR ''.'' \<notin> set ext" "CHR ''/'' \<notin> set ext" using assms(4) plain_no_sep by blast+
  have "ext \<noteq> []" using assms(3) by auto
  note path = path_extension_stem [OF assms(1,2) this sep]
  let ?d = "take 4 (map tolower ext)"
  have "ext_char (ext_mem beyond ext i) = ext_char (padded ?d i)" if "i < 4" for i
    using that assms(3,4) tolower_plain [of "ext ! i"] by (auto simp: padded_def ext_mem_def)
  then have "ext_tmplt (ext_mem beyond ext) = ext_u32 ?d"
    unfolding ext_u32_padded by (rule ext_tmplt_cong)
  moreover have "plain c" if "c \<in> set ?d" for c
  proof -
    from in_set_takeD [OF that] obtain x where "x \<in> set ext" "c = tolower x" by auto
    then show ?thesis using assms(4) tolower_plain by blast
  qed
  ultimately show ?thesis
    using find_table [of ?d] by (simp add: mime_type_ext [OF path] default_type_def)
qed

theorem mime_type_table_witness:
  "mime_type (\<lambda>i. CHR ''?'') ''/site/app.WebManifest'' = mime_type (\<lambda>i. CHR ''?'') ''/movie.webm''"
proof -
  have "''/site/app.WebManifest'' = ''/site/app'' @ CHR ''.'' # ''WebManifest''"
    "''/movie.webm'' = ''/movie'' @ CHR ''.'' # ''webm''" by simp_all
  moreover have "take 4 (map tolower ''WebManifest'') = ''webm''" "take 4 (map tolower ''webm'') = ''webm''"
    "\<forall>c \<in> set ''WebManifest''. isalnum c" "\<forall>c \<in> set ''webm''. isalnum c" by code_simp+
  ultimately show ?thesis
    using mime_type_table [of "''/site/app''" "''WebManifest''" "\<lambda>i. CHR ''?''"]
      mime_type_table [of "''/movie''" "''webm''" "\<lambda>i. CHR ''?''"] by simp
qed

text \<open>C28: An extension of two characters is read past its terminating NUL: the media type of the table is found
  only when the byte behind it happens to be one that packs to zero, otherwise the file is
  \<open>application/octet-stream\<close>.\<close>

theorem short_extension:
  assumes "stem \<noteq> []" "last stem \<noteq> CHR ''/''" "isalnum a" "isalnum b"
  shows "mime_type beyond (stem @ [CHR ''.'', a, b]) =
    (if ext_char (beyond 0) = 0 then default_type (map_of mime_table [tolower a, tolower b])
     else ''application/octet-stream'')"
proof -
  note path = path_extension_stem [OF assms(1,2), of "[a, b]"]
  have sep: "CHR ''.'' \<notin> set [a, b]" "CHR ''/'' \<notin> set [a, b]" using assms(3,4) plain_no_sep by auto
  let ?mem = "ext_mem beyond [a, b]" and ?d = "[tolower a, tolower b]"
  have mime: "mime_type beyond (stem @ [CHR ''.'', a, b]) = find_type (ext_tmplt ?mem) create_types"
    using mime_type_ext [OF path [OF _ sep]] by simp
  have mem: "?mem 2 = CHR 0x00" "?mem 3 = beyond 0" by (simp_all add: ext_mem_def eval_nat_numeral)
  show ?thesis
  proof (cases "ext_char (beyond 0) = 0")
    case True
    have "ext_char (?mem i) = ext_char (padded ?d i)" if "i < 4" for i
    proof -
      have "i = 0 \<or> i = 1 \<or> i = 2 \<or> i = 3" using that by linarith
      then show ?thesis
        using True mem tolower_plain [OF assms(3)] tolower_plain [OF assms(4)]
        by (auto simp: padded_def ext_char_nul ext_mem_def)
    qed
    then have "ext_tmplt ?mem = ext_u32 ?d" unfolding ext_u32_padded by (rule ext_tmplt_cong)
    moreover have "plain c" if "c \<in> set ?d" for c
      using that assms(3,4) tolower_plain by auto
    ultimately show ?thesis
      using find_table [of ?d] True by (simp add: mime default_type_def)
  next
    case False
    have "ext_u32 e \<noteq> ext_tmplt ?mem" if "(e, m) \<in> set mime_table" for e m
    proof
      assume same: "ext_u32 e = ext_tmplt ?mem"
      note plain = table_entry(3) [OF that]
      show False
      proof (cases "0 \<le> ext_char (beyond 0)")
        case True
        have "ext_char a = ext_char (tolower a)" "ext_char b = ext_char (tolower b)"
          using tolower_plain assms(3,4) by simp_all
        then have "80 \<le> ext_char a \<and> ext_char a \<le> 122" "80 \<le> ext_char b \<and> ext_char b \<le> 122"
          using tolower_plain assms(3,4) ext_char_range [of "tolower a"] ext_char_range [of "tolower b"] by simp_all
        moreover have "ext_char (beyond 0) < 256" by (rule ext_char_less)
        ultimately have "byte_values ?mem"
          using True mem unfolding byte_values_def less_4_iff
          by (auto simp: ext_char_nul) (simp_all add: ext_mem_def)
        note eq = ext_tmplt_inj [OF padded_bytes [OF plain] this same [unfolded ext_u32_padded]]
        have "ext_char (padded e 2) = 0" "ext_char (padded e 3) \<noteq> 0"
          using eq [of 2] eq [of 3] mem False by (simp_all add: ext_char_nul)
        then show False using padded_char [of e 2, OF plain] padded_char [of e 3, OF plain] by (simp split: if_splits)
      next
        case neg: False
        have "bit (of_int (ext_char (beyond 0)) :: u32) 15" using neg ext_char_more by (rule negative_bit)
        then have "bit (ext_tmplt ?mem) 15" by (simp add: ext_tmplt_or mem bit_or_iff)
        moreover have "\<not> bit (ext_u32 e) 15"
        proof -
          have "\<not> bit (of_int (ext_char (padded e 2)) :: u32) 7"
            using padded_char [of e 2, OF plain] by (intro small_bit) (auto split: if_splits)
          moreover have "bit (ext_u32 e) 15 = bit (take_bit 8 (drop_bit 8 (ext_u32 e))) 7"
            by (simp add: bit_simps)
          ultimately show ?thesis
            by (simp add: ext_u32_padded ext_tmplt_bytes(3) [OF padded_bytes [OF plain]])
        qed
        ultimately show False using same by simp
      qed
    qed
    then have "map_of create_types (ext_tmplt ?mem) = None"
      unfolding create_types_map_of map_of_eq_None_iff by fastforce
    then show ?thesis using False by (simp add: mime find_type_map_of)
  qed
qed

theorem short_extension_witness:
  "mime_type (\<lambda>i. CHR ''?'') ''/app.js'' = ''application/octet-stream'' \<and>
   mime_type (\<lambda>i. CHR 0x00) ''/app.js'' = default_type (map_of mime_table ''js'')"
proof -
  have "isalnum CHR ''j''" "isalnum CHR ''s''" "tolower CHR ''j'' = CHR ''j''" "tolower CHR ''s'' = CHR ''s''"
    "ext_char CHR ''?'' \<noteq> 0" "ext_char CHR 0x00 = 0" by code_simp+
  then show ?thesis
    using short_extension [of "''/app''" "CHR ''j''" "CHR ''s''" "\<lambda>i. CHR ''?''"]
      short_extension [of "''/app''" "CHR ''j''" "CHR ''s''" "\<lambda>i. CHR 0x00"] by simp
qed

end
