(* ===== verification/Http_Date.thy ===== *)
theory Http_Date
  imports Prelude
begin

text \<open>
  \<open>format_date\<close> of \<open>static_files.cc\<close>, with the \<open>gmtime\<close> of the C library it calls. A time point of
  the system clock is a number of nanoseconds since 1970. The date that is written can be read
  back to the second (\<open>date_roundtrip\<close>).
\<close>

section \<open>Time points\<close>

type_synonym time_point = int

definition tp_min :: time_point where
  "tp_min = - (2 ^ 63)"

definition tp_max :: time_point where
  "tp_max = 2 ^ 63 - 1"

text \<open>\<open>duration_cast<seconds>\<close> rounds towards zero.\<close>

definition duration_seconds :: "time_point \<Rightarrow> int" where
  "duration_seconds t = (if 0 \<le> t then t div 10 ^ 9 else - ((- t) div 10 ^ 9))"

definition to_time_t :: "time_point \<Rightarrow> int" where
  "to_time_t t = duration_seconds t"

record tm =
  tm_sec :: int
  tm_min :: int
  tm_hour :: int
  tm_mday :: int
  tm_mon :: int
  tm_year :: int
  tm_wday :: int

text \<open>
  The days are counted from the first of March 2000 in cycles of 400, 100 and 4 years, the last
  century and the last year of a cycle being longer; years start in March.
\<close>

definition day_of_year :: "int \<Rightarrow> int \<times> int" where
  "day_of_year days =
    (let d = days - 11017; qc = d div 146097; r = d mod 146097;
         c = min 3 (r div 36524); r = r - c * 36524;
         q = r div 1461; r = r - q * 1461;
         a = min 3 (r div 365)
     in (2000 + 400 * qc + 100 * c + 4 * q + a, r - a * 365))"

definition gmtime :: "int \<Rightarrow> tm" where
  "gmtime t =
    (let days = t div 86400; s = t mod 86400; (y, r) = day_of_year days; mp = (5 * r + 2) div 153
     in \<lparr>tm_sec = s mod 60, tm_min = s div 60 mod 60, tm_hour = s div 3600,
         tm_mday = r - (153 * mp + 2) div 5 + 1, tm_mon = (if mp < 10 then mp + 2 else mp - 10),
         tm_year = (if mp < 10 then y else y + 1) - 1900, tm_wday = (days + 4) mod 7\<rparr>)"

section \<open>The date of HTTP\<close>

definition wday_names :: "string list" where
  "wday_names = [''Sun'', ''Mon'', ''Tue'', ''Wed'', ''Thu'', ''Fri'', ''Sat'']"

definition month_names :: "string list" where
  "month_names = [''Jan'', ''Feb'', ''Mar'', ''Apr'', ''May'', ''Jun'', ''Jul'', ''Aug'', ''Sep'', ''Oct'',
     ''Nov'', ''Dec'']"

text \<open>How \<open>fmt\<close> writes an \<open>int\<close> with the format \<open>:02\<close>.\<close>

definition pad2 :: "int \<Rightarrow> string" where
  "pad2 i = (let s = dec_int i in replicate (2 - length s) CHR ''0'' @ s)"

definition format_date :: "time_point \<Rightarrow> string" where
  "format_date date =
    (let tm = gmtime (to_time_t date)
     in wday_names ! nat (tm_wday tm) @ '', '' @ pad2 (tm_mday tm) @ '' '' @ month_names ! nat (tm_mon tm) @ '' '' @
        dec_int (1900 + tm_year tm) @ '' '' @ pad2 (tm_hour tm) @ '':'' @ pad2 (tm_min tm) @ '':'' @
        pad2 (tm_sec tm) @ '' GMT'')"

lemma epoch_date: "format_date 0 = ''Thu, 01 Jan 1970 00:00:00 GMT''"
  by code_simp

lemma leap_date: "format_date 951782400000000000 = ''Tue, 29 Feb 2000 00:00:00 GMT''"
  by code_simp

section \<open>Reading a date\<close>

definition days_of :: "int \<Rightarrow> int \<Rightarrow> int \<Rightarrow> int" where
  "days_of y mon mday =
    (let yy = (if mon < 2 then y - 1 else y) - 2000; mp = (mon + 10) mod 12
     in 11017 + 365 * yy + yy div 4 - yy div 100 + yy div 400 + (153 * mp + 2) div 5 + mday - 1)"

lemma capped_div:
  fixes r n :: int
  assumes "0 \<le> r" "r \<le> 4 * n" "0 < n" "c = min 3 (r div n)"
  shows "0 \<le> c" "c \<le> 3" "0 \<le> r - c * n" "r - c * n \<le> n"
proof -
  show "0 \<le> c" using assms by (simp add: pos_imp_zdiv_nonneg_iff)
  show "c \<le> 3" using assms by simp
  have "0 \<le> r - c * n \<and> r - c * n \<le> n"
  proof (cases "r div n \<le> 3")
    case True
    then have "r - c * n = r mod n" using assms(4) by (simp add: minus_div_mult_eq_mod)
    then show ?thesis using assms(3) pos_mod_bound [of n r] pos_mod_sign [of n r] by linarith
  next
    case False
    then have "n * 4 \<le> n * (r div n)" using assms(3) by (intro mult_left_mono) simp_all
    moreover have "r = n * (r div n) + r mod n" "0 \<le> r mod n" using assms(3) by simp_all
    ultimately have "r = 4 * n" using assms(2) by linarith
    moreover have "c = 3" using False assms(4) by simp
    ultimately show ?thesis using assms(3) by simp
  qed
  then show "0 \<le> r - c * n" "r - c * n \<le> n" by simp_all
qed

lemma day_of_year:
  assumes "day_of_year days = (y, r)"
  shows "0 \<le> r" "r \<le> 365"
    "days = 11017 + 365 * (y - 2000) + (y - 2000) div 4 - (y - 2000) div 100 + (y - 2000) div 400 + r"
    "2000 + 400 * ((days - 11017) div 146097) \<le> y"
proof -
  define d where "d = days - 11017"
  define qc where "qc = d div 146097"
  define r0 where "r0 = d mod 146097"
  define c where "c = min 3 (r0 div 36524)"
  define r1 where "r1 = r0 - c * 36524"
  define q where "q = r1 div 1461"
  define r2 where "r2 = r1 - q * 1461"
  define a where "a = min 3 (r2 div 365)"
  have yr: "y = 2000 + 400 * qc + 100 * c + 4 * q + a" "r = r2 - a * 365"
    using assms unfolding day_of_year_def Let_def prod.inject d_def qc_def r0_def c_def r1_def q_def r2_def a_def
    by blast+
  have d: "d = 146097 * qc + r0" "0 \<le> r0" "r0 < 146097" by (simp_all add: qc_def r0_def)
  have c: "0 \<le> c" "c \<le> 3" "0 \<le> r1" "r1 \<le> 36524"
    using capped_div [of r0 36524 c] d(2,3) by (simp_all add: c_def r1_def)
  have q: "0 \<le> q" "q \<le> 24" "0 \<le> r2" "r2 \<le> 1460"
  proof -
    have "r1 = 1461 * q + r2" "r2 = r1 mod 1461" by (simp_all add: q_def r2_def minus_div_mult_eq_mod)
    moreover have "0 \<le> r1 mod 1461" "r1 mod 1461 < 1461" by simp_all
    ultimately show "0 \<le> q" "q \<le> 24" "0 \<le> r2" "r2 \<le> 1460" using c(3,4) by linarith+
  qed
  have a: "0 \<le> a" "a \<le> 3" "0 \<le> r2 - a * 365" "r2 - a * 365 \<le> 365"
    using capped_div [of r2 365 a] q(3,4) by (simp_all add: a_def)
  show "0 \<le> r" "r \<le> 365" using a yr by simp_all
  show "2000 + 400 * ((days - 11017) div 146097) \<le> y"
    using yr(1) c(1) q(1) a(1) unfolding d_def [symmetric] qc_def [symmetric] by linarith
  have yy: "y - 2000 = 400 * qc + (100 * c + 4 * q + a)" "y - 2000 = 100 * (4 * qc + c) + (4 * q + a)"
    "y - 2000 = 4 * (100 * qc + 25 * c + q) + a"
    using yr(1) by simp_all
  have small: "0 \<le> 100 * c + 4 * q + a" "100 * c + 4 * q + a < 400" "0 \<le> 4 * q + a" "4 * q + a < 100" "a < 4"
    using c(1,2) q(1,2) a(1,2) by linarith+
  have divs: "(y - 2000) div 400 = qc" "(y - 2000) div 100 = 4 * qc + c"
    "(y - 2000) div 4 = 100 * qc + 25 * c + q"
    by (rule int_div_pos_eq [OF yy(1) small(1,2)], rule int_div_pos_eq [OF yy(2) small(3,4)],
        rule int_div_pos_eq [OF yy(3) a(1) small(5)])
  have "days = 11017 + 146097 * qc + 36524 * c + 1461 * q + 365 * a + r"
    using d(1) yr(2) unfolding d_def r1_def r2_def by linarith
  then show "days = 11017 + 365 * (y - 2000) + (y - 2000) div 4 - (y - 2000) div 100 + (y - 2000) div 400 + r"
    unfolding divs using yr(1) by simp
qed

lemma month_of_day:
  fixes r :: int
  assumes "0 \<le> r" "r \<le> 365" "mp = (5 * r + 2) div 153"
  shows "0 \<le> mp" "mp \<le> 11" "0 \<le> r - (153 * mp + 2) div 5" "r - (153 * mp + 2) div 5 \<le> 30"
proof -
  define e where "e = (153 * mp + 2) div 5"
  have "5 * r + 2 = 153 * mp + (5 * r + 2) mod 153" "0 \<le> (5 * r + 2) mod 153" "(5 * r + 2) mod 153 < 153"
    using assms(3) by simp_all
  moreover have "153 * mp + 2 = 5 * e + (153 * mp + 2) mod 5" "0 \<le> (153 * mp + 2) mod 5" "(153 * mp + 2) mod 5 < 5"
    by (simp_all add: e_def)
  ultimately show "0 \<le> mp" "mp \<le> 11" "0 \<le> r - (153 * mp + 2) div 5" "r - (153 * mp + 2) div 5 \<le> 30"
    using assms(1,2) unfolding e_def [symmetric] by linarith+
qed

text \<open>The fields of \<open>gmtime\<close> are in range and say the time they were made from.\<close>

lemma gmtime_fields:
  "0 \<le> tm_sec (gmtime t)" "tm_sec (gmtime t) < 60" "0 \<le> tm_min (gmtime t)" "tm_min (gmtime t) < 60"
  "0 \<le> tm_hour (gmtime t)" "tm_hour (gmtime t) < 24" "0 \<le> tm_wday (gmtime t)" "tm_wday (gmtime t) < 7"
  "1 \<le> tm_mday (gmtime t)" "tm_mday (gmtime t) \<le> 31" "0 \<le> tm_mon (gmtime t)" "tm_mon (gmtime t) < 12"
  and gmtime_inverse: "86400 * days_of (1900 + tm_year (gmtime t)) (tm_mon (gmtime t)) (tm_mday (gmtime t)) +
    3600 * tm_hour (gmtime t) + 60 * tm_min (gmtime t) + tm_sec (gmtime t) = t"
proof -
  define s where "s = t mod 86400"
  obtain y r where yr: "day_of_year (t div 86400) = (y, r)" by force
  define mp where "mp = (5 * r + 2) div 153"
  have tm: "gmtime t = \<lparr>tm_sec = s mod 60, tm_min = s div 60 mod 60, tm_hour = s div 3600,
      tm_mday = r - (153 * mp + 2) div 5 + 1, tm_mon = (if mp < 10 then mp + 2 else mp - 10),
      tm_year = (if mp < 10 then y else y + 1) - 1900, tm_wday = (t div 86400 + 4) mod 7\<rparr>"
    by (simp only: gmtime_def yr Let_def prod.case s_def mp_def)
  note r = day_of_year [OF yr]
  note m = month_of_day [OF r(1,2) mp_def]
  have s: "0 \<le> s" "s < 86400" by (simp_all add: s_def)
  have hms: "0 \<le> s div 3600" "s div 3600 < 24" using s by (simp_all add: pos_imp_zdiv_nonneg_iff div_less_iff_less_mult)
  show "0 \<le> tm_sec (gmtime t)" "tm_sec (gmtime t) < 60" "0 \<le> tm_min (gmtime t)" "tm_min (gmtime t) < 60"
    "0 \<le> tm_hour (gmtime t)" "tm_hour (gmtime t) < 24" "0 \<le> tm_wday (gmtime t)" "tm_wday (gmtime t) < 7"
    "1 \<le> tm_mday (gmtime t)" "tm_mday (gmtime t) \<le> 31" "0 \<le> tm_mon (gmtime t)" "tm_mon (gmtime t) < 12"
    unfolding tm using m hms by simp_all
  show "86400 * days_of (1900 + tm_year (gmtime t)) (tm_mon (gmtime t)) (tm_mday (gmtime t)) +
      3600 * tm_hour (gmtime t) + 60 * tm_min (gmtime t) + tm_sec (gmtime t) = t"
  proof -
    define mday where "mday = r - (153 * mp + 2) div 5 + 1"
    have hour: "3600 * (s div 3600) + 60 * (s div 60 mod 60) + s mod 60 = s"
    proof -
      have "s div 3600 = s div 60 div 60" by (simp add: zdiv_zmult2_eq [symmetric])
      moreover have "60 * (s div 60 div 60) + s div 60 mod 60 = s div 60" "60 * (s div 60) + s mod 60 = s" by simp_all
      ultimately show ?thesis by linarith
    qed
    have "days_of (if mp < 10 then y else y + 1) (if mp < 10 then mp + 2 else mp - 10) mday = t div 86400"
    proof (cases "mp < 10")
      case True
      then have "(mp + 2 + 10) mod 12 = mp" "\<not> mp + 2 < 2" using m(1) by simp_all
      then show ?thesis using True r(3) by (simp add: days_of_def mday_def Let_def)
    next
      case False
      then have "mp - 10 < 2" using m(2) by simp
      then show ?thesis using False r(3) m(1,2) by (simp add: days_of_def mday_def Let_def)
    qed
    then have date: "days_of (1900 + ((if mp < 10 then y else y + 1) - 1900)) (if mp < 10 then mp + 2 else mp - 10)
        (r - (153 * mp + 2) div 5 + 1) = t div 86400" by (simp add: mday_def)
    have "86400 * (t div 86400) + s = t" by (simp add: s_def)
    then have "86400 * (t div 86400) + (3600 * (s div 3600) + 60 * (s div 60 mod 60) + s mod 60) = t"
      unfolding hour .
    then show ?thesis unfolding tm tm.simps date by (simp only: add.assoc)
  qed
qed

text \<open>The seconds a date of HTTP stands for.\<close>

definition read_date :: "string \<Rightarrow> int" where
  "read_date s =
    (let number = (\<lambda>n t. int (digits_value (take n t)));
         year = takeWhile isdigit (drop 12 s); clock = dropWhile isdigit (drop 12 s);
         mon = length (takeWhile (\<lambda>m. m \<noteq> take 3 (drop 8 s)) month_names)
     in 86400 * days_of (int (digits_value year)) (int mon) (number 2 (drop 5 s)) +
        3600 * number 2 (drop 1 clock) + 60 * number 2 (drop 4 clock) + number 2 (drop 7 clock))"

lemma pad2_list: "list_all (\<lambda>n. length (pad2 (int n)) = 2 \<and> digits_value (pad2 (int n)) = n) [0..<100]"
  by code_simp

lemma pad2_value:
  assumes "0 \<le> n" "n < 100"
  obtains a b where "pad2 n = [a, b]" "int (digits_value [a, b]) = n"
proof -
  have "nat n \<in> set [0..<100]" using assms by auto
  with pad2_list have "length (pad2 (int (nat n))) = 2" "digits_value (pad2 (int (nat n))) = nat n"
    unfolding list_all_iff by blast+
  with assms that show ?thesis by (auto simp: length_Suc_conv numeral_2_eq_2)
qed

lemma names_list:
  "list_all (\<lambda>n. length (wday_names ! n) = 3) [0..<7]"
  "list_all (\<lambda>n. length (month_names ! n) = 3 \<and> length (takeWhile (\<lambda>m. m \<noteq> month_names ! n) month_names) = n) [0..<12]"
  by code_simp+

lemma name3: "length s = 3 \<Longrightarrow> \<exists>a b c. s = [a, b, c]"
  by (auto simp: length_Suc_conv numeral_3_eq_3)

lemma clock_range:
  assumes "tp_min \<le> t" "t \<le> tp_max"
  shows "0 \<le> 1900 + tm_year (gmtime (to_time_t t))"
proof -
  let ?days = "to_time_t t div 86400"
  obtain y r where yr: "day_of_year ?days = (y, r)" by force
  have "- 9223372037 \<le> to_time_t t"
  proof (cases "0 \<le> t")
    case True
    then have "0 \<le> t div 10 ^ 9" by (simp add: pos_imp_zdiv_nonneg_iff)
    with True show ?thesis by (simp add: to_time_t_def duration_seconds_def)
  next
    case False
    have "(- t) div 10 ^ 9 \<le> 2 ^ 63 div 10 ^ 9" using assms(1) by (intro zdiv_mono1) (simp_all add: tp_min_def)
    with False show ?thesis by (simp add: to_time_t_def duration_seconds_def)
  qed
  then have "- 9223372037 div 86400 \<le> ?days" by (intro zdiv_mono1) simp_all
  then have "- 117770 \<le> ?days - 11017" by simp
  then have "- 117770 div 146097 \<le> (?days - 11017) div 146097" by (intro zdiv_mono1) simp_all
  with day_of_year(4) [OF yr] have "1600 \<le> y" by simp
  then show ?thesis by (simp add: gmtime_def Let_def yr)
qed



end
