(* ===== verification/Range.thy ===== *)
theory Range
  imports Prelude
begin

text \<open>
  \<open>src/libs/http-router/src/range.cc\<close> and \<open>range.hh\<close>: the parser of the \<open>Range\<close> request
  header. Sizes and offsets are \<open>std::uint64_t\<close>, kept as 64-bit words: \<open>size - 1\<close> wraps for an
  empty file and \<open>size - result.end\<close> wraps for a suffix longer than the file. The lemmas show
  which ranges come out (bounds), and that the comma loop is a cut at every comma.
\<close>

section \<open>Types\<close>

record range_type =
  r_start :: u64
  r_end :: u64

datatype range_field = Present | Absent | Invalid

section \<open>Parsing\<close>

text \<open>
  \<open>parse\<close>: \<open>std::from_chars\<close> for an unsigned 64-bit integer reads a prefix of decimal digits;
  the call succeeds when there is one, its value fits, and nothing follows it.
\<close>

definition parse :: "string \<Rightarrow> u64 option" where
  "parse data =
    (if data \<noteq> [] \<and> list_all isdigit data \<and> int (digits_value data) < 2 ^ 64
     then Some (of_nat (digits_value data)) else None)"

definition clamp_range :: "u64 \<Rightarrow> range_type \<Rightarrow> range_type option" where
  "clamp_range sz result =
    (let result = (if r_end result > sz - 1 then result\<lparr>r_end := sz - 1\<rparr> else result)
     in if r_start result \<le> r_end result then Some result else None)"

text \<open>The result is \<open>Some\<close> where the code returns \<open>present\<close>, \<open>None\<close> for \<open>invalid\<close>.\<close>

definition parse_byte_range :: "u64 \<Rightarrow> string \<Rightarrow> range_type option" where
  "parse_byte_range sz data =
    (case sv_find CHR ''-'' data of
       None \<Rightarrow> None
     | Some pos \<Rightarrow>
         let start_text = take pos data; end_text = drop (pos + 1) data in
         if pos = 0 then
           (case parse end_text of
              None \<Rightarrow> None
            | Some e \<Rightarrow> clamp_range sz \<lparr>r_start = sz - e, r_end = sz - 1\<rparr>)
         else if pos = length data - 1 then
           (case parse start_text of
              None \<Rightarrow> None
            | Some b \<Rightarrow> clamp_range sz \<lparr>r_start = b, r_end = sz - 1\<rparr>)
         else
           (case parse start_text of
              None \<Rightarrow> None
            | Some b \<Rightarrow>
                (case parse end_text of
                   None \<Rightarrow> None
                 | Some e \<Rightarrow> clamp_range sz \<lparr>r_start = b, r_end = e\<rparr>)))"

fun strip_back :: "string \<Rightarrow> string" where
  "strip_back s = (if s \<noteq> [] \<and> isspace (last s) then strip_back (butlast s) else s)"

fun strip_front :: "string \<Rightarrow> string" where
  "strip_front [] = []"
| "strip_front (c # s) = (if isspace c then strip_front s else c # s)"

declare strip_back.simps [simp del]

definition strip :: "string \<Rightarrow> string" where
  "strip s = strip_front (strip_back s)"

definition push_range :: "u64 \<Rightarrow> string \<Rightarrow> range_type list \<Rightarrow> range_type list" where
  "push_range sz data result =
    (case parse_byte_range sz data of Some r \<Rightarrow> result @ [r] | None \<Rightarrow> result)"

lemma strip_front_dropWhile: "strip_front s = dropWhile isspace s"
  by (induction s) auto

lemma strip_back_rev: "strip_back s = rev (dropWhile isspace (rev s))"
proof (induction s rule: rev_induct)
  case Nil
  then show ?case by (simp add: strip_back.simps)
next
  case (snoc c s)
  then show ?case by (subst strip_back.simps) simp
qed

lemma length_strip: "length (strip s) \<le> length s"
proof -
  have "length (strip s) \<le> length (strip_back s)"
    unfolding strip_def strip_front_dropWhile by (rule length_dropWhile_le)
  also have "\<dots> \<le> length s"
    unfolding strip_back_rev using length_dropWhile_le [of isspace "rev s"] by simp
  finally show ?thesis .
qed

function ranges_loop :: "u64 \<Rightarrow> string \<Rightarrow> range_type list \<Rightarrow> range_type list" where
  "ranges_loop sz header result =
    (case sv_find CHR '','' header of
       None \<Rightarrow> push_range sz (strip header) result
     | Some pos \<Rightarrow> ranges_loop sz (strip (drop (pos + 1) header))
         (push_range sz (strip (take pos header)) result))"
  by pat_completeness auto
termination
proof (relation "measure (\<lambda>(sz, header, result). length header)", goal_cases)
  case 1
  then show ?case by simp
next
  case (2 sz header result pos)
  then have "pos < length header" by (rule sv_find_bound)
  then show ?case using length_strip [of "drop (pos + 1) header"] by simp
qed

declare ranges_loop.simps [simp del]

definition parse_byte_ranges :: "u64 \<Rightarrow> string \<Rightarrow> range_field \<times> range_type list" where
  "parse_byte_ranges sz header =
    (case sv_find CHR ''='' header of
       None \<Rightarrow> (Invalid, [])
     | Some pos \<Rightarrow>
         if strip (take pos header) \<noteq> ''bytes'' then (Invalid, [])
         else
           let result = ranges_loop sz (strip (drop (pos + 1) header)) []
           in (if result = [] then Invalid else Present, result))"

text \<open>The overload on a request: \<open>value\<close> is the \<open>Range\<close> field, if the request has one.\<close>

definition parse_request_ranges :: "u64 \<Rightarrow> string option \<Rightarrow> range_field \<times> range_type list" where
  "parse_request_ranges sz value =
    (case value of None \<Rightarrow> (Absent, []) | Some header \<Rightarrow> parse_byte_ranges sz header)"

section \<open>Which ranges come out\<close>

definition range_in :: "u64 \<Rightarrow> range_type \<Rightarrow> bool" where
  "range_in sz r \<longleftrightarrow> r_start r \<le> r_end r \<and> r_end r \<le> sz - 1"

lemma clamp_range_in: "clamp_range sz r = Some r' \<Longrightarrow> range_in sz r'"
  by (auto simp: clamp_range_def range_in_def Let_def split: if_splits)

lemma parse_byte_range_in: "parse_byte_range sz data = Some r \<Longrightarrow> range_in sz r"
  by (auto simp: parse_byte_range_def Let_def intro: clamp_range_in split: option.splits if_splits)

lemma push_range_in:
  "(\<And>r. r \<in> set rs \<Longrightarrow> range_in sz r) \<Longrightarrow> r \<in> set (push_range sz data rs) \<Longrightarrow> range_in sz r"
  by (auto simp: push_range_def intro: parse_byte_range_in split: option.splits)

lemma ranges_loop_in:
  "(\<And>r. r \<in> set rs \<Longrightarrow> range_in sz r) \<Longrightarrow> r \<in> set (ranges_loop sz header rs) \<Longrightarrow> range_in sz r"
proof (induction sz header rs arbitrary: r rule: ranges_loop.induct)
  case (1 sz header rs)
  show ?case
  proof (cases "sv_find CHR '','' header")
    case None
    with 1 show ?thesis
      by (subst (asm) ranges_loop.simps) (auto intro: push_range_in)
  next
    case (Some pos)
    with 1(3) have "r \<in> set (ranges_loop sz (strip (drop (pos + 1) header))
        (push_range sz (strip (take pos header)) rs))"
      by (subst (asm) ranges_loop.simps) simp
    with 1(1) [OF Some] 1(2) show ?thesis by (blast intro: push_range_in)
  qed
qed

lemma word_pred_less: "0 < sz \<Longrightarrow> x \<le> sz - 1 \<longleftrightarrow> x < (sz :: u64)"
  by (auto simp: less_eq_dec_iff)

section \<open>The comma loop\<close>

lemma strip_all_space: "list_all isspace s \<Longrightarrow> strip s = []"
  by (simp add: strip_def strip_front_dropWhile strip_back_rev list_all_iff)
    (auto dest: set_dropWhileD)

lemma strip_Cons_space: "isspace c \<Longrightarrow> strip (c # s) = strip s"
proof (cases "list_all isspace s")
  case True
  assume "isspace c"
  with True show ?thesis by (simp add: strip_all_space)
next
  case False
  assume c: "isspace c"
  from False obtain x where "x \<in> set (rev s)" "\<not> isspace x" by (auto simp: list_all_iff)
  then have "dropWhile isspace (rev s @ [c]) = dropWhile isspace (rev s) @ [c]"
    by (rule dropWhile_append1)
  with c show ?thesis by (simp add: strip_def strip_front_dropWhile strip_back_rev)
qed

lemma strip_snoc_space: "isspace c \<Longrightarrow> strip (s @ [c]) = strip s"
  by (simp add: strip_def strip_back.simps [of "s @ [c]"])

lemma not_isspace_comma: "isspace c \<Longrightarrow> c \<noteq> CHR '',''"
  by (auto simp: isspace_def)

lemma split_on_snoc: "c \<noteq> d \<Longrightarrow> split_on d (s @ [c]) = butlast (split_on d s) @ [last (split_on d s) @ [c]]"
  by (induction s) (auto split: list.splits)

abbreviation strip_pieces :: "string \<Rightarrow> string list" where
  "strip_pieces s \<equiv> map strip (split_on CHR '','' s)"

lemma strip_pieces_Cons: "isspace c \<Longrightarrow> strip_pieces (c # s) = strip_pieces s"
  by (auto simp: strip_Cons_space dest: not_isspace_comma split: list.splits)

lemma strip_pieces_snoc: "isspace c \<Longrightarrow> strip_pieces (s @ [c]) = strip_pieces s"
proof -
  assume c: "isspace c"
  have "split_on CHR '','' s = butlast (split_on CHR '','' s) @ [last (split_on CHR '','' s)]"
    by simp
  then have "strip_pieces s = map strip (butlast (split_on CHR '','' s)) @ [strip (last (split_on CHR '','' s))]"
    by (metis list.map(1,2) map_append)
  with c show ?thesis
    using not_isspace_comma [OF c] by (simp add: split_on_snoc strip_snoc_space)
qed

lemma strip_pieces_front: "strip_pieces (strip_front s) = strip_pieces s"
  by (induction s) (auto simp: strip_pieces_Cons simp del: split_on.simps(2))

lemma strip_pieces_back: "strip_pieces (strip_back s) = strip_pieces s"
proof (induction s rule: rev_induct)
  case Nil
  then show ?case by (simp add: strip_back.simps)
next
  case (snoc c s)
  then show ?case by (subst strip_back.simps) (simp add: strip_pieces_snoc)
qed

lemma strip_pieces_strip: "strip_pieces (strip s) = strip_pieces s"
  by (simp only: strip_def strip_pieces_front strip_pieces_back)

definition ranges_spec :: "u64 \<Rightarrow> string \<Rightarrow> range_type list" where
  "ranges_spec sz s = List.map_filter (parse_byte_range sz) (strip_pieces s)"

lemma ranges_spec_strip: "ranges_spec sz (strip s) = ranges_spec sz s"
  by (simp only: ranges_spec_def strip_pieces_strip)

lemma ranges_spec_last:
  "CHR '','' \<notin> set s \<Longrightarrow> ranges_spec sz s = push_range sz (strip s) []"
  by (simp add: ranges_spec_def split_on_none push_range_def map_filter_simps split: option.splits)

lemma ranges_spec_comma:
  "CHR '','' \<notin> set s \<Longrightarrow> ranges_spec sz (s @ CHR '','' # t) = push_range sz (strip s) [] @ ranges_spec sz t"
  by (simp add: ranges_spec_def split_on_stop push_range_def map_filter_simps split: option.splits)

lemma push_range_append: "push_range sz data rs = rs @ push_range sz data []"
  by (simp add: push_range_def split: option.splits)

lemma ranges_loop_spec: "ranges_loop sz header rs = rs @ ranges_spec sz header"
proof (induction sz header rs rule: ranges_loop.induct)
  case (1 sz header rs)
  show ?case
  proof (cases "sv_find CHR '','' header")
    case None
    then have "CHR '','' \<notin> set header" by (simp add: sv_find_None)
    with None show ?thesis
      by (subst ranges_loop.simps) (simp add: ranges_spec_last push_range_append [of _ _ rs])
  next
    case (Some pos)
    then have split: "header = take pos header @ CHR '','' # drop (Suc pos) header"
      and free: "CHR '','' \<notin> set (take pos header)"
      using sv_find_split [OF Some] by auto
    have "ranges_loop sz header rs =
        push_range sz (strip (take pos header)) rs @ ranges_spec sz (drop (Suc pos) header)"
      using 1 [OF Some] Some by (subst ranges_loop.simps) (simp add: ranges_spec_strip)
    also have "\<dots> = rs @ ranges_spec sz header"
      by (subst (2) split) (simp add: ranges_spec_comma [OF free] push_range_append [of _ _ rs])
    finally show ?thesis .
  qed
qed

section \<open>One range, by its shape\<close>

lemma dec_no_char: "\<not> isdigit c \<Longrightarrow> c \<notin> set (dec n)"
  using dec_isdigit by blast

lemma dec_no_dash: "CHR ''-'' \<notin> set (dec n)"
  by (rule dec_no_char) (simp add: isdigit_def)

lemma parse_dec: "parse (dec n) = (if n < 2 ^ 64 then Some (of_nat n) else None)"
  by (auto simp: parse_def dec_nonempty digits_value_dec list_all_iff dest: dec_isdigit)

lemma find_dash: "sv_find CHR ''-'' (dec a @ CHR ''-'' # t) = Some (length (dec a))"
  by (rule sv_find_append) (rule dec_no_dash)

lemma parse_byte_range_closed:
  assumes "a < 2 ^ 64" "b < 2 ^ 64"
  shows "parse_byte_range sz (dec a @ ''-'' @ dec b) =
    clamp_range sz \<lparr>r_start = of_nat a, r_end = of_nat b\<rparr>"
  using assms find_dash [of a "dec b"] dec_nonempty [of a] dec_nonempty [of b]
  by (auto simp: parse_byte_range_def parse_dec Let_def)

lemma parse_byte_range_open:
  assumes "a < 2 ^ 64"
  shows "parse_byte_range sz (dec a @ ''-'') =
    clamp_range sz \<lparr>r_start = of_nat a, r_end = sz - 1\<rparr>"
  using assms find_dash [of a "[]"] dec_nonempty [of a]
  by (auto simp: parse_byte_range_def parse_dec Let_def)

lemma parse_byte_range_suffix:
  assumes "n < 2 ^ 64"
  shows "parse_byte_range sz (''-'' @ dec n) =
    clamp_range sz \<lparr>r_start = sz - of_nat n, r_end = sz - 1\<rparr>"
  using assms by (simp add: parse_byte_range_def parse_dec)

lemma suffix_too_long: "sz < n \<Longrightarrow> sz - 1 < sz - (n :: u64) \<or> sz = 0"
  by unat_arith

lemma parsed_range_in: "r \<in> set (snd (parse_request_ranges sz header)) \<Longrightarrow> range_in sz r"
  using ranges_loop_in [of "[]" sz r]
  by (auto simp: parse_request_ranges_def parse_byte_ranges_def Let_def split: option.splits if_splits)

lemma range_in_file: "0 < sz \<Longrightarrow> range_in sz r \<Longrightarrow> r_start r \<le> r_end r \<and> r_end r < sz"
  using word_pred_less [of sz] by (simp add: range_in_def)

section \<open>Properties\<close>

text \<open>C24: A \<open>Range\<close> header is read as its specification says: \<open>absent\<close> without the field, \<open>invalid\<close>
  without \<open>=\<close> or with a unit other than \<open>bytes\<close>, otherwise the valid ranges among the pieces
  between the commas, in order, and \<open>invalid\<close> when there is none.\<close>

theorem parse_ranges_correct:
  "parse_request_ranges sz None = (Absent, []) \<and>
   parse_request_ranges sz (Some header) =
    (if CHR ''='' \<in> set header \<and> strip (takeWhile (\<lambda>c. c \<noteq> CHR ''='') header) = ''bytes''
     then let rs = ranges_spec sz (tl (dropWhile (\<lambda>c. c \<noteq> CHR ''='') header))
          in (if rs = [] then Invalid else Present, rs)
     else (Invalid, []))"
proof (cases "CHR ''='' \<in> set header")
  case True
  then obtain unit rest where header: "header = unit @ CHR ''='' # rest" "CHR ''='' \<notin> set unit"
    by (meson split_list_first)
  then show ?thesis
    by (simp add: parse_request_ranges_def parse_byte_ranges_def sv_simps Let_def ranges_loop_spec
        ranges_spec_strip)
qed (simp add: parse_request_ranges_def parse_byte_ranges_def sv_find_None [THEN iffD2])

text \<open>C13: Every range handed to the handler lies inside the file: first byte not behind the last, last
  byte before the size, for a file that is not empty.\<close>

theorem ranges_inside:
  assumes "0 < sz" "r \<in> set (snd (parse_request_ranges sz header))"
  shows "r_start r \<le> r_end r \<and> r_end r < sz"
  by (rule range_in_file [OF assms(1) parsed_range_in [OF assms(2)]])

theorem ranges_inside_witness:
  "(0 :: u64) \<le> 9 \<and> (9 :: u64) < 10"
proof -
  have "\<lparr>r_start = 0, r_end = 9\<rparr> \<in> set (snd (parse_request_ranges 10 (Some ''bytes=0-99'')))" by code_simp
  with ranges_inside [of 10 "\<lparr>r_start = 0, r_end = 9\<rparr>" "Some ''bytes=0-99''"] show ?thesis by simp
qed

text \<open>The three forms of a range: \<open>a-b\<close> is cut at the last byte, \<open>a-\<close> goes to it, \<open>-n\<close> is the
  last \<open>n\<close> bytes; a range that starts behind the end is dropped.\<close>

theorem single_range:
  assumes "0 < sz" "sz < 2 ^ 64" "a < 2 ^ 64" "b < 2 ^ 64" "0 < n" "n \<le> sz"
  shows "parse_byte_range (of_nat sz) (dec a @ ''-'' @ dec b) =
      (if a < sz \<and> a \<le> b then Some \<lparr>r_start = of_nat a, r_end = of_nat (min b (sz - 1))\<rparr> else None) \<and>
    parse_byte_range (of_nat sz) (dec a @ ''-'') =
      (if a < sz then Some \<lparr>r_start = of_nat a, r_end = of_nat (sz - 1)\<rparr> else None) \<and>
    parse_byte_range (of_nat sz) (''-'' @ dec n) =
      Some \<lparr>r_start = of_nat (sz - n), r_end = of_nat (sz - 1)\<rparr>"
proof -
  have pred: "(of_nat sz :: u64) - 1 = of_nat (sz - 1)" "(of_nat sz :: u64) - of_nat n = of_nat (sz - n)"
    using assms by (simp_all add: of_nat_diff)
  have clamp: "clamp_range (of_nat sz) \<lparr>r_start = of_nat x, r_end = of_nat y\<rparr> =
      (if x \<le> min y (sz - 1) then Some \<lparr>r_start = of_nat x, r_end = of_nat (min y (sz - 1))\<rparr> else None)"
    if "x < 2 ^ 64" "y < 2 ^ 64" for x y
    using that assms(1,2)
    by (simp add: clamp_range_def Let_def pred word_less_nat_alt word_le_nat_alt unat_of_nat_small min_def
        del: of_nat_diff)
  have bounds: "sz - 1 < 2 ^ 64" "sz - n < 2 ^ 64" "n < 2 ^ 64" using assms by simp_all
  show ?thesis
    unfolding parse_byte_range_closed [OF assms(3,4)] parse_byte_range_open [OF assms(3)]
      parse_byte_range_suffix [OF bounds(3)] pred clamp [OF assms(3,4)] clamp [OF assms(3) bounds(1)]
      clamp [OF bounds(2,1)]
    using assms by auto
qed

theorem single_range_witness:
  "parse_byte_range 10 ''2-99'' = Some \<lparr>r_start = 2, r_end = 9\<rparr> \<and>
   parse_byte_range 10 ''-4'' = Some \<lparr>r_start = 6, r_end = 9\<rparr>"
proof -
  have "dec 2 = ''2''" "dec 99 = ''99''" "dec 4 = ''4''" by code_simp+
  with single_range [of 10 2 99 4] show ?thesis by simp
qed

end
