(* ===== verification/File_Body.thy ===== *)
theory File_Body
  imports Prelude
begin

text \<open>
  \<open>beast/patched/basic_file_body.hh\<close>: the body type for files, with the fragment that a range
  request selects. The template argument \<open>File\<close> (a Beast file class, not part of the library)
  is a record of operations on a state of any type; what the code relies on is the predicate
  \<open>reads_content\<close>. The main result is that the writer delivers exactly the bytes of the fragment,
  whatever amounts the file hands out (\<open>drain_fragment\<close>).
\<close>

section \<open>The file interface\<close>

datatype file_mode = Scan | Read_mode | Write_mode

record ('f, 'e) file_ops =
  fo_open :: "string \<Rightarrow> file_mode \<Rightarrow> 'f \<Rightarrow> 'e option \<times> 'f"
  fo_is_open :: "'f \<Rightarrow> bool"
  fo_close :: "'f \<Rightarrow> 'f"
  fo_size :: "'f \<Rightarrow> u64 \<times> 'e option"
  fo_seek :: "u64 \<Rightarrow> 'f \<Rightarrow> 'e option \<times> 'f"
  fo_read :: "size_t \<Rightarrow> 'f \<Rightarrow> ('e + string) \<times> 'f"
  fo_write :: "string \<Rightarrow> 'f \<Rightarrow> (size_t \<times> 'e option) \<times> 'f"

section \<open>value_type\<close>

text \<open>\<open>first_\<close> and \<open>last_\<close> have no initializer: they are set by \<open>open\<close>, \<open>reset\<close> or \<open>fragment\<close>.\<close>

record 'f value_type =
  vt_file :: 'f
  vt_size :: u64
  vt_first :: u64
  vt_last :: u64

definition vt_close :: "('f, 'e) file_ops \<Rightarrow> 'f value_type \<Rightarrow> 'f value_type" where
  "vt_close ops b = b\<lparr>vt_file := fo_close ops (vt_file b)\<rparr>"

definition vt_open ::
  "('f, 'e) file_ops \<Rightarrow> string \<Rightarrow> file_mode \<Rightarrow> 'f value_type \<Rightarrow> 'e option \<times> 'f value_type" where
  "vt_open ops path md b =
    (case fo_open ops path md (vt_file b) of
       (Some e, f) \<Rightarrow> (Some e, b\<lparr>vt_file := f\<rparr>)
     | (None, f) \<Rightarrow>
         (case fo_size ops f of
            (n, Some e) \<Rightarrow> (Some e, vt_close ops (b\<lparr>vt_file := f, vt_size := n\<rparr>))
          | (n, None) \<Rightarrow> (None, b\<lparr>vt_file := f, vt_size := n, vt_first := 0, vt_last := n\<rparr>)))"

definition vt_fragment :: "u64 \<Rightarrow> u64 \<Rightarrow> 'f value_type \<Rightarrow> 'f value_type" where
  "vt_fragment start stop b = b\<lparr>vt_first := start, vt_last := stop\<rparr>"

definition vt_reset :: "('f, 'e) file_ops \<Rightarrow> 'f \<Rightarrow> 'f value_type \<Rightarrow> 'e option \<times> 'f value_type" where
  "vt_reset ops file b =
    (let b = (if fo_is_open ops (vt_file b) then vt_close ops b else b);
         b = b\<lparr>vt_file := file\<rparr>
     in if fo_is_open ops (vt_file b) then
          (case fo_size ops (vt_file b) of
             (n, Some e) \<Rightarrow> (Some e, vt_close ops (b\<lparr>vt_size := n\<rparr>))
           | (n, None) \<Rightarrow> (None, b\<lparr>vt_size := n, vt_first := 0, vt_last := n\<rparr>))
        else (None, b))"

definition payload_size :: "'f value_type \<Rightarrow> u64" where
  "payload_size b = vt_size b"

section \<open>writer\<close>

record writer =
  w_pos :: u64
  w_remain :: u64

definition writer_make :: "'f value_type \<Rightarrow> writer" where
  "writer_make b = \<lparr>w_pos = vt_first b, w_remain = vt_last b - vt_first b\<rparr>"

datatype 'e io_error = Io 'e | Short_read

definition buf_size :: nat where
  "buf_size = 4096"

definition writer_init :: "'e option \<Rightarrow> 'e option" where
  "writer_init ec = None"

text \<open>
  One call of \<open>get\<close>: an error, no buffer, or a buffer and whether there are more. The two
  assertions on \<open>nread\<close> are what the next state is computed under.
\<close>

definition writer_get ::
  "('f, 'e) file_ops \<Rightarrow> writer \<Rightarrow> 'f \<Rightarrow> ('e io_error + (string \<times> bool) option) \<times> writer \<times> 'f" where
  "writer_get ops w f =
    (let amount = (if w_remain w > of_nat buf_size then buf_size else unat (w_remain w))
     in if amount = 0 then (Inr None, w, f)
        else
          case fo_seek ops (w_pos w) f of
            (Some e, f) \<Rightarrow> (Inl (Io e), w, f)
          | (None, f) \<Rightarrow>
              (case fo_read ops amount f of
                 (Inl e, f) \<Rightarrow> (Inl (Io e), w, f)
               | (Inr bytes, f) \<Rightarrow>
                   if bytes = [] then (Inl Short_read, w, f)
                   else
                     let w' = w\<lparr>w_pos := w_pos w + of_nat (length bytes),
                                w_remain := w_remain w - of_nat (length bytes)\<rparr>
                     in (Inr (Some (bytes, 0 < w_remain w')), w', f)))"

section \<open>reader\<close>

text \<open>The length of the body is not used: the file grows as it is written.\<close>

definition reader_init :: "u64 option \<Rightarrow> 'e option \<Rightarrow> 'e option" where
  "reader_init content_length ec = None"

definition reader_finish :: "'e option \<Rightarrow> 'e option" where
  "reader_finish ec = None"

text \<open>\<open>put\<close>: the buffers are written in order until one fails.\<close>

fun reader_put :: "('f, 'e) file_ops \<Rightarrow> string list \<Rightarrow> size_t \<Rightarrow> 'f \<Rightarrow> (size_t \<times> 'e option) \<times> 'f" where
  "reader_put ops [] nwritten f = ((nwritten, None), f)"
| "reader_put ops (buffer # buffers) nwritten f =
    (case fo_write ops buffer f of
       ((n, Some e), f) \<Rightarrow> ((nwritten + n, Some e), f)
     | ((n, None), f) \<Rightarrow> reader_put ops buffers (nwritten + n) f)"

section \<open>Reading a whole body\<close>

text \<open>
  A serializer calls \<open>get\<close> until there is no buffer or no more of them; \<open>fuel\<close> bounds the number
  of calls. The result is \<open>None\<close> when the fuel is used up.
\<close>

fun drain :: "('f, 'e) file_ops \<Rightarrow> nat \<Rightarrow> writer \<Rightarrow> 'f \<Rightarrow> ('e io_error + string) option" where
  "drain ops 0 w f = None"
| "drain ops (Suc fuel) w f =
    (case writer_get ops w f of
       (Inl e, w', f') \<Rightarrow> Some (Inl e)
     | (Inr None, w', f') \<Rightarrow> Some (Inr [])
     | (Inr (Some (bytes, again)), w', f') \<Rightarrow>
         if again then map_option (map_sum id (\<lambda>rest. bytes @ rest)) (drain ops fuel w' f')
         else Some (Inr bytes))"

text \<open>
  What the writer relies on: the file has a content, a seek inside it succeeds, and a read there
  returns at least one and at most \<open>amount\<close> of the bytes that follow. \<open>R f p\<close> stands for \<open>f\<close> being
  open at position \<open>p\<close>.
\<close>

definition reads_content ::
  "('f, 'e) file_ops \<Rightarrow> ('f \<Rightarrow> bool) \<Rightarrow> ('f \<Rightarrow> nat \<Rightarrow> bool) \<Rightarrow> string \<Rightarrow> bool" where
  "reads_content ops ok at_pos content \<longleftrightarrow>
    (\<forall>f p. ok f \<longrightarrow> p < length content \<longrightarrow>
      fst (fo_seek ops (of_nat p) f) = None \<and> at_pos (snd (fo_seek ops (of_nat p) f)) p) \<and>
    (\<forall>f p n. at_pos f p \<longrightarrow> p < length content \<longrightarrow> 0 < n \<longrightarrow>
      (\<exists>k f'. 0 < k \<and> k \<le> n \<and> p + k \<le> length content \<and>
        fo_read ops n f = (Inr (take k (drop p content)), f') \<and> ok f'))"

definition get_amount :: "writer \<Rightarrow> nat" where
  "get_amount w = (if w_remain w > of_nat buf_size then buf_size else unat (w_remain w))"

lemma writer_get_bytes:
  assumes "get_amount w \<noteq> 0" "fo_seek ops (w_pos w) f = (None, f1)"
    "fo_read ops (get_amount w) f1 = (Inr bytes, f2)" "bytes \<noteq> []"
  shows "writer_get ops w f =
    (Inr (Some (bytes, 0 < w_remain w - of_nat (length bytes))),
     \<lparr>w_pos = w_pos w + of_nat (length bytes), w_remain = w_remain w - of_nat (length bytes)\<rparr>, f2)"
  using assms by (cases w) (simp add: writer_get_def Let_def get_amount_def split del: if_split)

lemma writer_get_content:
  assumes rd: "reads_content ops ok at_pos content" and f: "ok f"
    and pos: "unat (w_pos w) + unat (w_remain w) \<le> length content" "length content < 2 ^ 64" "0 < w_remain w"
  obtains k f' where "0 < k" "k \<le> unat (w_remain w)" "ok f'"
    "writer_get ops w f =
      (Inr (Some (take k (drop (unat (w_pos w)) content), k < unat (w_remain w))),
       \<lparr>w_pos = of_nat (unat (w_pos w) + k), w_remain = of_nat (unat (w_remain w) - k)\<rparr>, f')"
proof -
  let ?p = "unat (w_pos w)" and ?r = "unat (w_remain w)"
  let ?amount = "get_amount w"
  have r: "0 < ?r" using pos(3) by (simp add: word_less_nat_alt)
  have "(of_nat buf_size :: u64) = 4096" by (simp add: buf_size_def)
  then have amount: "0 < ?amount" "?amount \<le> ?r"
    using r by (auto simp: get_amount_def buf_size_def word_less_nat_alt)
  have "?p < length content" using pos(1) r by simp
  moreover have "of_nat ?p = w_pos w" by simp
  ultimately obtain f1 where seek: "fo_seek ops (w_pos w) f = (None, f1)" "at_pos f1 ?p"
    using rd f unfolding reads_content_def by (metis prod.collapse)
  with rd \<open>?p < length content\<close> amount(1) obtain k f2
    where k: "0 < k" "k \<le> ?amount" "?p + k \<le> length content"
      "fo_read ops ?amount f1 = (Inr (take k (drop ?p content)), f2)" "ok f2"
    unfolding reads_content_def by blast
  have len: "length (take k (drop ?p content)) = k" using k(3) by simp
  then have nonempty: "take k (drop ?p content) \<noteq> []" using k(1) by auto
  have kr: "k \<le> ?r" using k(2) amount(2) by simp
  have "w_pos w + of_nat k = of_nat (?p + k)" by simp
  moreover have "w_remain w - of_nat k = of_nat (?r - k)" using kr by (simp add: of_nat_diff)
  moreover have "0 < (of_nat (?r - k) :: u64) \<longleftrightarrow> k < ?r"
  proof -
    have "?r - k < 2 ^ 64" using unsigned_less [where 'a = nat, of "w_remain w"] by simp
    then have "unat (of_nat (?r - k) :: u64) = ?r - k" by (simp add: unat_of_nat take_bit_nat_eq_self)
    then show ?thesis by (simp add: word_less_nat_alt)
  qed
  ultimately have "writer_get ops w f =
      (Inr (Some (take k (drop ?p content), k < ?r)),
       \<lparr>w_pos = of_nat (?p + k), w_remain = of_nat (?r - k)\<rparr>, f2)"
    using writer_get_bytes [OF _ seek(1) k(4) nonempty] amount(1) unfolding len by simp
  with k(1) kr k(5) that show ?thesis by blast
qed

lemma drain_content:
  assumes rd: "reads_content ops ok at_pos content" and len: "length content < 2 ^ 64"
  shows "ok f \<Longrightarrow> unat (w_pos w) + unat (w_remain w) \<le> length content \<Longrightarrow> unat (w_remain w) < fuel \<Longrightarrow>
    drain ops fuel w f = Some (Inr (take (unat (w_remain w)) (drop (unat (w_pos w)) content)))"
proof (induction fuel arbitrary: w f)
  case 0
  then show ?case by simp
next
  case (Suc fuel)
  let ?p = "unat (w_pos w)" and ?r = "unat (w_remain w)"
  show ?case
  proof (cases "0 < w_remain w")
    case False
    then have "w_remain w = 0" by (simp add: word_gt_0)
    then show ?thesis by (simp add: writer_get_def)
  next
    case True
    from writer_get_content [OF rd Suc.prems(1,2) len True] obtain k f' where k: "0 < k" "k \<le> ?r" "ok f'"
      "writer_get ops w f = (Inr (Some (take k (drop ?p content), k < ?r)),
         \<lparr>w_pos = of_nat (?p + k), w_remain = of_nat (?r - k)\<rparr>, f')" .
    show ?thesis
    proof (cases "k < ?r")
      case False
      with k show ?thesis by simp
    next
      case less: True
      let ?w = "\<lparr>w_pos = of_nat (?p + k), w_remain = of_nat (?r - k)\<rparr> :: writer"
      have small: "?p + k < 2 ^ 64" "?r - k < 2 ^ 64" using Suc.prems(2) len k(2) by simp_all
      have "unat (w_pos ?w) = ?p + k" "unat (w_remain ?w) = ?r - k"
        using unat_of_nat_small [OF small(1)] unat_of_nat_small [OF small(2)] by simp_all
      with Suc.IH [OF k(3), of ?w] Suc.prems(2,3) k(1,2)
      have "drain ops fuel ?w f' = Some (Inr (take (?r - k) (drop (?p + k) content)))" by simp
      moreover have "take ?r (drop ?p content) = take k (drop ?p content) @ take (?r - k) (drop (?p + k) content)"
        using take_add [of k "?r - k" "drop ?p content"] k(2) by (simp add: add.commute)
      ultimately show ?thesis using k(4) less by simp
    qed
  qed
qed

lemma drain_fragment:
  assumes "reads_content ops ok at_pos content" "length content < 2 ^ 64" "ok f"
    "vt_first b \<le> vt_last b" "unat (vt_last b) \<le> length content"
  shows "drain ops (Suc (unat (vt_last b - vt_first b))) (writer_make b) f =
    Some (Inr (take (unat (vt_last b) - unat (vt_first b)) (drop (unat (vt_first b)) content)))"
proof -
  have eq: "unat (vt_last b - vt_first b) = unat (vt_last b) - unat (vt_first b)"
    using assms(4) by (rule unat_sub)
  have "unat (vt_first b) \<le> unat (vt_last b)" using assms(4) by (simp add: word_le_nat_alt)
  with assms(5) eq have "unat (w_pos (writer_make b)) + unat (w_remain (writer_make b)) \<le> length content"
    by (simp add: writer_make_def)
  from drain_content [OF assms(1,2,3) this, of "Suc (unat (vt_last b - vt_first b))"]
  show ?thesis by (simp add: writer_make_def eq del: drain.simps)
qed

section \<open>Properties\<close>

text \<open>C10: Serving a fragment of a file ends: after one call of \<open>get\<close> per byte, and one more, the
  writer of a body whose fragment lies inside the file has delivered exactly the bytes of the
  fragment, in whatever pieces the file hands them out.\<close>

theorem fragment_delivered:
  assumes "reads_content ops ok at_pos content" "length content < 2 ^ 64" "ok (vt_file b)"
    "start \<le> stop" "unat stop \<le> length content"
  shows "drain ops (Suc (unat (stop - start))) (writer_make (vt_fragment start stop b)) (vt_file b) =
    Some (Inr (take (unat stop - unat start) (drop (unat start) content)))"
  using drain_fragment [OF assms(1-3), of "vt_fragment start stop b"] assms(4,5)
  by (simp add: vt_fragment_def del: drain.simps)

text \<open>A file in memory that hands out at most three bytes at a time.\<close>

definition memory_file :: "string \<Rightarrow> (nat option, unit) file_ops" where
  "memory_file content =
    \<lparr>fo_open = (\<lambda>path md f. (None, Some 0)), fo_is_open = (\<lambda>f. f \<noteq> None), fo_close = (\<lambda>f. None),
     fo_size = (\<lambda>f. (of_nat (length content), None)),
     fo_seek = (\<lambda>p f. (None, Some (unat p))),
     fo_read = (\<lambda>n f. case f of None \<Rightarrow> (Inl (), f)
       | Some p \<Rightarrow> (let bytes = take (min n 3) (drop p content) in (Inr bytes, Some (p + length bytes)))),
     fo_write = (\<lambda>bytes f. ((0, Some ()), f))\<rparr>"

lemma memory_file_reads:
  assumes "length content < 2 ^ 64"
  shows "reads_content (memory_file content) (\<lambda>f. f \<noteq> None) (\<lambda>f p. f = Some p) content"
proof -
  have seek: "unat (of_nat p :: u64) = p" if "p < length content" for p
    using that assms by (intro unat_of_nat_small) simp
  have read: "\<exists>k f'. 0 < k \<and> k \<le> n \<and> p + k \<le> length content \<and>
      fo_read (memory_file content) n (Some p) = (Inr (take k (drop p content)), f') \<and> f' \<noteq> None"
    if "p < length content" "0 < n" for p n
    using that
    by (intro exI [of _ "min (min n 3) (length content - p)"] exI [of _ "Some (p + min (min n 3) (length content - p))"])
      (auto simp: memory_file_def Let_def min_def)
  show ?thesis
    unfolding reads_content_def
  proof (intro conjI allI impI, goal_cases)
    case (1 f p)
    then show ?case by (simp add: memory_file_def)
  next
    case (2 f p)
    then show ?case by (simp add: memory_file_def seek)
  next
    case (3 f p n)
    then show ?case using read [of p n] by simp
  qed
qed

theorem fragment_delivered_witness:
  "drain (memory_file ''0123456789'') 6
     (writer_make (vt_fragment 2 7 \<lparr>vt_file = Some (0 :: nat), vt_size = 10, vt_first = 0, vt_last = 10\<rparr>))
     (Some 0) = Some (Inr ''23456'')"
proof -
  let ?b = "\<lparr>vt_file = Some 0, vt_size = 10, vt_first = 0, vt_last = 10\<rparr> :: nat option value_type"
  have small: "length ''0123456789'' < 2 ^ 64" by (simp add: small_size)
  have six: "Suc (unat (7 - 2 :: u64)) = 6" by simp
  have part: "take (unat (7 :: u64) - unat (2 :: u64)) (drop (unat (2 :: u64)) ''0123456789'') = ''23456''"
    by simp
  have "drain (memory_file ''0123456789'') (Suc (unat (7 - 2 :: u64))) (writer_make (vt_fragment 2 7 ?b)) (vt_file ?b) =
      Some (Inr (take (unat (7 :: u64) - unat (2 :: u64)) (drop (unat (2 :: u64)) ''0123456789'')))"
    by (rule fragment_delivered [OF memory_file_reads [OF small] small]) simp_all
  then show ?thesis unfolding six part by (simp only: value_type.simps)
qed

text \<open>After \<open>open\<close> has succeeded the body covers the whole file. When it fails the offsets are as
  before, and the file has been closed unless it could not be opened.\<close>

theorem open_covers_file:
  assumes "vt_open ops path md b = (ec, b')"
  shows "case ec of
      None \<Rightarrow> vt_first b' = 0 \<and> vt_last b' = payload_size b' \<and> fo_size ops (vt_file b') = (payload_size b', None)
    | Some e \<Rightarrow> vt_first b' = vt_first b \<and> vt_last b' = vt_last b \<and>
        (let (oe, f) = fo_open ops path md (vt_file b)
         in case oe of Some e' \<Rightarrow> e' = e \<and> b' = b\<lparr>vt_file := f\<rparr>
            | None \<Rightarrow> snd (fo_size ops f) = Some e \<and> vt_file b' = fo_close ops f)"
  using assms
  by (auto simp: vt_open_def vt_close_def payload_size_def Let_def split: prod.splits option.splits)

theorem open_covers_file_witness:
  "vt_last (snd (vt_open (memory_file ''abc'') ''f'' Scan \<lparr>vt_file = None, vt_size = 0, vt_first = 7, vt_last = 5\<rparr>)) = 3"
proof -
  let ?b = "\<lparr>vt_file = None, vt_size = 0, vt_first = 7, vt_last = 5\<rparr> :: nat option value_type"
  have opened: "vt_open (memory_file ''abc'') ''f'' Scan ?b =
      (None, \<lparr>vt_file = Some 0, vt_size = 3, vt_first = 0, vt_last = 3\<rparr>)"
    by (simp add: vt_open_def memory_file_def)
  then show ?thesis using open_covers_file [OF opened] by (simp add: payload_size_def)
qed

end
