(* ===== verification/Message.thy ===== *)
theory Message
  imports Uri_Codec File_Body
begin

text \<open>
  \<open>request.hh\<close>, \<open>response.hh\<close> and \<open>response.cc\<close>: the two objects every filter and route callback
  works on, and the interface \<open>sender\<close> that takes finished messages. The Beast header a response
  builds is not part of the library: a header is the list of the calls made on it
  (\<open>header_op\<close>), and the questions the code asks it are functions of that list, fields of the
  record \<open>beast\<close>. A call that sends may change the state behind the sender and may throw; the
  state is threaded through as \<open>rs_out\<close>.
\<close>

section \<open>Requests\<close>

datatype verb = Verb_get | Verb_head | Verb_other string

datatype field = Connection | Server | Content_type | Accept_ranges | Date | Last_modified
  | Content_range | Location | Allow_origin | If_modified_since | Range_field

text \<open>What the code reads of a Beast request: its accessors.\<close>

record beast_request =
  rq_method :: verb
  rq_method_string :: string
  rq_target :: string
  rq_version :: nat
  rq_fields :: "(string \<times> string) list"
  rq_find :: "field \<Rightarrow> string option"
  rq_keep_alive :: bool

record request = beast_request +
  rq_path :: string
  rq_decoded_path :: string
  rq_query :: string
  rq_remote :: string

text \<open>The path is a view into the target: behind it lies the rest of the target, then \<open>beyond\<close>.\<close>

definition request_make :: "(nat \<Rightarrow> char) \<Rightarrow> beast_request \<Rightarrow> string \<Rightarrow> request" where
  "request_make beyond orig remote =
    (let parts = split (rq_target orig); path = fst parts
     in beast_request.extend orig
          (request.fields path
            (decoded_path (view_mem (drop (length path) (rq_target orig)) beyond) path)
            (snd parts) remote))"

section \<open>Messages\<close>

text \<open>What the process prints, in order.\<close>

datatype channel = Stdout | Stderr

type_synonym console = "(channel \<times> string) list"

datatype header_op =
    Version nat
  | Result nat
  | Set field string
  | Keep_alive bool
  | Content_length u64
  | Prepare_payload
  | Moved_from

datatype 'f body = Empty_body | String_body string | Dynamic_body string | File_body "'f value_type"

record 'f message =
  m_header :: "header_op list"
  m_body :: "'f body"

text \<open>The questions the code asks Beast, and the virtual functions of \<open>sender\<close>.\<close>

record ('f, 'w) beast =
  b_keep_alive :: "header_op list \<Rightarrow> bool"
  b_reason :: "nat \<Rightarrow> string"
  b_send :: "request \<Rightarrow> 'f message \<Rightarrow> 'w \<Rightarrow> exn + 'w"

record 'w response =
  rs_req :: request
  rs_header :: "header_op list"
  rs_out :: 'w

datatype content_length = Unset | Is_set

section \<open>Building and sending\<close>

definition status_ok :: nat where "status_ok = 200"
definition status_partial_content :: nat where "status_partial_content = 206"
definition status_moved_permanently :: nat where "status_moved_permanently = 301"
definition status_not_modified :: nat where "status_not_modified = 304"
definition status_bad_request :: nat where "status_bad_request = 400"
definition status_not_found :: nat where "status_not_found = 404"
definition status_range_not_satisfiable :: nat where "status_range_not_satisfiable = 416"
definition status_internal_server_error :: nat where "status_internal_server_error = 500"

lemmas status_defs = status_ok_def status_partial_content_def status_moved_permanently_def
  status_not_modified_def status_bad_request_def status_not_found_def
  status_range_not_satisfiable_def status_internal_server_error_def

definition response_make :: "nat \<Rightarrow> request \<Rightarrow> 'w \<Rightarrow> 'w response" where
  "response_make version req out =
    \<lparr>rs_req = req, rs_header = [Result status_ok, Version version], rs_out = out\<rparr>"

definition header_call :: "header_op \<Rightarrow> 'w response \<Rightarrow> 'w response" where
  "header_call op r = r\<lparr>rs_header := rs_header r @ [op]\<rparr>"

definition send :: "('f, 'w) beast \<Rightarrow> 'f body \<Rightarrow> content_length \<Rightarrow> 'w response \<Rightarrow> exn + 'w response" where
  "send bst body cl r =
    (let r = (if b_keep_alive bst (rs_header r) then header_call (Set Connection ''keep-alive'') r else r);
         h = (if cl = Unset then rs_header r @ [Prepare_payload] else rs_header r)
     in case b_send bst (rs_req r) \<lparr>m_header = h, m_body = body\<rparr> (rs_out r) of
          Inl e \<Rightarrow> Inl e
        | Inr out \<Rightarrow> Inr (r\<lparr>rs_header := rs_header r @ [Moved_from], rs_out := out\<rparr>))"

text \<open>The page of \<open>stock_response\<close>: \<open>fmt::format\<close> writes a doubled brace as one.\<close>

definition stock_page :: "nat \<Rightarrow> string \<Rightarrow> string \<Rightarrow> string" where
  "stock_page st reason msg = join_with [CHR 0x0A]
    [''<html>'',
     ''  <head>'',
     ''    <title>'' @ dec st @ '' '' @ reason @ ''</title>'',
     ''    <link rel=\"stylesheet\" href=\"https://fonts.googleapis.com/css?family=Montserrat:400,400i,700\">'',
     ''    <style>'',
     ''      body, h1 { font-family: Montserrat, sans-serif; }'',
     ''      body { font-weight: 400 }'',
     ''      h1 { font-weight: 700 }'',
     ''      code {'',
     ''        font-family: monospace, monospace;'',
     ''        padding: .1em;'',
     ''        color: #800;'',
     ''        background: #fee;'',
     ''        border-radius: 4px;'',
     ''      }'',
     ''    </style>'',
     ''  </head>'',
     ''  <body>'',
     ''    <h1>'' @ dec st @ '' '' @ reason @ ''</h1>'',
     ''    <p>'' @ msg @ ''</p>'',
     ''  </body>'',
     ''</html>'']"

definition stock_response :: "('f, 'w) beast \<Rightarrow> nat \<Rightarrow> string \<Rightarrow> 'w response \<Rightarrow> exn + 'w response" where
  "stock_response bst st msg r =
    (let r = header_call (Set Content_type ''text/html; charset=UTF-8'') (header_call (Result st) r)
     in send bst (String_body (stock_page st (b_reason bst st) msg)) Unset r)"

definition internal_error :: "('f, 'w) beast \<Rightarrow> string \<Rightarrow> 'w response \<Rightarrow> exn + 'w response" where
  "internal_error bst msg r = stock_response bst status_internal_server_error msg r"

definition bad_request :: "('f, 'w) beast \<Rightarrow> string \<Rightarrow> 'w response \<Rightarrow> exn + 'w response" where
  "bad_request bst msg r = stock_response bst status_bad_request msg r"

definition not_found :: "('f, 'w) beast \<Rightarrow> string \<Rightarrow> 'w response \<Rightarrow> exn + 'w response" where
  "not_found bst resource r =
    stock_response bst status_not_found (''The resource <code>'' @ [CHR 0x27] @ resource @ [CHR 0x27] @ ''</code> was not found.'') r"

definition moved :: "('f, 'w) beast \<Rightarrow> nat \<Rightarrow> string \<Rightarrow> 'w response \<Rightarrow> exn + 'w response" where
  "moved bst st location r =
    stock_response bst st (''Moved <a href=\"'' @ location @ ''\">here</a>.'') (header_call (Set Location location) r)"

section \<open>The contract of a sender\<close>

text \<open>
  A sender keeps the messages given to it in order: \<open>sent\<close> is the list of them. It may change
  the header on the way (filters do), not the body. What \<open>frame\<close> shows of its state no call changes.
\<close>

locale message_sender =
  fixes bst :: "('f, 'w) beast"
    and sent :: "'w \<Rightarrow> 'f message list"
    and inv :: "'w \<Rightarrow> bool"
    and frame :: "'w \<Rightarrow> 'x"
  assumes sent_send: "inv w \<Longrightarrow> b_send bst req msg w = Inr w' \<Longrightarrow>
      \<exists>h. sent w' = sent w @ [\<lparr>m_header = h, m_body = m_body msg\<rparr>]"
    and inv_send: "inv w \<Longrightarrow> b_send bst req msg w = Inr w' \<Longrightarrow> inv w'"
    and frame_send: "inv w \<Longrightarrow> b_send bst req msg w = Inr w' \<Longrightarrow> frame w' = frame w"
begin

definition answered :: "'w \<Rightarrow> 'f body \<Rightarrow> 'w \<Rightarrow> bool" where
  "answered w body w' \<longleftrightarrow> inv w' \<and> frame w' = frame w \<and> (\<exists>h. sent w' = sent w @ [\<lparr>m_header = h, m_body = body\<rparr>])"

lemma send_answers:
  "inv (rs_out r) \<Longrightarrow> send bst body cl r = Inr r' \<Longrightarrow>
    answered (rs_out r) body (rs_out r') \<and> rs_req r' = rs_req r"
  using sent_send inv_send frame_send
  by (fastforce simp: send_def Let_def answered_def header_call_def split: sum.splits if_splits)

lemma stock_response_answers:
  "inv (rs_out r) \<Longrightarrow> stock_response bst st msg r = Inr r' \<Longrightarrow>
    answered (rs_out r) (String_body (stock_page st (b_reason bst st) msg)) (rs_out r') \<and> rs_req r' = rs_req r"
  using send_answers [of "header_call (Set Content_type ''text/html; charset=UTF-8'') (header_call (Result st) r)"]
  by (simp add: stock_response_def header_call_def)

lemma answered_length: "answered w body w' \<Longrightarrow> length (sent w') = Suc (length (sent w))"
  by (auto simp: answered_def)

end

end
