(* ===== verification/Router.thy ===== *)
theory Router
  imports Message Path_Compiler
begin

text \<open>
  \<open>route.hh\<close>, \<open>filters/base.hh\<close>, \<open>router.hh\<close> and \<open>router.cc\<close>: filters and routes, how a request
  is dispatched to them, and how the tree of configurations is flattened into a router. A
  filter is a record of its virtual functions; a callback is a function on the response. What
  \<open>sending\<close> and \<open>postproc\<close> are given is the header of a message; beside it they have the console
  of the process, to which the filters of the library print. The
  \<open>unordered_map\<close> from verbs to lists is an association list (its order is one of those the
  iteration may have).
\<close>

section \<open>Filters and routes\<close>

definition supports_none :: u32 where "supports_none = 0"
definition supports_pre :: u32 where "supports_pre = 1"
definition supports_send :: u32 where "supports_send = 2"
definition supports_post :: u32 where "supports_post = 4"

lemmas supports_defs = supports_none_def supports_pre_def supports_send_def supports_post_def

datatype filtering = Carry_on | Finished

record 'w filter =
  f_name :: string
  f_type :: u32
  f_preproc :: "string \<Rightarrow> 'w response \<Rightarrow> exn + filtering \<times> 'w response"
  f_sending :: "request \<Rightarrow> string \<Rightarrow> header_op list \<times> console \<Rightarrow> exn + header_op list \<times> console"
  f_postproc :: "request \<Rightarrow> nat \<Rightarrow> string \<Rightarrow> header_op list \<times> console \<Rightarrow> exn + header_op list \<times> console"

text \<open>\<open>filters::base\<close>: the virtual functions do nothing.\<close>

definition base_filter :: "string \<Rightarrow> u32 \<Rightarrow> 'w filter" where
  "base_filter name type =
     \<lparr>f_name = name, f_type = type, f_preproc = (\<lambda>pfx r. Inr (Carry_on, r)),
      f_sending = (\<lambda>req pfx hw. Inr hw), f_postproc = (\<lambda>req n pfx hw. Inr hw)\<rparr>"

definition filter_supports :: "'w filter \<Rightarrow> u32 \<Rightarrow> bool" where
  "filter_supports f flag = has_flag (f_type f) flag"

type_synonym 'w callback = "params_type \<Rightarrow> 'w response \<Rightarrow> exn + 'w response"

record 'w route =
  rt_mask :: string
  rt_matcher :: matcher
  rt_callback :: "'w callback option"

definition route_make :: "string \<Rightarrow> 'w callback option \<Rightarrow> u32 \<Rightarrow> exn + 'w route" where
  "route_make msk callback options =
    (case matcher_of_mask msk options of
       Inl e \<Rightarrow> Inl e
     | Inr m \<Rightarrow> Inr \<lparr>rt_mask = msk, rt_matcher = m, rt_callback = callback\<rparr>)"

definition route_call ::
  "('f, 'w) beast \<Rightarrow> 'w route \<Rightarrow> params_type \<Rightarrow> 'w response \<Rightarrow> exn + 'w response" where
  "route_call bst rt params r =
    (case rt_callback rt of
       Some cb \<Rightarrow> cb params r
     | None \<Rightarrow> stock_response bst status_internal_server_error ''Routing misconfigured'' r)"

section \<open>Prefixes\<close>

text \<open>\<open>prefix.back()\<close> on an empty prefix is undefined.\<close>

definition prefixes :: "string \<Rightarrow> string \<Rightarrow> exn + bool" where
  "prefixes pfx resource =
    (if pfx = [] \<and> resource \<noteq> [] \<and> hd resource = CHR ''/'' then Inr True
     else if length resource < length pfx then Inr False
     else if take (length pfx) resource \<noteq> pfx then Inr False
     else if length resource = length pfx then Inr True
     else if pfx = [] then Inl Undefined
     else Inr (resource ! length pfx = CHR ''/'' \<or> last pfx = CHR ''/''))"

definition has_up_dir :: "string \<Rightarrow> bool" where
  "has_up_dir resource \<longleftrightarrow> ends_with ''/..'' resource \<or> sv_contains ''/../'' resource"

section \<open>Dispatch\<close>

record 'w router =
  r_routes :: "(verb \<times> 'w route list) list"
  r_filters :: "(string \<times> 'w filter) list"

fun pre_filters :: "(string \<times> 'w filter) list \<Rightarrow> string \<Rightarrow> 'w response \<Rightarrow> exn + filtering \<times> 'w response" where
  "pre_filters [] resource r = Inr (Carry_on, r)"
| "pre_filters ((pfx, f) # fs) resource r =
    (if \<not> filter_supports f supports_pre then pre_filters fs resource r
     else case prefixes pfx resource of
            Inl e \<Rightarrow> Inl e
          | Inr False \<Rightarrow> pre_filters fs resource r
          | Inr True \<Rightarrow>
              (case f_preproc f pfx r of
                 Inl e \<Rightarrow> Inl e
               | Inr (Finished, r) \<Rightarrow> Inr (Finished, r)
               | Inr (Carry_on, r) \<Rightarrow> pre_filters fs resource r))"

text \<open>The first route whose matcher accepts, with the parameters it bound.\<close>

fun find_route :: "'w route list \<Rightarrow> string \<Rightarrow> params_type \<Rightarrow> ('w route \<times> params_type) option" where
  "find_route [] resource params = None"
| "find_route (rt # rts) resource params =
    (case matches (rt_matcher rt) resource params of
       (False, params) \<Rightarrow> find_route rts resource params
     | (True, params) \<Rightarrow> Some (rt, params))"

definition dispatch :: "('f, 'w) beast \<Rightarrow> 'w router \<Rightarrow> string \<Rightarrow> 'w response \<Rightarrow> exn + 'w response" where
  "dispatch bst rt resource r =
    (if r_routes rt = [] then not_found bst resource r
     else case map_of (r_routes rt) (rq_method (rs_req r)) of
            None \<Rightarrow> bad_request bst ''Unknown HTTP-method'' r
          | Some rts \<Rightarrow>
              (case find_route rts resource Map.empty of
                 Some (found, params) \<Rightarrow> route_call bst found params r
               | None \<Rightarrow> not_found bst resource r))"

definition handle_request :: "('f, 'w) beast \<Rightarrow> 'w router \<Rightarrow> 'w response \<Rightarrow> exn + 'w response" where
  "handle_request bst rt r =
    (let resource = rq_decoded_path (rs_req r)
     in if resource = [] \<or> hd resource \<noteq> CHR ''/'' \<or> has_up_dir resource
        then bad_request bst ''Illegal resource path'' r
        else case pre_filters (r_filters rt) resource r of
               Inl e \<Rightarrow> Inl e
             | Inr (Finished, r) \<Rightarrow> Inr r
             | Inr (Carry_on, r) \<Rightarrow> dispatch bst rt resource r)"

fun run_filters ::
  "u32 \<Rightarrow> ('w filter \<Rightarrow> string \<Rightarrow> 's \<Rightarrow> exn + 's) \<Rightarrow> string \<Rightarrow> (string \<times> 'w filter) list \<Rightarrow>
    's \<Rightarrow> exn + 's" where
  "run_filters flag act resource [] hw = Inr hw"
| "run_filters flag act resource ((pfx, f) # fs) hw =
    (if \<not> filter_supports f flag then run_filters flag act resource fs hw
     else case prefixes pfx resource of
            Inl e \<Rightarrow> Inl e
          | Inr False \<Rightarrow> run_filters flag act resource fs hw
          | Inr True \<Rightarrow> (case act f pfx hw of Inl e \<Rightarrow> Inl e | Inr hw \<Rightarrow> run_filters flag act resource fs hw))"

definition before_send ::
  "'w router \<Rightarrow> request \<Rightarrow> header_op list \<times> console \<Rightarrow> exn + header_op list \<times> console" where
  "before_send rt req hw =
    run_filters supports_send (\<lambda>f. f_sending f req) (rq_decoded_path req) (r_filters rt) hw"

definition after_send ::
  "'w router \<Rightarrow> request \<Rightarrow> nat \<Rightarrow> header_op list \<times> console \<Rightarrow> exn + header_op list \<times> console" where
  "after_send rt req transmitted hw =
    run_filters supports_post (\<lambda>f. f_postproc f req transmitted) (rq_decoded_path req) (r_filters rt) hw"

section \<open>Configurations\<close>

record 'w handler =
  h_mask :: string
  h_callback :: "'w callback option"
  h_options :: u32

type_synonym 'w handlers = "(verb \<times> 'w handler list) list"
type_synonym 'w filter_list = "(string \<times> 'w filter) list"

datatype 'w cfg = Cfg "'w handlers" "'w filter_list" "(string \<times> 'w cfg) list"

definition cfg_empty :: "'w cfg" where
  "cfg_empty = Cfg [] [] []"

text \<open>\<open>handlers[key]\<close> inserts an empty list for a new key.\<close>

fun push_handlers :: "verb \<Rightarrow> 'w handler list \<Rightarrow> 'w handlers \<Rightarrow> 'w handlers" where
  "push_handlers v hs [] = [(v, hs)]"
| "push_handlers v hs ((u, us) # rest) =
    (if u = v then (u, us @ hs) # rest else (u, us) # push_handlers v hs rest)"

definition cfg_add :: "string \<Rightarrow> 'w callback option \<Rightarrow> verb \<Rightarrow> u32 \<Rightarrow> 'w cfg \<Rightarrow> 'w cfg" where
  "cfg_add path cb v options c =
    (case c of Cfg hs fs subs \<Rightarrow>
       Cfg (push_handlers v [\<lparr>h_mask = path, h_callback = cb, h_options = options\<rparr>] hs) fs subs)"

definition cfg_get :: "string \<Rightarrow> 'w callback option \<Rightarrow> u32 \<Rightarrow> 'w cfg \<Rightarrow> 'w cfg" where
  "cfg_get path cb options c = cfg_add path cb Verb_get options c"

definition cfg_getish :: "string \<Rightarrow> 'w callback option \<Rightarrow> u32 \<Rightarrow> 'w cfg \<Rightarrow> 'w cfg" where
  "cfg_getish path cb options c =
    cfg_add path cb Verb_head options (cfg_add path cb Verb_get options c)"

definition cfg_append :: "string \<Rightarrow> 'w cfg \<Rightarrow> 'w cfg \<Rightarrow> 'w cfg" where
  "cfg_append path sub_cfg c = (case c of Cfg hs fs subs \<Rightarrow> Cfg hs fs (subs @ [(path, sub_cfg)]))"

definition cfg_use :: "string \<Rightarrow> 'w filter \<Rightarrow> 'w cfg \<Rightarrow> 'w cfg" where
  "cfg_use path filt c =
    (case c of Cfg hs fs subs \<Rightarrow>
       Cfg hs (fs @ [(if path = [] \<or> last path \<noteq> CHR ''/'' then path else butlast path, filt)]) subs)"

definition cfg_use_everywhere :: "'w filter \<Rightarrow> 'w cfg \<Rightarrow> 'w cfg" where
  [simp]: "cfg_use_everywhere filt c = cfg_use [] filt c"

definition add_prefixed :: "string \<Rightarrow> 'w handlers \<Rightarrow> 'w handlers \<Rightarrow> 'w handlers" where
  "add_prefixed pfx own dst =
    foldl (\<lambda>dst (v, hs). push_handlers v (map (\<lambda>h. h\<lparr>h_mask := pfx @ h_mask h\<rparr>) hs) dst) dst own"

fun surrender :: "string \<Rightarrow> 'w cfg \<Rightarrow> 'w handlers \<times> 'w filter_list \<Rightarrow> 'w handlers \<times> 'w filter_list"
  and surrender_all :: "(string \<times> 'w cfg) list \<Rightarrow> 'w handlers \<times> 'w filter_list \<Rightarrow> 'w handlers \<times> 'w filter_list" where
  "surrender pfx (Cfg hs fs subs) (dst, filts) =
     surrender_all subs (add_prefixed pfx hs dst, filts @ map (\<lambda>(path, f). (pfx @ path, f)) fs)"
| "surrender_all [] acc = acc"
| "surrender_all ((msk, c) # subs) acc = surrender_all subs (surrender msk c acc)"

definition handler_compile :: "'w handler \<Rightarrow> exn + 'w route" where
  [simp]: "handler_compile h = route_make (h_mask h) (h_callback h) (h_options h)"

fun compile_list :: "'w handler list \<Rightarrow> exn + 'w route list" where
  "compile_list [] = Inr []"
| "compile_list (h # hs) =
    (case handler_compile h of
       Inl e \<Rightarrow> Inl e
     | Inr rt \<Rightarrow> (case compile_list hs of Inl e \<Rightarrow> Inl e | Inr rts \<Rightarrow> Inr (rt # rts)))"

fun compile_handlers :: "'w handlers \<Rightarrow> exn + (verb \<times> 'w route list) list" where
  "compile_handlers [] = Inr []"
| "compile_handlers ((v, hs) # rest) =
    (case compile_list hs of
       Inl e \<Rightarrow> Inl e
     | Inr rts \<Rightarrow> (case compile_handlers rest of Inl e \<Rightarrow> Inl e | Inr r \<Rightarrow> Inr ((v, rts) # r)))"

text \<open>\<open>compiled()\<close> returns the router and leaves the configuration empty.\<close>

definition compiled :: "'w cfg \<Rightarrow> exn + 'w router \<times> 'w cfg" where
  "compiled c =
    (case c of Cfg hs fs subs \<Rightarrow>
       let (handlers, filts) = surrender_all subs (hs, fs)
       in case compile_handlers handlers of
            Inl e \<Rightarrow> Inl e
          | Inr routes \<Rightarrow> Inr (\<lparr>r_routes = routes, r_filters = filts\<rparr>, cfg_empty))"

section \<open>print\<close>

text \<open>The macro \<open>IF\<close>: flags not yet named, whether nothing has been named, and what was printed.\<close>

definition print_flag :: "u32 \<Rightarrow> string \<Rightarrow> u32 \<times> bool \<times> console \<Rightarrow> u32 \<times> bool \<times> console" where
  "print_flag flag name st =
    (case st of (flags, first, out) \<Rightarrow>
       if has_flag flags flag
       then (flags AND NOT flag, False,
             out @ (if first then [] else [(Stdout, '' |'')]) @ [(Stdout, '' '' @ name)])
       else (flags, first, out))"

definition print_filter :: "string \<times> 'w filter \<Rightarrow> console" where
  "print_filter pf =
    (case pf of (pfx, f) \<Rightarrow>
       [(Stderr, ''[FILTER] '' @ [CHR 0x27] @ pfx @ ''/'' @ [CHR 0x27] @ '' -> '' @ f_name f)] @
       (if f_type f = supports_none then [(Stdout, ''NONE'')]
        else (case print_flag supports_post ''POST-PROC'' (print_flag supports_send ''PRE-SEND''
                     (print_flag supports_pre ''PRE-PROC'' (f_type f, True, []))) of
                (flags, first, out) \<Rightarrow>
                  out @ (if flags \<noteq> supports_none
                         then (if first then [] else [(Stdout, '' |'')]) @
                              [(Stdout, '' '' @ dec_int (sint flags))]
                         else []))) @
       [(Stdout, [CHR 0x0A])])"

fun add_route :: "string \<Rightarrow> string \<Rightarrow> (string \<times> string) list \<Rightarrow> (string \<times> string) list" where
  "add_route path method [] = [(path, method)]"
| "add_route path method ((p, ms) # rest) =
    (if p = path then (p, ms @ ''|'' @ method) # rest else (p, ms) # add_route path method rest)"

definition route_lines :: "(verb \<Rightarrow> string) \<Rightarrow> 'w router \<Rightarrow> (string \<times> string) list" where
  "route_lines to_string rt =
    foldl (\<lambda>lines (v, rts). foldl (\<lambda>lines r. add_route (rt_mask r) (to_string v) lines) lines rts) [] (r_routes rt)"

definition router_print :: "(verb \<Rightarrow> string) \<Rightarrow> 'w router \<Rightarrow> console" where
  "router_print to_string rt =
    concat (map print_filter (r_filters rt)) @
    map (\<lambda>(path, methods). (Stderr, ''[ROUTE] '' @ methods @ '' '' @ [CHR 0x27] @ path @ [CHR 0x27, CHR 0x0A]))
      (route_lines to_string rt)"

section \<open>Paths\<close>

lemma split_on_append: "split_on c (a @ c # b) = split_on c a @ split_on c b"
  by (induction a) (auto split: list.splits)

lemma join_with_append:
  "xs \<noteq> [] \<Longrightarrow> ys \<noteq> [] \<Longrightarrow> join_with sep (xs @ ys) = join_with sep xs @ sep @ join_with sep ys"
  by (cases xs; cases ys) (simp_all add: join_with_Cons)

text \<open>A segment of a path: what lies between two slashes, or a slash and an end of the path.\<close>

lemma split_on_segment:
  "w \<in> set (split_on c s) \<longleftrightarrow>
    c \<notin> set w \<and> (\<exists>a b. s = a @ w @ b \<and> (a = [] \<or> last a = c) \<and> (b = [] \<or> hd b = c))"
proof
  assume w: "w \<in> set (split_on c s)"
  then obtain xs ys where ws: "split_on c s = xs @ w # ys" by (meson split_list)
  have s: "s = join_with [c] (xs @ w # ys)" using join_split_on [of c s] ws by simp
  define a where "a = (if xs = [] then [] else join_with [c] xs @ [c])"
  define b where "b = (if ys = [] then [] else [c] @ join_with [c] ys)"
  have tail: "join_with [c] (w # ys) = w @ b"
    using join_with_append [of "[w]" ys "[c]"] by (simp add: b_def)
  have "s = a @ w @ b"
    using join_with_append [of xs "w # ys" "[c]"] s tail by (simp add: a_def)
  moreover have "a = [] \<or> last a = c" "b = [] \<or> hd b = c" by (simp_all add: a_def b_def)
  ultimately show "c \<notin> set w \<and> (\<exists>a b. s = a @ w @ b \<and> (a = [] \<or> last a = c) \<and> (b = [] \<or> hd b = c))"
    using split_on_free [OF w] by blast
next
  assume "c \<notin> set w \<and> (\<exists>a b. s = a @ w @ b \<and> (a = [] \<or> last a = c) \<and> (b = [] \<or> hd b = c))"
  then obtain a b where ab: "c \<notin> set w" "s = a @ w @ b" "a = [] \<or> last a = c" "b = [] \<or> hd b = c" by blast
  have wb: "w \<in> set (split_on c (w @ b))"
    using ab(1,4) by (cases b) (simp_all add: split_on_none split_on_stop)
  show "w \<in> set (split_on c s)"
  proof (cases a rule: rev_cases)
    case Nil
    with wb ab(2) show ?thesis by simp
  next
    case (snoc a' x)
    with ab(3) have "x = c" by simp
    with wb ab(2) snoc show ?thesis using split_on_append [of c a' "w @ b"] by simp
  qed
qed

text \<open>The guard of \<open>handle_request\<close> finds exactly the paths with a segment \<open>..\<close>.\<close>

lemma has_up_dir_segments:
  assumes "resource \<noteq> []" "hd resource = CHR ''/''"
  shows "has_up_dir resource \<longleftrightarrow> ''..'' \<in> set (split_on CHR ''/'' resource)"
proof -
  have "has_up_dir resource \<longleftrightarrow> (\<exists>a. resource = a @ ''/..'') \<or> (\<exists>a b. resource = a @ ''/../'' @ b)"
    by (auto simp: has_up_dir_def ends_with_def sv_contains_iff suffix_def)
  also have "\<dots> \<longleftrightarrow> (\<exists>a b. resource = a @ ''..'' @ b \<and> (a = [] \<or> last a = CHR ''/'') \<and> (b = [] \<or> hd b = CHR ''/''))"
    (is "?l \<longleftrightarrow> ?r")
  proof
    assume ?l
    then consider a where "resource = (a @ ''/'') @ ''..'' @ []" | a b where "resource = (a @ ''/'') @ ''..'' @ CHR ''/'' # b"
      by auto
    then show ?r
    proof cases
      case 1
      moreover have "last (a @ ''/'') = CHR ''/''" by simp
      ultimately show ?thesis by blast
    next
      case 2
      moreover have "last (a @ ''/'') = CHR ''/''" "hd (CHR ''/'' # b) = CHR ''/''" by simp_all
      ultimately show ?thesis by blast
    qed
  next
    assume ?r
    then obtain a b where ab: "resource = a @ ''..'' @ b" "a = [] \<or> last a = CHR ''/''" "b = [] \<or> hd b = CHR ''/''"
      by blast
    from ab(1) assms(2) have "a \<noteq> []" by auto
    with ab(2) obtain a' where "a = a' @ ''/''" by (metis append_butlast_last_id)
    moreover from ab(3) have "b = [] \<or> (\<exists>b'. b = CHR ''/'' # b')" by (cases b) auto
    ultimately show ?l using ab(1) by auto
  qed
  finally show ?thesis by (simp add: split_on_segment)
qed

lemma prefixes_absolute:
  assumes "resource \<noteq> []" "hd resource = CHR ''/''"
  shows "prefixes pfx resource = Inr (\<exists>rest. resource = pfx @ rest \<and>
    (rest = [] \<or> hd rest = CHR ''/'' \<or> pfx = [] \<or> last pfx = CHR ''/''))"
proof (cases "pfx \<noteq> [] \<and> length pfx \<le> length resource \<and> take (length pfx) resource = pfx")
  case True
  then have split: "resource = pfx @ drop (length pfx) resource" by (metis append_take_drop_id)
  then have "(\<exists>rest. resource = pfx @ rest \<and> P rest) \<longleftrightarrow> P (drop (length pfx) resource)" for P
    by (metis same_append_eq)
  with True show ?thesis
    by (cases "length resource = length pfx") (auto simp: prefixes_def hd_drop_conv_nth)
next
  case False
  then have "pfx = [] \<or> (\<forall>rest. resource \<noteq> pfx @ rest)" by auto
  with False assms show ?thesis by (auto simp: prefixes_def)
qed

section \<open>Flattening a configuration\<close>

definition handlers_of :: "verb \<Rightarrow> 'w handlers \<Rightarrow> 'w handler list" where
  "handlers_of v H = (case map_of H v of None \<Rightarrow> [] | Some hs \<Rightarrow> hs)"

definition routes_of :: "verb \<Rightarrow> 'w router \<Rightarrow> 'w route list" where
  "routes_of v rt = (case map_of (r_routes rt) v of None \<Rightarrow> [] | Some rts \<Rightarrow> rts)"

text \<open>No verb has two lists: the association list is a map, at every level of the tree.\<close>

fun cfg_ok :: "'w cfg \<Rightarrow> bool"
  and cfgs_ok :: "(string \<times> 'w cfg) list \<Rightarrow> bool" where
  "cfg_ok (Cfg hs fs subs) \<longleftrightarrow> distinct (map fst hs) \<and> cfgs_ok subs"
| "cfgs_ok [] \<longleftrightarrow> True"
| "cfgs_ok ((msk, c) # subs) \<longleftrightarrow> cfg_ok c \<and> cfgs_ok subs"

text \<open>
  The masks of a verb in the order of the flat list, and the paths of the filters: a
  configuration's own come first, with the prefix it was appended under, then those of each of
  its children, with the prefix of the child alone.
\<close>

fun cfg_masks :: "verb \<Rightarrow> string \<Rightarrow> 'w cfg \<Rightarrow> string list"
  and cfgs_masks :: "verb \<Rightarrow> (string \<times> 'w cfg) list \<Rightarrow> string list" where
  "cfg_masks v pfx (Cfg hs fs subs) = map (\<lambda>h. pfx @ h_mask h) (handlers_of v hs) @ cfgs_masks v subs"
| "cfgs_masks v [] = []"
| "cfgs_masks v ((msk, c) # subs) = cfg_masks v msk c @ cfgs_masks v subs"

fun cfg_paths :: "string \<Rightarrow> 'w cfg \<Rightarrow> string list"
  and cfgs_paths :: "(string \<times> 'w cfg) list \<Rightarrow> string list" where
  "cfg_paths pfx (Cfg hs fs subs) = map (\<lambda>pf. pfx @ fst pf) fs @ cfgs_paths subs"
| "cfgs_paths [] = []"
| "cfgs_paths ((msk, c) # subs) = cfg_paths msk c @ cfgs_paths subs"

lemma push_handlers_keys: "fst ` set (push_handlers v hs H) = insert v (fst ` set H)"
  by (induction v hs H rule: push_handlers.induct) auto

lemma push_handlers_distinct: "distinct (map fst H) \<Longrightarrow> distinct (map fst (push_handlers v hs H))"
  by (induction v hs H rule: push_handlers.induct) (auto simp: push_handlers_keys)

lemma handlers_push: "handlers_of v (push_handlers u hs H) = handlers_of v H @ (if u = v then hs else [])"
  by (induction u hs H rule: push_handlers.induct) (auto simp: handlers_of_def)

lemma handlers_absent: "v \<notin> fst ` set H \<Longrightarrow> handlers_of v H = []"
  by (simp add: handlers_of_def map_of_eq_None_iff [THEN iffD2])

lemma handlers_add_prefixed:
  "distinct (map fst own) \<Longrightarrow> handlers_of v (add_prefixed pfx own dst) =
    handlers_of v dst @ map (\<lambda>h. h\<lparr>h_mask := pfx @ h_mask h\<rparr>) (handlers_of v own)"
proof (induction own arbitrary: dst)
  case Nil
  then show ?case by (simp add: add_prefixed_def handlers_of_def)
next
  case (Cons e own)
  obtain u us where e: "e = (u, us)" by force
  have "add_prefixed pfx (e # own) dst =
      add_prefixed pfx own (push_handlers u (map (\<lambda>h. h\<lparr>h_mask := pfx @ h_mask h\<rparr>) us) dst)"
    by (simp add: e add_prefixed_def)
  with Cons show ?case
    using handlers_absent [of v own] by (auto simp: e handlers_push) (auto simp: handlers_of_def)
qed

lemma add_prefixed_distinct: "distinct (map fst dst) \<Longrightarrow> distinct (map fst (add_prefixed pfx own dst))"
  unfolding add_prefixed_def
  by (induction own arbitrary: dst) (auto intro: push_handlers_distinct)

lemma surrender_masks:
  "cfg_ok c \<Longrightarrow> map h_mask (handlers_of v (fst (surrender pfx c acc))) =
    map h_mask (handlers_of v (fst acc)) @ cfg_masks v pfx c"
  "cfgs_ok subs \<Longrightarrow> map h_mask (handlers_of v (fst (surrender_all subs acc))) =
    map h_mask (handlers_of v (fst acc)) @ cfgs_masks v subs"
proof (induction pfx c acc and subs acc rule: surrender_surrender_all.induct)
  case (1 pfx hs fs subs dst filts)
  then show ?case by (simp add: handlers_add_prefixed comp_def)
qed simp_all

lemma surrender_filters:
  "map fst (snd (surrender pfx c acc)) = map fst (snd acc) @ cfg_paths pfx c"
  "map fst (snd (surrender_all subs acc)) = map fst (snd acc) @ cfgs_paths subs"
proof (induction pfx c acc and subs acc rule: surrender_surrender_all.induct)
  case (1 pfx hs fs subs dst filts)
  then show ?case by (simp add: comp_def split_beta)
qed simp_all

lemma compile_list_ok:
  "compile_list hs = Inr rts \<Longrightarrow>
    list_all2 (\<lambda>h rt. route_make (h_mask h) (h_callback h) (h_options h) = Inr rt) hs rts"
  by (induction hs arbitrary: rts) (auto split: sum.splits)

lemma compile_handlers_ok:
  "compile_handlers H = Inr R \<Longrightarrow>
    list_all2 (\<lambda>e f. fst e = fst f \<and> compile_list (snd e) = Inr (snd f)) H R"
  by (induction H arbitrary: R rule: compile_handlers.induct) (auto split: sum.splits)

lemma list_all2_map_of:
  "list_all2 (\<lambda>e f. fst e = fst f \<and> P (snd e) (snd f)) H R \<Longrightarrow>
    rel_option P (map_of H v) (map_of R v)"
  by (induction rule: list_all2_induct) auto

lemma route_make_sel:
  "route_make msk cb options = Inr rt \<Longrightarrow>
    rt_mask rt = msk \<and> rt_callback rt = cb \<and> matcher_of_mask msk options = Inr (rt_matcher rt)"
  by (auto simp: route_make_def split: sum.splits)

lemma compiled_handlers:
  assumes "compiled (Cfg hs fs subs) = Inr (rt, c')"
  shows "list_all2 (\<lambda>h r. route_make (h_mask h) (h_callback h) (h_options h) = Inr r)
      (handlers_of v (fst (surrender_all subs (hs, fs)))) (routes_of v rt)"
    and "r_filters rt = snd (surrender_all subs (hs, fs))" "c' = cfg_empty"
proof -
  obtain H F where HF: "surrender_all subs (hs, fs) = (H, F)" by force
  with assms obtain R where R: "compile_handlers H = Inr R" "rt = \<lparr>r_routes = R, r_filters = F\<rparr>" "c' = cfg_empty"
    by (auto simp: compiled_def Let_def split: sum.splits)
  from list_all2_map_of [where P = "\<lambda>a b. compile_list a = Inr b", OF compile_handlers_ok [OF R(1)]]
  have "rel_option (\<lambda>a b. compile_list a = Inr b) (map_of H v) (map_of R v)" .
  then show "list_all2 (\<lambda>h r. route_make (h_mask h) (h_callback h) (h_options h) = Inr r)
      (handlers_of v (fst (surrender_all subs (hs, fs)))) (routes_of v rt)"
    by (cases "map_of H v"; cases "map_of R v")
      (simp_all add: HF R(2) handlers_of_def routes_of_def compile_list_ok)
  from HF R show "r_filters rt = snd (surrender_all subs (hs, fs))" "c' = cfg_empty" by simp_all
qed

lemma compiled_masks:
  assumes "cfgs_ok subs" "compiled (Cfg hs fs subs) = Inr (rt, c')"
  shows "map rt_mask (routes_of v rt) = cfg_masks v [] (Cfg hs fs subs)"
    and "map fst (r_filters rt) = cfg_paths [] (Cfg hs fs subs)"
proof -
  have "map h_mask hs' = map rt_mask rts"
    if "list_all2 (\<lambda>h r. route_make (h_mask h) (h_callback h) (h_options h) = Inr r) hs' rts" for hs' and rts :: "'a route list"
    using that by (induction rule: list_all2_induct) (auto dest: route_make_sel)
  from this [OF compiled_handlers(1) [OF assms(2)]] surrender_masks(2) [OF assms(1)]
  show "map rt_mask (routes_of v rt) = cfg_masks v [] (Cfg hs fs subs)" by simp
  show "map fst (r_filters rt) = cfg_paths [] (Cfg hs fs subs)"
    using compiled_handlers(2) [OF assms(2)] surrender_filters(2) [of subs "(hs, fs)"] by (simp add: comp_def)
qed

lemma cfg_ok_operations:
  "cfg_ok cfg_empty"
  "cfg_ok c \<Longrightarrow> cfg_ok (cfg_add path cb v options c)"
  "cfg_ok c \<Longrightarrow> cfg_ok (cfg_use path filt c)"
  "cfg_ok c \<Longrightarrow> cfg_ok c1 \<Longrightarrow> cfg_ok (cfg_append path c1 c)"
proof -
  show "cfg_ok cfg_empty" by (simp add: cfg_empty_def)
  show "cfg_ok c \<Longrightarrow> cfg_ok (cfg_add path cb v options c)" "cfg_ok c \<Longrightarrow> cfg_ok (cfg_use path filt c)"
    by (cases c; simp add: cfg_add_def cfg_use_def push_handlers_distinct)+
  have "cfgs_ok (xs @ [(path, c1)]) \<longleftrightarrow> cfgs_ok xs \<and> cfg_ok c1" for xs :: "(string \<times> 'b cfg) list"
    by (induction xs) auto
  then show "cfg_ok c \<Longrightarrow> cfg_ok c1 \<Longrightarrow> cfg_ok (cfg_append path c1 c)"
    by (cases c) (simp add: cfg_append_def)
qed

section \<open>The filters that run\<close>

definition applies :: "u32 \<Rightarrow> string \<Rightarrow> string \<times> 'w filter \<Rightarrow> bool" where
  "applies flag resource pf \<longleftrightarrow> filter_supports (snd pf) flag \<and> prefixes (fst pf) resource = Inr True"

fun chain :: "('a \<Rightarrow> 's \<Rightarrow> exn + 's) \<Rightarrow> 'a list \<Rightarrow> 's \<Rightarrow> exn + 's" where
  "chain act [] x = Inr x"
| "chain act (a # as) x = (case act a x of Inl e \<Rightarrow> Inl e | Inr y \<Rightarrow> chain act as y)"

lemma run_filters_chain:
  assumes "resource \<noteq> []" "hd resource = CHR ''/''"
  shows "run_filters flag act resource fs hw =
    chain (\<lambda>pf. act (snd pf) (fst pf)) (filter (applies flag resource) fs) hw"
proof (induction fs arbitrary: hw)
  case (Cons pf fs)
  obtain pfx f where pf: "pf = (pfx, f)" by force
  from prefixes_absolute [OF assms, of pfx] obtain b where "prefixes pfx resource = Inr b" by blast
  with Cons show ?case
    by (cases b) (auto simp: pf applies_def split: sum.split)
qed simp

text \<open>The filters before a request: those that apply, in order, up to the first that finishes.\<close>

fun pre_chain :: "(string \<times> 'w filter) list \<Rightarrow> 'w response \<Rightarrow> exn + filtering \<times> 'w response" where
  "pre_chain [] r = Inr (Carry_on, r)"
| "pre_chain ((pfx, f) # fs) r =
    (case f_preproc f pfx r of
       Inl e \<Rightarrow> Inl e | Inr (Finished, r) \<Rightarrow> Inr (Finished, r) | Inr (Carry_on, r) \<Rightarrow> pre_chain fs r)"

lemma pre_filters_chain:
  assumes "resource \<noteq> []" "hd resource = CHR ''/''"
  shows "pre_filters fs resource r = pre_chain (filter (applies supports_pre resource) fs) r"
proof (induction fs arbitrary: r)
  case (Cons pf fs)
  obtain pfx f where pf: "pf = (pfx, f)" by force
  from prefixes_absolute [OF assms, of pfx] obtain b where "prefixes pfx resource = Inr b" by blast
  with Cons show ?case
    by (cases b) (auto simp: pf applies_def split: sum.split filtering.split)
qed simp

section \<open>One answer per request\<close>

context message_sender begin

text \<open>A filter or callback that plays by the rules answers exactly when it finishes the request.\<close>

definition good_filter :: "'w filter \<Rightarrow> bool" where
  "good_filter f \<longleftrightarrow> (\<forall>pfx r fin r'. inv (rs_out r) \<longrightarrow> f_preproc f pfx r = Inr (fin, r') \<longrightarrow>
    rs_req r' = rs_req r \<and> inv (rs_out r') \<and>
    frame (rs_out r') = frame (rs_out r) \<and>
    (case fin of Carry_on \<Rightarrow> sent (rs_out r') = sent (rs_out r)
     | Finished \<Rightarrow> (\<exists>body. answered (rs_out r) body (rs_out r'))))"

definition good_callback :: "'w callback \<Rightarrow> bool" where
  "good_callback cb \<longleftrightarrow> (\<forall>params r r'. inv (rs_out r) \<longrightarrow> cb params r = Inr r' \<longrightarrow>
    (\<exists>body. answered (rs_out r) body (rs_out r')))"

definition good_router :: "'w router \<Rightarrow> bool" where
  "good_router rt \<longleftrightarrow> (\<forall>pf \<in> set (r_filters rt). good_filter (snd pf)) \<and>
    (\<forall>v rts x cb. map_of (r_routes rt) v = Some rts \<longrightarrow> x \<in> set rts \<longrightarrow> rt_callback x = Some cb \<longrightarrow> good_callback cb)"

lemma stock_answers: "inv (rs_out r) \<Longrightarrow> stock_response bst st msg r = Inr r' \<Longrightarrow>
    \<exists>body. answered (rs_out r) body (rs_out r')"
  using stock_response_answers by blast

lemma pre_filters_answers:
  "(\<forall>pf \<in> set fs. good_filter (snd pf)) \<Longrightarrow> inv (rs_out r) \<Longrightarrow> pre_filters fs resource r = Inr (fin, r') \<Longrightarrow>
    rs_req r' = rs_req r \<and> inv (rs_out r') \<and> frame (rs_out r') = frame (rs_out r) \<and>
    (case fin of Carry_on \<Rightarrow> sent (rs_out r') = sent (rs_out r)
     | Finished \<Rightarrow> (\<exists>body. answered (rs_out r) body (rs_out r')))"
proof (induction fs arbitrary: r)
  case Nil
  then show ?case by auto
next
  case (Cons pf fs)
  obtain pfx f where pf: "pf = (pfx, f)" by force
  from Cons.prems(1) pf have good: "good_filter f" "\<forall>pf \<in> set fs. good_filter (snd pf)" by auto
  show ?case
  proof (cases "filter_supports f supports_pre \<and> prefixes pfx resource = Inr True")
    case False
    with Cons good pf show ?thesis by (auto split: sum.splits bool.splits if_splits)
  next
    case True
    with Cons.prems(3) pf obtain fin1 r1 where step: "f_preproc f pfx r = Inr (fin1, r1)"
      by (auto split: sum.splits prod.splits filtering.splits)
    from good(1) Cons.prems(2) step have r1: "rs_req r1 = rs_req r" "inv (rs_out r1)"
      "frame (rs_out r1) = frame (rs_out r)" "case fin1 of Carry_on \<Rightarrow> sent (rs_out r1) = sent (rs_out r)
       | Finished \<Rightarrow> (\<exists>body. answered (rs_out r) body (rs_out r1))"
      unfolding good_filter_def by blast+
    show ?thesis
    proof (cases fin1)
      case Finished
      with True step r1 Cons.prems(3) pf show ?thesis by auto
    next
      case Carry_on
      with True step Cons.prems(3) pf have "pre_filters fs resource r1 = Inr (fin, r')" by simp
      from Cons.IH [OF good(2) r1(2) this] r1 Carry_on show ?thesis
        by (auto simp: answered_def split: filtering.splits)
    qed
  qed
qed

lemma dispatch_answers:
  assumes "good_router rt" "inv (rs_out r)" "dispatch bst rt resource r = Inr r'"
  shows "\<exists>body. answered (rs_out r) body (rs_out r')"
proof -
  have found: "x \<in> set rts" if "find_route rts resource p = Some (x, q)" for rts :: "'w route list" and x p q
    using that by (induction rts arbitrary: p) (auto split: prod.splits bool.splits)
  show ?thesis
    using assms stock_answers found
    by (auto simp: dispatch_def not_found_def bad_request_def route_call_def good_router_def good_callback_def
        split: if_splits option.splits) blast+
qed

lemma handle_request_answers:
  assumes "good_router rt" "inv (rs_out r)" "handle_request bst rt r = Inr r'"
  shows "\<exists>body. answered (rs_out r) body (rs_out r')"
proof (cases "rq_decoded_path (rs_req r) = [] \<or> hd (rq_decoded_path (rs_req r)) \<noteq> CHR ''/'' \<or>
    has_up_dir (rq_decoded_path (rs_req r))")
  case True
  with assms(2,3) stock_answers show ?thesis
    by (auto simp: handle_request_def bad_request_def Let_def)
next
  case False
  with assms(3) obtain fin r1 where r1: "pre_filters (r_filters rt) (rq_decoded_path (rs_req r)) r = Inr (fin, r1)"
    "case fin of Finished \<Rightarrow> r' = r1 | Carry_on \<Rightarrow> dispatch bst rt (rq_decoded_path (rs_req r)) r1 = Inr r'"
    by (auto simp: handle_request_def Let_def split: sum.splits prod.splits filtering.splits)
  from pre_filters_answers [OF _ assms(2) r1(1)] assms(1)
  have pre: "inv (rs_out r1)" "frame (rs_out r1) = frame (rs_out r)" "case fin of Carry_on \<Rightarrow> sent (rs_out r1) = sent (rs_out r)
     | Finished \<Rightarrow> (\<exists>body. answered (rs_out r) body (rs_out r1))"
    by (auto simp: good_router_def)
  show ?thesis
  proof (cases fin)
    case Carry_on
    with r1(2) dispatch_answers [OF assms(1) pre(1)] pre show ?thesis by (auto simp: answered_def)
  qed (use r1 pre in auto)
qed

end

end
