(* ===== verification/Static_Files.thy ===== *)
theory Static_Files
  imports Mime_Types Http_Date Range Router
begin

text \<open>
  The library \<open>static_files\<close> and \<open>shared_roots.cc\<close>: a filter that serves files below one root
  directory, or below several of them. The file system, the clock and the reading of dates by the
  C++ locale and the C library's local time are the record \<open>file_system\<close>; paths are POSIX.
\<close>

section \<open>The file system\<close>

text \<open>
  The functions of \<open>std::filesystem\<close>: whether a path is a directory (and its status could be had),
  the time of its last write on the file clock, and the conversion of that time to the system
  clock. \<open>fs_closed\<close> is a file object that is not open. \<open>fs_parse_time\<close> stands for
  \<open>std::get_time\<close> with \<open>mktime\<close> and \<open>from_time_t\<close>.
\<close>

record ('f, 'e) file_system =
  fs_is_directory :: "string \<Rightarrow> bool"
  fs_ops :: "('f, 'e) file_ops"
  fs_closed :: 'f
  fs_last_write_time :: "string \<Rightarrow> int option"
  fs_to_sys :: "int \<Rightarrow> time_point"
  fs_now :: time_point
  fs_parse_time :: "string \<Rightarrow> time_point option"
  fs_beyond :: "nat \<Rightarrow> char"

definition file_time_max :: int where
  "file_time_max = 2 ^ 63 - 1"

text \<open>What the operating system sees of a path: \<open>c_str()\<close> ends at the first NUL.\<close>

definition c_str :: "string \<Rightarrow> string" where
  "c_str path = takeWhile (\<lambda>c. c \<noteq> CHR 0x00) path"

text \<open>\<open>operator/\<close> of \<open>std::filesystem::path\<close>; \<open>make_preferred\<close> changes nothing on POSIX.\<close>

definition path_append :: "string \<Rightarrow> string \<Rightarrow> string" where
  "path_append root filename =
    (if filename \<noteq> [] \<and> hd filename = CHR ''/'' then filename
     else if root = [] \<or> last root = CHR ''/'' then root @ filename
     else root @ ''/'' @ filename)"

section \<open>Conditional requests\<close>

definition cast_seconds :: "time_point \<Rightarrow> time_point" where
  "cast_seconds t = duration_seconds t * 10 ^ 9"

definition modified_since :: "('f, 'e) file_system \<Rightarrow> time_point \<Rightarrow> request \<Rightarrow> bool" where
  "modified_since fs last_modified req =
    (if last_modified = tp_min then False
     else case rq_find req If_modified_since of
            None \<Rightarrow> False
          | Some value \<Rightarrow>
              let modified_date = (case fs_parse_time fs value of None \<Rightarrow> tp_min | Some t \<Rightarrow> t)
              in cast_seconds last_modified > cast_seconds modified_date)"

section \<open>get_file\<close>

definition finish :: "exn + 'w response \<Rightarrow> exn + filtering \<times> 'w response" where
  "finish res = (case res of Inl e \<Rightarrow> Inl e | Inr r \<Rightarrow> Inr (Finished, r))"

definition sys_date :: "('f, 'e) file_system \<Rightarrow> string \<Rightarrow> time_point" where
  "sys_date fs path =
    (case fs_last_write_time fs (c_str path) of None \<Rightarrow> tp_min | Some time \<Rightarrow> fs_to_sys fs time)"

definition file_headers :: "('f, 'e) file_system \<Rightarrow> string \<Rightarrow> 'w response \<Rightarrow> 'w response" where
  "file_headers fs path resp =
    (let resp = header_call (Set Content_type (mime_type (fs_beyond fs) path)) resp;
         resp = header_call (Set Accept_ranges ''bytes'') resp;
         resp = header_call (Set Date (format_date (fs_now fs))) resp
     in if sys_date fs path > tp_min
        then header_call (Set Last_modified (format_date (sys_date fs path))) resp else resp)"

definition dec64 :: "u64 \<Rightarrow> string" where
  "dec64 n = dec (unat n)"

text \<open>From the headers on: \<open>size\<close> is the number of bytes to send, the body is cut to the range.\<close>

definition send_file ::
  "('f, 'e) file_system \<Rightarrow> ('f, 'w) beast \<Rightarrow> string \<Rightarrow> range_field \<Rightarrow> u64 \<Rightarrow> 'f value_type \<Rightarrow> 'w response \<Rightarrow>
    exn + filtering \<times> 'w response" where
  "send_file fs bst path range_status sz body resp =
    (let req = rs_req resp;
         resp = header_call (Content_length sz) resp
     in if rq_method req = Verb_head then finish (send bst Empty_body Is_set resp)
        else if range_status \<noteq> Present \<and> modified_since fs (sys_date fs path) req
        then finish (send bst Empty_body Is_set (header_call (Result status_not_modified) resp))
        else finish (send bst (File_body body) Is_set resp))"

definition get_file ::
  "('f, 'e) file_system \<Rightarrow> ('f, 'w) beast \<Rightarrow> string \<Rightarrow> 'w response \<Rightarrow> exn + filtering \<times> 'w response" where
  "get_file fs bst path resp =
    (let req = rs_req resp
     in if fs_is_directory fs (c_str path)
        then finish (moved bst status_moved_permanently (rq_path req @ ''/'') resp)
        else if rq_method req \<noteq> Verb_get \<and> rq_method req \<noteq> Verb_head
        then finish (bad_request bst ''Unknown HTTP-method'' resp)
        else case vt_open (fs_ops fs) (c_str path) Scan
                  \<lparr>vt_file = fs_closed fs, vt_size = 0, vt_first = 0, vt_last = 0\<rparr> of
               (Some ec, body) \<Rightarrow> Inr (Carry_on, resp)
             | (None, body) \<Rightarrow>
                 let sz = payload_size body;
                     (range_status, ranges) = parse_request_ranges sz (rq_find req Range_field);
                     resp = file_headers fs path resp
                 in case range_status of
                      Absent \<Rightarrow> send_file fs bst path range_status sz body resp
                    | Invalid \<Rightarrow>
                        finish (send bst Empty_body Is_set
                          (header_call (Set Content_range (''bytes */'' @ dec64 sz))
                            (header_call (Result status_range_not_satisfiable) resp)))
                    | Present \<Rightarrow>
                        (case ranges of
                           [] \<Rightarrow> Inl Undefined
                         | front # _ \<Rightarrow>
                             send_file fs bst path range_status (r_end front - r_start front + 1)
                               (vt_fragment (r_start front) (r_end front + 1) body)
                               (header_call (Set Content_range
                                   (''bytes '' @ dec64 (r_start front) @ ''-'' @ dec64 (r_end front) @ ''/'' @ dec64 sz))
                                 (header_call (Result status_partial_content) resp))))"

definition resource_from :: "'w response \<Rightarrow> string \<Rightarrow> exn + string" where
  "resource_from resp pfx =
    (case sv_substr (length pfx + 1) (rq_decoded_path (rs_req resp)) of
       Inl e \<Rightarrow> Inl e
     | Inr path \<Rightarrow>
         if rq_decoded_path (rs_req resp) = [] then Inl Undefined
         else Inr (if last (rq_decoded_path (rs_req resp)) = CHR ''/'' then path @ ''index.html'' else path))"

section \<open>Roots\<close>

record shared_roots =
  sr_roots :: "string list"
  sr_verbose :: bool

text \<open>The loop of \<open>expand\<close>: the best time so far, the best candidate if one was found, the output.\<close>

fun expand_loop ::
  "('f, 'e) file_system \<Rightarrow> bool \<Rightarrow> string \<Rightarrow> string list \<Rightarrow> int \<Rightarrow> string option \<Rightarrow> console \<Rightarrow>
    string option \<times> console" where
  "expand_loop fs verbose filename [] best_mtime best_candidate out = (best_candidate, out)"
| "expand_loop fs verbose filename (root # roots) best_mtime best_candidate out =
    (let candidate = path_append root filename;
         out = (if verbose then out @ [(Stdout, ''TRY '' @ candidate @ [CHR 0x0A])] else out)
     in case fs_last_write_time fs (c_str candidate) of
          None \<Rightarrow> expand_loop fs verbose filename roots best_mtime best_candidate out
        | Some mtime \<Rightarrow>
            if mtime \<ge> best_mtime then expand_loop fs verbose filename roots best_mtime best_candidate out
            else expand_loop fs verbose filename roots mtime (Some candidate) out)"

definition expand :: "('f, 'e) file_system \<Rightarrow> shared_roots \<Rightarrow> string \<Rightarrow> exn + string \<times> console" where
  "expand fs sr filename =
    (case expand_loop fs (sr_verbose sr) filename (sr_roots sr) file_time_max None [] of
       (Some best_candidate, out) \<Rightarrow> Inr (best_candidate, out)
     | (None, out) \<Rightarrow>
         (case sr_roots sr of [] \<Rightarrow> Inl Undefined | root # _ \<Rightarrow> Inr (path_append root filename, out)))"

text \<open>The template argument \<open>Mapper\<close>, and the three mappers of the library.\<close>

record mapper =
  mp_path_for :: "string \<Rightarrow> exn + string \<times> console"
  mp_name :: string

definition root_directory :: "string \<Rightarrow> mapper" where
  "root_directory root =
    \<lparr>mp_path_for = (\<lambda>filename. Inr (path_append root filename, [])), mp_name = root\<rparr>"

definition root_directories :: "('f, 'e) file_system \<Rightarrow> shared_roots \<Rightarrow> mapper" where
  "root_directories fs sr = \<lparr>mp_path_for = expand fs sr, mp_name = ''<shared roots>''\<rparr>"

definition named_root_directories :: "('f, 'e) file_system \<Rightarrow> shared_roots \<Rightarrow> string \<Rightarrow> mapper" where
  "named_root_directories fs sr stored_name = (root_directories fs sr)\<lparr>mp_name := stored_name\<rparr>"

section \<open>The filter\<close>

definition static_files_name :: "string \<Rightarrow> string" where
  "static_files_name dir = ''['' @ dir @ '']''"

text \<open>\<open>say\<close> appends to what the process prints.\<close>

definition static_preproc ::
  "('f, 'e) file_system \<Rightarrow> ('f, 'w) beast \<Rightarrow> (console \<Rightarrow> 'w \<Rightarrow> 'w) \<Rightarrow> mapper \<Rightarrow> string \<Rightarrow> 'w response \<Rightarrow>
    exn + filtering \<times> 'w response" where
  "static_preproc fs bst say mp pfx resp =
    (case resource_from resp pfx of
       Inl e \<Rightarrow> Inl e
     | Inr resource \<Rightarrow>
         (case mp_path_for mp resource of
            Inl e \<Rightarrow> Inl e
          | Inr (path, out) \<Rightarrow> get_file fs bst path (resp\<lparr>rs_out := say out (rs_out resp)\<rparr>)))"

definition static_files ::
  "('f, 'e) file_system \<Rightarrow> ('f, 'w) beast \<Rightarrow> (console \<Rightarrow> 'w \<Rightarrow> 'w) \<Rightarrow> mapper \<Rightarrow> 'w filter" where
  "static_files fs bst say mp =
    (base_filter (static_files_name (mp_name mp)) supports_pre)\<lparr>f_preproc := static_preproc fs bst say mp\<rparr>"

end
