(* ===== verification/Filters.thy ===== *)
theory Filters
  imports Router
begin

text \<open>
  The small filters of the library: \<open>cors\<close>, \<open>headers\<close> and \<open>logger\<close>, each one virtual function. What
  the latter two read from the header of a response they ask Beast: \<open>header_view\<close>.
\<close>

record header_view =
  hv_version :: "header_op list \<Rightarrow> nat"
  hv_result_int :: "header_op list \<Rightarrow> nat"
  hv_reason :: "header_op list \<Rightarrow> string"
  hv_fields :: "header_op list \<Rightarrow> (string \<times> string) list"

section \<open>cors\<close>

definition cors_preproc :: "string \<Rightarrow> 'w response \<Rightarrow> exn + filtering \<times> 'w response" where
  "cors_preproc pfx resp = Inr (Carry_on, header_call (Set Allow_origin ''*'') resp)"

definition cors :: "'w filter" where
  "cors = (base_filter ''cors'' supports_pre)\<lparr>f_preproc := cors_preproc\<rparr>"

section \<open>headers\<close>

definition print_fields :: "string \<Rightarrow> (string \<times> string) list \<Rightarrow> console" where
  "print_fields mark fds =
    map (\<lambda>(name, value). (Stdout, mark @ name @ '': '' @ value @ [CHR 0x0A])) fds @
    (if length fds > 0 then [(Stdout, [CHR 0x0A])] else [])"

definition headers_sending ::
  "header_view \<Rightarrow> request \<Rightarrow> string \<Rightarrow> header_op list \<times> console \<Rightarrow> exn + header_op list \<times> console" where
  "headers_sending hv req pfx hw =
    (case hw of (resp, con) \<Rightarrow>
       Inr (resp, con @
         [(Stdout, ''< '' @ rq_method_string req @ '' '' @ rq_target req @ '' HTTP/'' @
             dec (rq_version req div 10) @ ''.'' @ dec (rq_version req mod 10) @ [CHR 0x0A])] @
         print_fields ''< '' (rq_fields req) @
         [(Stdout, ''> HTTP/'' @ dec (hv_version hv resp div 10) @ ''.'' @ dec (hv_version hv resp mod 10) @ '' '' @
             dec (hv_result_int hv resp) @ '' '' @ hv_reason hv resp @ [CHR 0x0A])] @
         print_fields ''> '' (hv_fields hv resp)))"

definition headers :: "header_view \<Rightarrow> 'w filter" where
  "headers hv = (base_filter ''headers'' supports_send)\<lparr>f_sending := headers_sending hv\<rparr>"

section \<open>logger\<close>

definition logger_postproc ::
  "header_view \<Rightarrow> request \<Rightarrow> nat \<Rightarrow> string \<Rightarrow> header_op list \<times> console \<Rightarrow> exn + header_op list \<times> console" where
  "logger_postproc hv req transmitted pfx hw =
    (case hw of (resp, con) \<Rightarrow>
       Inr (resp, con @
         [(Stdout, rq_remote req @ '' '' @ rq_method_string req @ '' '' @ [CHR 0x22] @ rq_target req @ [CHR 0x22] @
             '' '' @ dec (hv_result_int hv resp) @ '' - '' @ dec transmitted @ [CHR 0x0A])]))"

definition logger :: "header_view \<Rightarrow> 'w filter" where
  "logger hv = (base_filter ''logger'' supports_post)\<lparr>f_postproc := logger_postproc hv\<rparr>"

text \<open>Printing leaves the header as it is, and what has been printed.\<close>

lemma headers_keep: "\<exists>out. headers_sending hv req pfx (h, con) = Inr (h, con @ out)"
  by (simp add: headers_sending_def)

end
