(* ===== verification/Session.thy ===== *)
theory Session
  imports Router
begin

text \<open>
  \<open>server/http_session.cc\<close>, \<open>server/http_session.hh\<close> and \<open>fail\<close> of \<open>server/beast.hh\<close>: one
  connection. Its state is the queue of responses and what Asio has been asked to do: the reads
  and the writes that are outstanding. Asio completes them in any order (\<open>session_step\<close>); what a
  request is and how a write ends comes from there. The queue is a \<open>sender\<close>, so the lemmas of
  \<open>message_sender\<close> hold for it.
\<close>

section \<open>State\<close>

text \<open>
  \<open>s_items\<close> is the queue. \<open>s_writing\<close> are the messages whose \<open>async_write\<close> has not ended,
  \<open>s_wire\<close> all messages that were given to \<open>async_write\<close>, in order. \<open>s_parser\<close> is the body limit of
  the current parser.
\<close>

record 'f session =
  s_items :: "'f message list"
  s_parser :: "nat option"
  s_reads :: nat
  s_writing :: "'f message list"
  s_wire :: "'f message list"
  s_shutdown :: bool
  s_console :: console

record 'f session_env =
  e_keep_alive :: "header_op list \<Rightarrow> bool"
  e_reason :: "nat \<Rightarrow> string"
  e_need_eof :: "'f message \<Rightarrow> bool"
  e_beyond :: "nat \<Rightarrow> char"
  e_router :: "'f session router"
  e_server_name :: string
  e_remote :: string

definition session_init :: "console \<Rightarrow> 'f session" where
  "session_init con = \<lparr>s_items = [], s_parser = None, s_reads = 0, s_writing = [], s_wire = [],
     s_shutdown = False, s_console = con\<rparr>"

definition fail_line :: "string \<Rightarrow> string \<Rightarrow> string" where
  "fail_line ec_message what = ''http-router: '' @ what @ '': '' @ ec_message @ [CHR 0x0A]"

definition fail :: "string \<Rightarrow> string \<Rightarrow> 'f session \<Rightarrow> 'f session" where
  "fail ec_message what s = s\<lparr>s_console := s_console s @ [(Stderr, fail_line ec_message what)]\<rparr>"

section \<open>The queue\<close>

definition limit :: nat where "limit = 8"

definition is_full :: "'f session \<Rightarrow> bool" where
  "is_full s \<longleftrightarrow> limit \<le> length (s_items s)"

text \<open>Calling the work item at the front starts the write of its message.\<close>

definition start_write :: "'f session \<Rightarrow> 'f session" where
  "start_write s =
    s\<lparr>s_writing := s_writing s @ [hd (s_items s)], s_wire := s_wire s @ [hd (s_items s)]\<rparr>"

text \<open>Erasing from an empty queue is undefined (and fails the assertion).\<close>

definition queue_on_write :: "'f session \<Rightarrow> exn + bool \<times> 'f session" where
  "queue_on_write s =
    (if s_items s = [] then Inl Undefined
     else let was_full = is_full s;
              s = s\<lparr>s_items := tl (s_items s)\<rparr>
          in Inr (was_full, if s_items s \<noteq> [] then start_write s else s))"

definition queue_send :: "'f message \<Rightarrow> 'f session \<Rightarrow> 'f session" where
  "queue_send msg s =
    (let s = s\<lparr>s_items := s_items s @ [msg]\<rparr>
     in if length (s_items s) = 1 then start_write s else s)"

definition send_response ::
  "'f session_env \<Rightarrow> request \<Rightarrow> 'f message \<Rightarrow> 'f session \<Rightarrow> exn + 'f session" where
  "send_response env req msg s =
    (case before_send (e_router env) req (m_header msg, s_console s) of
       Inl e \<Rightarrow> Inl e
     | Inr (header, con) \<Rightarrow> Inr (queue_send (msg\<lparr>m_header := header\<rparr>) (s\<lparr>s_console := con\<rparr>)))"

definition session_beast :: "'f session_env \<Rightarrow> ('f, 'f session) beast" where
  "session_beast env =
    \<lparr>b_keep_alive = e_keep_alive env, b_reason = e_reason env, b_send = send_response env\<rparr>"

section \<open>The session\<close>

definition do_read :: "'f session \<Rightarrow> 'f session" where
  "do_read s = s\<lparr>s_parser := Some 10000, s_reads := s_reads s + 1\<rparr>"

definition do_close :: "'f session \<Rightarrow> 'f session" where
  "do_close s = s\<lparr>s_shutdown := True\<rparr>"

definition run :: "'f session \<Rightarrow> 'f session" where
  "run s = do_read s"

datatype read_result = End_of_stream | Read_failed string | Got beast_request

definition first_response :: "'f session_env \<Rightarrow> beast_request \<Rightarrow> 'f session \<Rightarrow> 'f session response" where
  "first_response env http_req s =
    (let req = request_make (e_beyond env) http_req (e_remote env);
         resp = header_call (Set Server (e_server_name env)) (response_make (rq_version http_req) req s)
     in header_call (Keep_alive (rq_keep_alive http_req \<or> rq_version http_req > 10)) resp)"

definition on_read :: "'f session_env \<Rightarrow> read_result \<Rightarrow> 'f session \<Rightarrow> exn + 'f session" where
  "on_read env res s =
    (case res of
       End_of_stream \<Rightarrow> Inr (do_close s)
     | Read_failed ec \<Rightarrow> Inr (fail ec ''read'' s)
     | Got http_req \<Rightarrow>
         (case handle_request (session_beast env) (e_router env) (first_response env http_req s) of
            Inl e \<Rightarrow> Inl e
          | Inr resp \<Rightarrow>
              let s = rs_out resp
              in Inr (if \<not> is_full s then do_read s else s)))"

definition on_write :: "bool \<Rightarrow> string option \<Rightarrow> 'f session \<Rightarrow> exn + 'f session" where
  "on_write cls ec s =
    (case ec of
       Some msg \<Rightarrow> Inr (fail msg ''write'' s)
     | None \<Rightarrow>
         if cls then Inr (do_close s)
         else case queue_on_write s of
                Inl e \<Rightarrow> Inl e
              | Inr (was_full, s) \<Rightarrow> Inr (if was_full then do_read s else s))"

section \<open>Steps\<close>

text \<open>
  Asio ends an outstanding read or write and calls its handler. The handler of a write is bound to
  what \<open>need_eof\<close> said of its message. A handler that throws ends the program: there is no step.
\<close>

definition read_done :: "'f session_env \<Rightarrow> read_result \<Rightarrow> 'f session \<Rightarrow> exn + 'f session" where
  "read_done env res s = on_read env res (s\<lparr>s_reads := s_reads s - 1\<rparr>)"

definition write_done :: "'f session_env \<Rightarrow> nat \<Rightarrow> string option \<Rightarrow> 'f session \<Rightarrow> exn + 'f session" where
  "write_done env i ec s =
    on_write (e_need_eof env (s_writing s ! i)) ec
      (s\<lparr>s_writing := take i (s_writing s) @ drop (Suc i) (s_writing s)\<rparr>)"

inductive session_step :: "'f session_env \<Rightarrow> 'f session \<Rightarrow> 'f session \<Rightarrow> bool" for env where
  Read: "0 < s_reads s \<Longrightarrow> read_done env res s = Inr s' \<Longrightarrow> session_step env s s'"
| Write: "i < length (s_writing s) \<Longrightarrow> write_done env i ec s = Inr s' \<Longrightarrow> session_step env s s'"

inductive_cases session_stepE: "session_step env s s'"

inductive session_reachable :: "'f session_env \<Rightarrow> 'f session \<Rightarrow> bool" for env where
  Start: "session_reachable env (run (session_init con))"
| Step: "session_reachable env s \<Longrightarrow> session_step env s s' \<Longrightarrow> session_reachable env s'"

section \<open>The queue is a sender\<close>

text \<open>The responses in the order in which they were given to the queue: those written or being written,
  then those behind the front.\<close>

definition sent :: "'f session \<Rightarrow> 'f message list" where
  "sent s = s_wire s @ tl (s_items s)"

text \<open>At most the front of the queue is being written, and it is the last message given to the stream.\<close>

definition queue_inv :: "'f session \<Rightarrow> bool" where
  "queue_inv s \<longleftrightarrow> (s_writing s = [] \<or> s_items s \<noteq> [] \<and> s_writing s = [hd (s_items s)]) \<and>
    (s_items s \<noteq> [] \<longrightarrow> s_wire s \<noteq> [] \<and> last (s_wire s) = hd (s_items s))"

text \<open>Nothing is being written although something is queued: a write has failed, or the connection was
  closed.\<close>

definition stalled :: "'f session \<Rightarrow> bool" where
  "stalled s \<longleftrightarrow> s_items s \<noteq> [] \<and> s_writing s = []"

text \<open>What sending does not change: all but the queue, how many messages have left it, and whether it is
  stalled.\<close>

definition session_frame :: "'f session \<Rightarrow> nat \<times> nat option \<times> bool \<times> nat \<times> bool" where
  "session_frame s = (s_reads s, s_parser s, s_shutdown s, length (sent s) - length (s_items s), stalled s)"

lemma queue_send_queue:
  assumes "queue_inv s"
  shows "queue_inv (queue_send msg s)" "sent (queue_send msg s) = sent s @ [msg]"
    "session_frame (queue_send msg s) = session_frame s"
    "s_items (queue_send msg s) = s_items s @ [msg]"
  using assms
  by (cases "s_items s"; simp add: queue_send_def queue_inv_def sent_def start_write_def session_frame_def stalled_def)+

lemma queue_console: "queue_inv (s\<lparr>s_console := con\<rparr>) = queue_inv s" "sent (s\<lparr>s_console := con\<rparr>) = sent s"
  "session_frame (s\<lparr>s_console := con\<rparr>) = session_frame s"
  by (simp_all add: queue_inv_def sent_def session_frame_def stalled_def)

lemma send_response_queue:
  assumes "queue_inv s" "send_response env req msg s = Inr s'"
  obtains h con where "s' = queue_send \<lparr>m_header = h, m_body = m_body msg\<rparr> (s\<lparr>s_console := con\<rparr>)"
    "queue_inv (s\<lparr>s_console := con\<rparr>)"
  using assms by (auto simp: send_response_def queue_console split: sum.splits) (metis message.surjective old.unit.exhaust message.update_convs(1))

interpretation session_queue: message_sender "session_beast env" sent queue_inv session_frame for env
proof
  fix w w' :: "'a session" and req msg
  assume "queue_inv w" "b_send (session_beast env) req msg w = Inr w'"
  then obtain h con where w': "w' = queue_send \<lparr>m_header = h, m_body = m_body msg\<rparr> (w\<lparr>s_console := con\<rparr>)"
    and inv: "queue_inv (w\<lparr>s_console := con\<rparr>)"
    using send_response_queue by (metis beast.select_convs(3) session_beast_def)
  show "queue_inv w'" "session_frame w' = session_frame w"
    "\<exists>h. sent w' = sent w @ [\<lparr>m_header = h, m_body = m_body msg\<rparr>]"
    unfolding w' queue_send_queue [OF inv] by (simp_all add: queue_send_queue [OF inv] queue_console)
qed

text \<open>A router whose filters and callbacks answer each request once, through the sender alone.\<close>

definition answers_once :: "'f session router \<Rightarrow> bool" where
  "answers_once rt \<longleftrightarrow> message_sender.good_router sent queue_inv session_frame rt"

section \<open>The invariant of a session\<close>

definition session_inv :: "'f session \<Rightarrow> bool" where
  "session_inv s \<longleftrightarrow> queue_inv s \<and> s_reads s \<le> 1 \<and> length (s_items s) \<le> limit \<and>
    (s_reads s = 1 \<longrightarrow> length (s_items s) < limit)"

lemma items_le_sent: "queue_inv s \<Longrightarrow> length (s_items s) \<le> length (sent s)"
  by (cases "s_items s"; cases "s_wire s") (auto simp: queue_inv_def sent_def)

lemma wire_sent:
  assumes "queue_inv s" "s_items s \<noteq> []"
  shows "s_wire s = take (Suc (length (sent s) - length (s_items s))) (sent s)"
  using assms by (cases "s_items s"; cases "s_wire s") (auto simp: queue_inv_def sent_def)

text \<open>What answering one message does to the queue.\<close>

lemma frame_answer:
  assumes "queue_inv s" "queue_inv s'" "session_frame s' = session_frame s" "sent s' = sent s @ [m]"
  shows "length (s_items s') = Suc (length (s_items s))" "stalled s \<Longrightarrow> s_wire s' = s_wire s"
    "s_reads s' = s_reads s" "stalled s' = stalled s" "s_shutdown s' = s_shutdown s"
proof -
  have rest: "length (sent s') - length (s_items s') = length (sent s) - length (s_items s)"
    using assms(3) by (simp add: session_frame_def)
  with assms(4) items_le_sent [OF assms(1)] items_le_sent [OF assms(2)]
  show len: "length (s_items s') = Suc (length (s_items s))" by simp
  show "s_reads s' = s_reads s" "stalled s' = stalled s" "s_shutdown s' = s_shutdown s"
    using assms(3) by (simp_all add: session_frame_def)
  show "s_wire s' = s_wire s" if "stalled s"
  proof -
    have items: "s_items s \<noteq> []" "s_items s' \<noteq> []" using that len by (auto simp: stalled_def)
    have "Suc (length (sent s) - length (s_items s)) \<le> length (sent s)"
      using items(1) items_le_sent [OF assms(1)] by (cases "s_items s") auto
    then show ?thesis
      using wire_sent [OF assms(1) items(1)] wire_sent [OF assms(2) items(2)] rest assms(4) by simp
  qed
qed

lemma queue_simps [simp]:
  "queue_inv (s\<lparr>s_reads := n\<rparr>) = queue_inv s" "sent (s\<lparr>s_reads := n\<rparr>) = sent s"
  "queue_inv (do_read s) = queue_inv s" "sent (do_read s) = sent s" "s_items (do_read s) = s_items s"
  "queue_inv (do_close s) = queue_inv s" "sent (do_close s) = sent s" "s_items (do_close s) = s_items s"
  "queue_inv (fail msg what s) = queue_inv s" "sent (fail msg what s) = sent s"
  "s_items (fail msg what s) = s_items s" "s_reads (do_close s) = s_reads s"
  "s_reads (fail msg what s) = s_reads s" "s_reads (do_read s) = Suc (s_reads s)"
  "s_wire (do_read s) = s_wire s" "s_wire (do_close s) = s_wire s" "s_wire (fail msg what s) = s_wire s"
  "s_writing (do_read s) = s_writing s" "s_writing (do_close s) = s_writing s"
  "s_writing (fail msg what s) = s_writing s"
  "s_items (s\<lparr>s_reads := n\<rparr>) = s_items s" "stalled (s\<lparr>s_reads := n\<rparr>) = stalled s"
  "stalled (do_read s) = stalled s" "stalled (do_close s) = stalled s" "stalled (fail msg what s) = stalled s"
  by (simp_all add: stalled_def queue_inv_def sent_def do_read_def do_close_def fail_def)

text \<open>Reading a request: one answer, and the next read unless the queue is full.\<close>

lemma read_request:
  assumes "answers_once (e_router env)" "queue_inv s" "read_done env (Got rq) s = Inr s'"
  obtains s1 m where "s' = (if is_full s1 then s1 else do_read s1)" "queue_inv s1"
    "session_frame s1 = session_frame (s\<lparr>s_reads := s_reads s - 1\<rparr>)" "sent s1 = sent s @ [m]"
proof -
  let ?s = "s\<lparr>s_reads := s_reads s - 1\<rparr>"
  have out: "rs_out (first_response env rq ?s) = ?s"
    by (simp add: first_response_def header_call_def response_make_def Let_def)
  from assms(3) obtain r where r: "handle_request (session_beast env) (e_router env) (first_response env rq ?s) = Inr r"
    "s' = (if is_full (rs_out r) then rs_out r else do_read (rs_out r))"
    by (auto simp: read_done_def on_read_def Let_def split: sum.splits if_splits)
  from session_queue.handle_request_answers [OF assms(1) [unfolded answers_once_def] _ r(1)] assms(2)
  obtain body where "session_queue.answered ?s body (rs_out r)" unfolding out by auto
  then show ?thesis using that r(2) by (auto simp: session_queue.answered_def)
qed

lemma read_cases:
  assumes "answers_once (e_router env)" "queue_inv s" "read_done env res s = Inr s'" "0 < s_reads s"
  shows "queue_inv s' \<and> (stalled s' \<longleftrightarrow> stalled s) \<and> (stalled s \<longrightarrow> s_wire s' = s_wire s) \<and>
    (case res of
       Got rq \<Rightarrow> (\<exists>m. sent s' = sent s @ [m]) \<and> length (s_items s') = Suc (length (s_items s)) \<and>
         s_reads s' = s_reads s - 1 + (if length (s_items s') < limit then 1 else 0)
     | _ \<Rightarrow> sent s' = sent s \<and> s_items s' = s_items s \<and> s_reads s' = s_reads s - 1)"
proof (cases res)
  case (Got rq)
  with read_request [OF assms(1,2)] assms(3) obtain s1 m where s1:
    "s' = (if is_full s1 then s1 else do_read s1)" "queue_inv s1"
    "session_frame s1 = session_frame (s\<lparr>s_reads := s_reads s - 1\<rparr>)" "sent s1 = sent s @ [m]" by blast
  have "queue_inv (s\<lparr>s_reads := s_reads s - 1\<rparr>)" "sent s1 = sent (s\<lparr>s_reads := s_reads s - 1\<rparr>) @ [m]"
    using assms(2) s1(4) by simp_all
  note ans = frame_answer [OF this(1) s1(2,3) this(2)]
  show ?thesis using ans s1(1,2,4) Got by (auto simp: is_full_def)
qed (use assms in \<open>auto simp: read_done_def on_read_def\<close>)

text \<open>The end of a write: either nothing more will be written, or the next message is started.\<close>

lemma write_cases:
  assumes "queue_inv s" "write_done env i ec s = Inr s'" "i < length (s_writing s)"
  shows "queue_inv s' \<and> sent s' = sent s \<and> s_items s \<noteq> [] \<and>
    (if ec = None \<and> \<not> e_need_eof env (hd (s_items s))
     then s_items s' = tl (s_items s) \<and> \<not> stalled s' \<and> s_writing s' = take 1 (s_items s') \<and>
       s_wire s' = s_wire s @ take 1 (s_items s') \<and>
       s_reads s' = s_reads s + (if limit \<le> length (s_items s) then 1 else 0)
     else stalled s' \<and> s_items s' = s_items s \<and> s_wire s' = s_wire s \<and> s_reads s' = s_reads s)"
proof -
  from assms(1,3) have w: "s_items s \<noteq> []" "s_writing s = [hd (s_items s)]" "i = 0" "s_wire s \<noteq> []"
    "last (s_wire s) = hd (s_items s)"
    by (auto simp: queue_inv_def)
  let ?s = "s\<lparr>s_writing := []\<rparr>"
  have done_: "write_done env i ec s = on_write (e_need_eof env (hd (s_items s))) ec ?s"
    by (simp add: write_done_def w)
  show ?thesis
  proof (cases "ec = None \<and> \<not> e_need_eof env (hd (s_items s))")
    case True
    then have "s' = (if is_full ?s then do_read else id) (if tl (s_items s) \<noteq> []
        then start_write (?s\<lparr>s_items := tl (s_items s)\<rparr>) else ?s\<lparr>s_items := tl (s_items s)\<rparr>)"
      using assms(2) done_ w(1) by (simp add: on_write_def queue_on_write_def Let_def split: if_splits)
    then show ?thesis
      using True w by (cases "s_items s"; cases "tl (s_items s)")
        (auto simp: queue_inv_def sent_def stalled_def start_write_def do_read_def is_full_def)
  next
    case False
    then have "s' = do_close ?s \<or> (\<exists>msg. s' = fail msg ''write'' ?s)"
      using assms(2) done_ by (auto simp: on_write_def split: option.splits)
    then show ?thesis
      using False w by (auto simp: queue_inv_def sent_def stalled_def do_close_def fail_def)
  qed
qed

lemma session_inv_step:
  assumes "answers_once (e_router env)" "session_inv s" "session_step env s s'"
  shows "session_inv s'"
  using assms(3)
proof (elim session_stepE)
  fix res
  assume read: "0 < s_reads s" "read_done env res s = Inr s'"
  then have "queue_inv s" "s_reads s = 1" "length (s_items s) < limit"
    using assms(2) by (auto simp: session_inv_def)
  with read_cases [OF assms(1) this(1) read(2,1)] show ?thesis
    by (auto simp: session_inv_def split: read_result.splits)
next
  fix i ec
  assume wrote: "i < length (s_writing s)" "write_done env i ec s = Inr s'"
  have "queue_inv s" using assms(2) by (simp add: session_inv_def)
  with write_cases [OF this wrote(2,1)] assms(2) show ?thesis
    by (auto simp: session_inv_def limit_def split: if_splits)
qed

lemma session_inv_start: "session_inv (run (session_init con))"
  by (simp add: session_inv_def run_def do_read_def session_init_def queue_inv_def limit_def)

lemma session_inv_reachable:
  assumes "session_reachable env s" "answers_once (e_router env)"
  shows "session_inv s"
  using assms by (induction rule: session_reachable.induct) (auto intro: session_inv_start session_inv_step)

end
