(* ===== verification/Session_Properties.thy ===== *)
theory Session_Properties
  imports Session
begin

text \<open>
  The properties of a connection: what holds in every reachable state when each request is answered
  once, the order of the answers, how the queue is emptied, and what goes wrong when a request is
  answered twice or a write fails.
\<close>

section \<open>A session for the witnesses\<close>

text \<open>No routes: every request is answered with an error page.\<close>

definition plain_env :: "nat option session_env" where
  "plain_env = \<lparr>e_keep_alive = (\<lambda>h. Keep_alive True \<in> set h), e_reason = (\<lambda>st. ''Reason''),
     e_need_eof = (\<lambda>m. False), e_beyond = (\<lambda>i. CHR '' ''), e_router = \<lparr>r_routes = [], r_filters = []\<rparr>,
     e_server_name = ''test'', e_remote = ''127.0.0.1''\<rparr>"

definition get_request :: "string \<Rightarrow> beast_request" where
  "get_request target = \<lparr>rq_method = Verb_get, rq_method_string = ''GET'', rq_target = target, rq_version = 11,
     rq_fields = [], rq_find = Map.empty, rq_keep_alive = True\<rparr>"

lemma plain_env_answers: "answers_once (e_router plain_env)"
  by (simp add: answers_once_def plain_env_def session_queue.good_router_def)

text \<open>The state after reading one request.\<close>

definition after_one :: "nat option session" where
  "after_one = projr (read_done plain_env (Got (get_request ''/a'')) (run (session_init [])))"

lemma plain_read: "\<exists>s'. read_done plain_env res s = Inr s'"
  by (cases res)
    (simp_all add: read_done_def on_read_def handle_request_def dispatch_def not_found_def bad_request_def
      stock_response_def send_def session_beast_def send_response_def before_send_def plain_env_def Let_def)

lemma after_one: "read_done plain_env (Got (get_request ''/a'')) (run (session_init [])) = Inr after_one"
  using plain_read [of "Got (get_request ''/a'')" "run (session_init [])"] by (auto simp: after_one_def)

lemma after_one_state:
  "session_inv after_one" "queue_inv after_one" "length (s_items after_one) = 1" "\<not> stalled after_one"
  "s_reads after_one = 1" "s_writing after_one \<noteq> []"
proof -
  let ?s = "run (session_init []) :: nat option session"
  have "queue_inv ?s" "s_reads ?s = 1" "\<not> stalled ?s" "s_items ?s = []"
    by (simp_all add: queue_inv_def run_def session_init_def do_read_def stalled_def)
  moreover note read_cases [OF plain_env_answers this(1) after_one]
  ultimately show "queue_inv after_one" "length (s_items after_one) = 1" "\<not> stalled after_one"
    "s_reads after_one = 1"
    by (simp_all add: limit_def)
  then show "session_inv after_one" "s_writing after_one \<noteq> []"
    by (auto simp: session_inv_def limit_def stalled_def)
qed

lemma after_one_reachable: "session_reachable plain_env after_one"
proof -
  have "session_step plain_env (run (session_init [])) after_one"
    by (rule session_step.Read [OF _ after_one]) (simp add: run_def)
  then show ?thesis by (rule session_reachable.Step [OF session_reachable.Start])
qed

section \<open>The state of a session\<close>

text \<open>C4: When every request is answered once, then in every state of a session at most one response is
  being written and it is the one at the front of the queue, the queue holds at most eight
  responses and is the end of the responses sent so far, and there is at most one read, none
  while the queue is full.\<close>

theorem session_invariant:
  assumes "session_reachable env s" "answers_once (e_router env)"
  shows "(s_writing s = [] \<or> s_items s \<noteq> [] \<and> s_writing s = [hd (s_items s)]) \<and>
    length (s_items s) \<le> limit \<and> suffix (s_items s) (sent s) \<and>
    s_reads s \<le> (if is_full s then 0 else 1)"
proof -
  have inv: "session_inv s" by (rule session_inv_reachable [OF assms])
  then have "suffix (s_items s) (sent s)"
    by (cases "s_items s"; cases "s_wire s" rule: rev_cases)
      (auto simp: session_inv_def queue_inv_def sent_def suffix_def)
  with inv show ?thesis by (auto simp: session_inv_def queue_inv_def is_full_def)
qed

theorem session_invariant_witness: "length (s_items after_one) \<le> 8"
  using session_invariant [OF after_one_reachable plain_env_answers] by (simp add: limit_def)

section \<open>The answers\<close>

text \<open>Some steps of a session, in which \<open>n\<close> requests are read.\<close>

inductive handled :: "'f session_env \<Rightarrow> 'f session \<Rightarrow> nat \<Rightarrow> 'f session \<Rightarrow> bool" for env where
  Nothing: "handled env s 0 s"
| Request: "handled env s n s1 \<Longrightarrow> 0 < s_reads s1 \<Longrightarrow> read_done env (Got rq) s1 = Inr s2 \<Longrightarrow>
    handled env s (Suc n) s2"
| Read_end: "handled env s n s1 \<Longrightarrow> 0 < s_reads s1 \<Longrightarrow> (\<forall>rq. res \<noteq> Got rq) \<Longrightarrow> read_done env res s1 = Inr s2 \<Longrightarrow>
    handled env s n s2"
| Written: "handled env s n s1 \<Longrightarrow> i < length (s_writing s1) \<Longrightarrow> write_done env i ec s1 = Inr s2 \<Longrightarrow>
    handled env s n s2"

lemma wire_prefix: "prefix (s_wire s) (sent s)"
  by (simp add: sent_def)

text \<open>C9: Responses are sent in the order of the requests: while \<open>n\<close> requests are read, \<open>n\<close> responses are
  added at the end of those sent, and those given to the stream are always the first of the
  responses sent.\<close>

theorem answers_in_order:
  assumes "handled env s n s'" "session_inv s" "answers_once (e_router env)"
  shows "(\<exists>ms. length ms = n \<and> sent s' = sent s @ ms) \<and> prefix (s_wire s') (sent s') \<and> session_inv s'"
proof -
  from assms(1,2) have "(\<exists>ms. length ms = n \<and> sent s' = sent s @ ms) \<and> session_inv s'"
  proof (induction rule: handled.induct)
    case (Nothing s)
    then show ?case by simp
  next
    case (Request s n s1 rq s2)
    then have inv: "session_inv s1" by blast
    then have "queue_inv s1" by (simp add: session_inv_def)
    from read_cases [OF assms(3) this Request.hyps(3,2)] Request.IH [OF Request.prems] obtain ms m
      where "length ms = n" "sent s2 = sent s @ (ms @ [m])" by auto
    moreover have "session_inv s2"
      using session_inv_step [OF assms(3) inv session_step.Read [OF Request.hyps(2,3)]] .
    ultimately show ?case by (intro conjI exI [of _ "ms @ [m]"]) simp_all
  next
    case (Read_end s n s1 res s2)
    then have inv: "session_inv s1" by blast
    then have "queue_inv s1" by (simp add: session_inv_def)
    from read_cases [OF assms(3) this Read_end.hyps(4,2)] Read_end.hyps(3) have "sent s2 = sent s1"
      by (auto split: read_result.splits)
    moreover have "session_inv s2"
      using session_inv_step [OF assms(3) inv session_step.Read [OF Read_end.hyps(2,4)]] .
    ultimately show ?case using Read_end.IH [OF Read_end.prems] by auto
  next
    case (Written s n s1 i ec s2)
    then have inv: "session_inv s1" by blast
    then have "queue_inv s1" by (simp add: session_inv_def)
    from write_cases [OF this Written.hyps(3,2)] have "sent s2 = sent s1" by blast
    moreover have "session_inv s2"
      using session_inv_step [OF assms(3) inv session_step.Write [OF Written.hyps(2,3)]] .
    ultimately show ?case using Written.IH [OF Written.prems] by auto
  qed
  then show ?thesis by (simp add: wire_prefix)
qed

theorem answers_in_order_witness: "length (sent after_one) = 1"
proof -
  have "handled plain_env (run (session_init [])) 1 after_one"
    using handled.Request [OF handled.Nothing _ after_one] by (simp add: run_def)
  from answers_in_order [OF this session_inv_start plain_env_answers] show ?thesis
    by (auto simp: sent_def run_def do_read_def session_init_def)
qed

section \<open>Writing\<close>

fun write_all :: "'f session_env \<Rightarrow> nat \<Rightarrow> 'f session \<Rightarrow> exn + 'f session" where
  "write_all env 0 s = Inr s"
| "write_all env (Suc n) s = (case write_done env 0 None s of Inl e \<Rightarrow> Inl e | Inr s \<Rightarrow> write_all env n s)"

lemma write_succeeds:
  assumes "queue_inv s" "s_writing s \<noteq> []"
  shows "\<exists>s'. write_done env 0 None s = Inr s'"
proof -
  have "s_items s \<noteq> []" using assms by (auto simp: queue_inv_def)
  then show ?thesis
    by (simp add: write_done_def on_write_def queue_on_write_def Let_def)
qed

text \<open>C17: While writes succeed and no response closes the connection, everything queued gets written:
  as many writes as there are responses in the queue empty it, all responses sent have then
  been given to the stream in order, and if the queue was full exactly one new read is started.\<close>

theorem queue_drains:
  assumes "session_inv s" "\<not> stalled s" "\<forall>m \<in> set (s_items s). \<not> e_need_eof env m"
  shows "\<exists>s'. write_all env (length (s_items s)) s = Inr s' \<and> s_items s' = [] \<and> s_writing s' = [] \<and>
    s_wire s' = sent s \<and> s_reads s' = (if is_full s then 1 else s_reads s)"
  using assms
proof (induction "length (s_items s)" arbitrary: s)
  case 0
  then show ?case by (auto simp: sent_def session_inv_def queue_inv_def is_full_def limit_def)
next
  case (Suc n)
  then have inv: "queue_inv s" by (simp add: session_inv_def)
  from Suc.hyps(2) Suc.prems(2) have items: "s_items s \<noteq> []" "s_writing s \<noteq> []" by (auto simp: stalled_def)
  then obtain s1 where s1: "write_done env 0 None s = Inr s1" using write_succeeds [OF inv] by blast
  from items have "hd (s_items s) \<in> set (s_items s)" by simp
  with write_cases [OF inv s1] items Suc.prems(3) have w:
    "queue_inv s1" "sent s1 = sent s" "s_items s1 = tl (s_items s)" "\<not> stalled s1"
    "s_reads s1 = s_reads s + (if limit \<le> length (s_items s) then 1 else 0)" by auto
  have len: "n = length (s_items s1)" using Suc.hyps(2) w(3) by simp
  have "Suc (length (s_items s1)) = length (s_items s)" using len Suc.hyps(2) by simp
  moreover have "length (s_items s) \<le> limit" using Suc.prems(1) by (simp add: session_inv_def)
  ultimately have small: "length (s_items s1) < limit" by linarith
  then have "session_inv s1"
    using Suc.prems(1) w by (auto simp: session_inv_def)
  moreover have "\<forall>m \<in> set (s_items s1). \<not> e_need_eof env m"
    using Suc.prems(3) w(3) by (auto dest: list.set_sel(2) [OF items(1)])
  ultimately obtain s' where "write_all env (length (s_items s1)) s1 = Inr s'" "s_items s' = []" "s_writing s' = []"
    "s_wire s' = sent s1" "s_reads s' = (if is_full s1 then 1 else s_reads s1)"
    using Suc.hyps(1) [OF len _ w(4)] by blast
  moreover have "s_reads s = 0" if "is_full s"
    using that Suc.prems(1) by (auto simp: session_inv_def is_full_def)
  ultimately show ?case
    using s1 w(2,5) small by (auto simp: is_full_def len simp flip: Suc.hyps(2))
qed

theorem queue_drains_witness: "\<exists>s'. write_all plain_env 1 after_one = Inr s' \<and> s_wire s' = sent after_one"
  using queue_drains [OF after_one_state(1,4), of plain_env] after_one_state(3)
  by (auto simp: plain_env_def)


text \<open>The write of the first response fails.\<close>

definition after_failure :: "nat option session" where
  "after_failure = projr (write_done plain_env 0 (Some ''reset'') after_one)"


section \<open>Requests answered twice\<close>

lemma send_quiet:
  assumes "\<And>req hw. before_send (e_router env) req hw = Inr hw"
  obtains m h where "send (session_beast env) body cl r = Inr (r\<lparr>rs_header := h, rs_out := queue_send m (rs_out r)\<rparr>)"
proof -
  have "\<exists>m h. send (session_beast env) body cl r = Inr (r\<lparr>rs_header := h, rs_out := queue_send m (rs_out r)\<rparr>)"
    by (cases r) (auto simp: send_def session_beast_def send_response_def assms header_call_def Let_def)
  with that show ?thesis by blast
qed

lemma stock_quiet:
  assumes "\<And>req hw. before_send (e_router env) req hw = Inr hw"
  shows "\<exists>m r'. stock_response (session_beast env) st msg r = Inr r' \<and> rs_out r' = queue_send m (rs_out r)"
proof -
  let ?r = "header_call (Set Content_type ''text/html; charset=UTF-8'') (header_call (Result st) r)"
  obtain m h where "send (session_beast env) (String_body (stock_page st (b_reason (session_beast env) st) msg)) Unset ?r =
      Inr (?r\<lparr>rs_header := h, rs_out := queue_send m (rs_out ?r)\<rparr>)"
    by (rule send_quiet [OF assms])
  then show ?thesis by (auto simp: stock_response_def header_call_def)
qed

text \<open>A filter that sends an answer and lets the request go on to the routes.\<close>

definition chatty :: "nat option session filter" where
  "chatty = (base_filter ''chatty'' supports_pre)
     \<lparr>f_preproc := (\<lambda>pfx r. map_sum id (Pair Carry_on) (send (session_beast plain_env) Empty_body Unset r))\<rparr>"

definition chatty_env :: "nat option session_env" where
  "chatty_env = plain_env\<lparr>e_router := \<lparr>r_routes = [], r_filters = [([], chatty)]\<rparr>\<rparr>"

lemma quiet_envs:
  "before_send (e_router plain_env) req hw = Inr hw" "before_send (e_router chatty_env) req hw = Inr hw"
  by (simp_all add: before_send_def plain_env_def chatty_env_def chatty_def base_filter_def
      filter_supports_def has_flag_def supports_defs)

lemma chatty_handle:
  assumes "rq_decoded_path (rs_req r) = ''/''"
  shows "\<exists>m1 m2 r'. handle_request (session_beast chatty_env) (e_router chatty_env) r = Inr r' \<and>
    rs_out r' = queue_send m2 (queue_send m1 (rs_out r))"
proof -
  obtain m1 h1 where one: "send (session_beast plain_env) Empty_body Unset r =
      Inr (r\<lparr>rs_header := h1, rs_out := queue_send m1 (rs_out r)\<rparr>)"
    by (rule send_quiet [OF quiet_envs(1)])
  let ?r = "r\<lparr>rs_header := h1, rs_out := queue_send m1 (rs_out r)\<rparr>"
  have pre: "pre_filters (r_filters (e_router chatty_env)) ''/'' r = Inr (Carry_on, ?r)"
    by (simp add: chatty_env_def chatty_def base_filter_def filter_supports_def has_flag_def supports_defs
        prefixes_def one)
  have "\<not> has_up_dir ''/''" by code_simp
  with pre assms have "handle_request (session_beast chatty_env) (e_router chatty_env) r =
      not_found (session_beast chatty_env) ''/'' ?r"
    by (simp add: handle_request_def dispatch_def) (simp add: chatty_env_def)
  moreover have "\<exists>m2 r'. not_found (session_beast chatty_env) ''/'' ?r = Inr r' \<and>
      rs_out r' = queue_send m2 (queue_send m1 (rs_out r))"
    using stock_quiet [of chatty_env, OF quiet_envs(2), of _ _ ?r] by (simp add: not_found_def)
  ultimately show ?thesis by auto
qed

lemma chatty_read:
  assumes "queue_inv s" "0 < s_reads s" "\<not> stalled s"
  shows "\<exists>s'. read_done chatty_env (Got (get_request ''/'')) s = Inr s' \<and> queue_inv s' \<and> \<not> stalled s' \<and>
    length (s_items s') = length (s_items s) + 2 \<and>
    s_reads s' = s_reads s - 1 + (if length (s_items s) + 2 < limit then 1 else 0)"
proof -
  let ?s = "s\<lparr>s_reads := s_reads s - 1\<rparr>"
  let ?r = "first_response chatty_env (get_request ''/'') ?s"
  have "rq_decoded_path (request_make (e_beyond chatty_env) (get_request ''/'') (e_remote chatty_env)) = ''/''"
    by code_simp
  then have path: "rq_decoded_path (rs_req ?r) = ''/''" and out: "rs_out ?r = ?s"
    by (simp_all add: first_response_def response_make_def header_call_def)
  from chatty_handle [OF path] obtain m1 m2 r' where
    h: "handle_request (session_beast chatty_env) (e_router chatty_env) ?r = Inr r'"
    "rs_out r' = queue_send m2 (queue_send m1 ?s)" unfolding out by blast
  have inv: "queue_inv ?s" using assms(1) by simp
  note one = queue_send_queue [OF inv, of m1]
  note two = queue_send_queue [OF one(1), of m2]
  have fr: "session_frame (rs_out r') = session_frame ?s" unfolding h(2) using one(3) two(3) by simp
  then have "s_reads (rs_out r') = s_reads s - 1" "\<not> stalled (rs_out r')"
    using assms(3) by (simp_all add: session_frame_def)
  moreover have "queue_inv (rs_out r')" "length (s_items (rs_out r')) = length (s_items s) + 2"
    unfolding h(2) using two(1,4) one(4) by simp_all
  moreover have "read_done chatty_env (Got (get_request ''/'')) s =
      Inr (if is_full (rs_out r') then rs_out r' else do_read (rs_out r'))"
    by (simp add: read_done_def on_read_def h(1) Let_def del: One_nat_def)
  ultimately show ?thesis by (auto simp: is_full_def)
qed

lemma chatty_write:
  assumes "queue_inv s" "\<not> stalled s" "s_items s \<noteq> []"
  shows "\<exists>s'. write_done chatty_env 0 None s = Inr s' \<and> queue_inv s' \<and> \<not> stalled s' \<and>
    length (s_items s') = length (s_items s) - 1 \<and>
    s_reads s' = s_reads s + (if limit \<le> length (s_items s) then 1 else 0)"
proof -
  have w: "s_writing s \<noteq> []" using assms(2,3) by (simp add: stalled_def)
  from write_succeeds [OF assms(1) this] obtain s' where s': "write_done chatty_env 0 None s = Inr s'" by blast
  have "\<not> e_need_eof chatty_env (hd (s_items s))" by (simp add: chatty_env_def plain_env_def)
  with write_cases [OF assms(1) s'] w show ?thesis using s' by simp
qed

text \<open>With a filter that answers and carries on a session starts two reads at a time: both use the one
  parser, and the buffer, of the session. \<open>is_full\<close> is asked before an item is removed, so every
  write that ends while more than eight are queued starts another read.\<close>

theorem two_reads_at_once:
  "\<exists>s. session_reachable chatty_env s \<and> s_reads s = 2"
proof -
  define ok where "ok n k s \<longleftrightarrow> session_reachable chatty_env s \<and> queue_inv s \<and> \<not> stalled s \<and>
    length (s_items s) = n \<and> s_reads s = k" for n k s
  have read: "\<exists>s'. ok (n + 2) (k + (if n + 2 < 8 then 1 else 0)) s'" if "\<exists>s. ok n (Suc k) s" for n k
  proof -
    from that obtain s where s: "ok n (Suc k) s" ..
    then obtain s' where s': "read_done chatty_env (Got (get_request ''/'')) s = Inr s'" "queue_inv s'"
      "\<not> stalled s'" "length (s_items s') = n + 2" "s_reads s' = k + (if n + 2 < 8 then 1 else 0)"
      using chatty_read [of s] by (auto simp: ok_def limit_def)
    have "session_step chatty_env s s'" using s by (intro session_step.Read [OF _ s'(1)]) (simp add: ok_def)
    with s s' show ?thesis by (auto simp: ok_def intro: session_reachable.Step)
  qed
  have written: "\<exists>s'. ok n (k + (if 8 \<le> Suc n then 1 else 0)) s'" if "\<exists>s. ok (Suc n) k s" for n k
  proof -
    from that obtain s where s: "ok (Suc n) k s" ..
    then have w: "s_items s \<noteq> []" "s_writing s \<noteq> []" by (auto simp: ok_def stalled_def)
    with s obtain s' where s': "write_done chatty_env 0 None s = Inr s'" "queue_inv s'"
      "\<not> stalled s'" "length (s_items s') = n" "s_reads s' = k + (if 8 \<le> Suc n then 1 else 0)"
      using chatty_write [of s] by (auto simp: ok_def limit_def)
    have "session_step chatty_env s s'" using w(2) by (intro session_step.Write [OF _ s'(1)]) simp
    with s s' show ?thesis by (auto simp: ok_def intro: session_reachable.Step)
  qed
  have "ok 0 1 (run (session_init []))"
    using session_inv_start
    by (simp add: ok_def session_reachable.Start session_inv_def)
      (simp add: run_def do_read_def session_init_def stalled_def queue_inv_def)
  then have "\<exists>s. ok 0 1 s" ..
  then have "\<exists>s. ok 2 1 s" using read [of 0 0] by (simp add: eval_nat_numeral)
  then have "\<exists>s. ok 4 1 s" using read [of 2 0] by (simp add: eval_nat_numeral)
  then have "\<exists>s. ok 6 1 s" using read [of 4 0] by (simp add: eval_nat_numeral)
  then have "\<exists>s. ok 8 0 s" using read [of 6 0] by (simp add: eval_nat_numeral)
  then have "\<exists>s. ok 7 1 s" using written [of 7 0] by (simp add: eval_nat_numeral)
  then have "\<exists>s. ok 9 0 s" using read [of 7 0] by (simp add: eval_nat_numeral)
  then have "\<exists>s. ok 8 1 s" using written [of 8 0] by (simp add: eval_nat_numeral)
  then have "\<exists>s. ok 7 2 s" using written [of 7 1] by (simp add: eval_nat_numeral)
  then show ?thesis by (auto simp: ok_def)
qed

section \<open>Filters that look at sent responses\<close>

text \<open>The environment with another \<open>postproc\<close> in all filters.\<close>

definition with_postproc ::
  "(request \<Rightarrow> nat \<Rightarrow> string \<Rightarrow> header_op list \<times> console \<Rightarrow> exn + header_op list \<times> console) \<Rightarrow>
    'f session_env \<Rightarrow> 'f session_env" where
  "with_postproc pp env =
    env\<lparr>e_router := (e_router env)\<lparr>r_filters :=
      map (\<lambda>(pfx, f). (pfx, f\<lparr>f_postproc := pp\<rparr>)) (r_filters (e_router env))\<rparr>\<rparr>"

lemma pre_filters_postproc:
  "pre_filters (map (\<lambda>(pfx, f). (pfx, f\<lparr>f_postproc := pp\<rparr>)) fs) resource r = pre_filters fs resource r"
  by (induction fs arbitrary: r)
    (auto simp: filter_supports_def split: sum.splits bool.splits filtering.splits)

lemma sending_postproc:
  "run_filters flag (\<lambda>f. f_sending f req) resource (map (\<lambda>(pfx, f). (pfx, f\<lparr>f_postproc := pp\<rparr>)) fs) hw =
    run_filters flag (\<lambda>f. f_sending f req) resource fs hw"
  by (induction fs arbitrary: hw) (auto simp: filter_supports_def split: sum.splits bool.splits)

text \<open>No step of a session runs the \<open>postproc\<close> of a filter: whatever it is, every read and every
  write ends in the same state. The router's \<open>after_send\<close>, and with it the logger, is never called.\<close>

theorem postproc_never_runs:
  fixes env :: "'a session_env"
  shows "read_done (with_postproc pp env) res s = read_done env res s \<and>
   write_done (with_postproc pp env) i ec s = write_done env i ec s"
proof -
  have "before_send (e_router (with_postproc pp env)) req hw = before_send (e_router env) req hw" for req hw
    by (simp add: before_send_def with_postproc_def sending_postproc)
  then have "send_response (with_postproc pp env) = send_response env"
    by (intro ext) (simp add: send_response_def)
  then have bst: "session_beast (with_postproc pp env) = session_beast env"
    by (simp add: session_beast_def) (simp add: with_postproc_def)
  have "handle_request bst (e_router (with_postproc pp env)) r = handle_request bst (e_router env) r"
    for bst :: "('a, 'a session) beast" and r
  proof -
    have "dispatch bst (e_router (with_postproc pp env)) = dispatch bst (e_router env)"
      by (intro ext) (simp add: dispatch_def with_postproc_def)
    moreover have "pre_filters (r_filters (e_router (with_postproc pp env))) = pre_filters (r_filters (e_router env))"
      by (intro ext) (simp add: with_postproc_def pre_filters_postproc)
    ultimately show ?thesis by (simp only: handle_request_def)
  qed
  moreover have "first_response (with_postproc pp env) = first_response env"
    by (intro ext) (simp add: first_response_def with_postproc_def)
  moreover have "e_need_eof (with_postproc pp env) = e_need_eof env" by (simp add: with_postproc_def)
  ultimately show ?thesis
    by (cases res) (simp_all only: read_done_def on_read_def bst write_done_def simp_thms read_result.case)
qed

end
