(* ===== verification/Router_Properties.thy ===== *)
theory Router_Properties
  imports Router Path_Tokens
begin

text \<open>
  The properties of the router: which paths are refused, which filters and which route a request
  reaches, and what the flattening of a configuration produces.
\<close>

section \<open>Refused paths\<close>

text \<open>C12: A decoded path that is empty, does not start with a slash, or has a segment \<open>..\<close> is answered
  with the 400 page before any filter or route sees it: the outcome does not depend on the
  router.\<close>

theorem illegal_path_refused:
  assumes "rq_decoded_path (rs_req r) = [] \<or> hd (rq_decoded_path (rs_req r)) \<noteq> CHR ''/'' \<or>
    ''..'' \<in> set (split_on CHR ''/'' (rq_decoded_path (rs_req r)))"
  shows "handle_request bst rt r = bad_request bst ''Illegal resource path'' r"
  using assms has_up_dir_segments [of "rq_decoded_path (rs_req r)"]
  by (auto simp: handle_request_def Let_def)

definition test_request :: "verb \<Rightarrow> string \<Rightarrow> request" where
  "test_request v target = request_make (\<lambda>i. CHR '' '')
     \<lparr>rq_method = v, rq_method_string = ''GET'', rq_target = target, rq_version = 11,
      rq_fields = [], rq_find = Map.empty, rq_keep_alive = True\<rparr> ''127.0.0.1''"

definition test_beast :: "('f, 'f message list) beast" where
  "test_beast = \<lparr>b_keep_alive = (\<lambda>h. Keep_alive True \<in> set h), b_reason = (\<lambda>st. ''reason''),
     b_send = (\<lambda>req msg out. Inr (out @ [msg]))\<rparr>"

theorem illegal_path_refused_witness:
  "handle_request (test_beast :: (nat, nat message list) beast) \<lparr>r_routes = [], r_filters = []\<rparr>
     (response_make 11 (test_request Verb_get ''/a/%2e%2E/b?x'') []) =
   bad_request test_beast ''Illegal resource path'' (response_make 11 (test_request Verb_get ''/a/%2e%2E/b?x'') [])"
proof (rule illegal_path_refused)
  have "''..'' \<in> set (split_on CHR ''/'' (rq_decoded_path (test_request Verb_get ''/a/%2e%2E/b?x'')))"
    by code_simp
  then show "rq_decoded_path (rs_req (response_make 11 (test_request Verb_get ''/a/%2e%2E/b?x'') [])) = [] \<or>
      hd (rq_decoded_path (rs_req (response_make 11 (test_request Verb_get ''/a/%2e%2E/b?x'') []))) \<noteq> CHR ''/'' \<or>
      ''..'' \<in> set (split_on CHR ''/''
        (rq_decoded_path (rs_req (response_make 11 (test_request Verb_get ''/a/%2e%2E/b?x'') []))))"
    by (simp add: response_make_def)
qed

text \<open>Where a filter applies: to the path that is its prefix, to the paths that go on behind the
  prefix with a slash, to every path that starts with a prefix ending in a slash, and to all
  paths when the prefix is empty. For a path that starts with a slash nothing undefined is
  reached.\<close>

theorem prefix_boundary:
  assumes "resource \<noteq> []" "hd resource = CHR ''/''"
  shows "prefixes pfx resource = Inr (\<exists>rest. resource = pfx @ rest \<and>
    (rest = [] \<or> hd rest = CHR ''/'' \<or> pfx = [] \<or> last pfx = CHR ''/''))"
  using assms by (rule prefixes_absolute)

theorem prefix_boundary_witness:
  "prefixes ''/www'' ''/www/a'' = Inr True \<and> prefixes ''/www'' ''/wwwa'' = Inr False"
proof -
  have "\<exists>rest. ''/www/a'' = ''/www'' @ rest \<and> (rest = [] \<or> hd rest = CHR ''/'' \<or> ''/www'' = [] \<or> last ''/www'' = CHR ''/'')"
    by (intro exI [of _ "''/a''"]) simp
  moreover have "\<not> (\<exists>rest. ''/wwwa'' = ''/www'' @ rest \<and> (rest = [] \<or> hd rest = CHR ''/'' \<or> ''/www'' = [] \<or> last ''/www'' = CHR ''/''))"
    by simp
  ultimately show ?thesis
    using prefix_boundary [of "''/www/a''" "''/www''"] prefix_boundary [of "''/wwwa''" "''/www''"] by simp
qed

section \<open>Dispatch\<close>

lemma matches_miss: "\<not> fst (matches m route params) \<Longrightarrow> matches m route params = (False, params)"
  by (auto simp: matches_def split: option.splits)

lemma find_route_find:
  "find_route rts p params =
    map_option (\<lambda>x. (x, snd (matches (rt_matcher x) p params)))
      (List.find (\<lambda>x. fst (matches (rt_matcher x) p params)) rts)"
proof (induction rts)
  case (Cons x rts)
  then show ?case
    by (cases "matches (rt_matcher x) p params"; cases "fst (matches (rt_matcher x) p params)")
      (auto simp: matches_miss)
qed simp

definition legal_path :: "string \<Rightarrow> bool" where
  "legal_path p \<longleftrightarrow> p \<noteq> [] \<and> hd p = CHR ''/'' \<and> ''..'' \<notin> set (split_on CHR ''/'' p)"

lemma handle_legal:
  "legal_path (rq_decoded_path (rs_req r)) \<Longrightarrow> handle_request bst rt r =
    (case pre_filters (r_filters rt) (rq_decoded_path (rs_req r)) r of
       Inl e \<Rightarrow> Inl e | Inr (Finished, r') \<Rightarrow> Inr r'
     | Inr (Carry_on, r') \<Rightarrow> dispatch bst rt (rq_decoded_path (rs_req r)) r')"
  using has_up_dir_segments [of "rq_decoded_path (rs_req r)"]
  by (simp add: handle_request_def legal_path_def Let_def)

text \<open>C5: On a legal path, once the filters carry on, the first route of the request's method that
  accepts the path is called, with the parameters its matcher bound; without such a route the
  answer is the 404 page, without any route of the method the 400 page.\<close>

theorem first_route_called:
  assumes "legal_path (rq_decoded_path (rs_req r))"
    "pre_filters (r_filters rt) (rq_decoded_path (rs_req r)) r = Inr (Carry_on, r')"
    "rs_req r' = rs_req r" "r_routes rt \<noteq> []"
  shows "handle_request bst rt r =
    (case map_of (r_routes rt) (rq_method (rs_req r)) of
       None \<Rightarrow> bad_request bst ''Unknown HTTP-method'' r'
     | Some rts \<Rightarrow>
         (case List.find (\<lambda>x. fst (matches (rt_matcher x) (rq_decoded_path (rs_req r)) Map.empty)) rts of
            None \<Rightarrow> not_found bst (rq_decoded_path (rs_req r)) r'
          | Some x \<Rightarrow> route_call bst x (snd (matches (rt_matcher x) (rq_decoded_path (rs_req r)) Map.empty)) r'))"
  using assms by (simp add: handle_legal dispatch_def find_route_find split: option.split)

definition text_callback :: "string \<Rightarrow> (nat, nat message list) beast \<Rightarrow> nat message list callback" where
  "text_callback txt bst params r = send bst (String_body txt) Unset r"

definition test_cfg :: "nat message list cfg" where
  "test_cfg = cfg_get ''/u/:id'' (Some (text_callback ''user'' test_beast)) DEFAULT
     (cfg_get ''/u/me'' (Some (text_callback ''me'' test_beast)) DEFAULT cfg_empty)"

text \<open>A router with two routes, the literal one registered first.\<close>

theorem first_route_called_witness:
  "\<exists>rt. map_option fst (case compiled test_cfg of Inl e \<Rightarrow> None | Inr x \<Rightarrow> Some x) = Some rt \<and>
    handle_request test_beast rt (response_make 11 (test_request Verb_get ''/u/me'') []) =
      send test_beast (String_body ''me'') Unset (response_make 11 (test_request Verb_get ''/u/me'') [])"
proof -
  let ?r = "response_make 11 (test_request Verb_get ''/u/me'') [] :: nat message list response"
  define me where "me = \<lparr>rt_mask = ''/u/me'', rt_matcher = route_matcher (parse_matcher ''/u/me'') DEFAULT,
      rt_callback = Some (text_callback ''me'' test_beast)\<rparr>"
  define user where "user = \<lparr>rt_mask = ''/u/:id'', rt_matcher = route_matcher (parse_matcher ''/u/:id'') DEFAULT,
      rt_callback = Some (text_callback ''user'' test_beast)\<rparr>"
  define rt where "rt = \<lparr>r_routes = [(Verb_get, [me, user])], r_filters = []\<rparr>"
  have "route_make ''/u/me'' (Some (text_callback ''me'' test_beast)) DEFAULT = Inr me"
    "route_make ''/u/:id'' (Some (text_callback ''user'' test_beast)) DEFAULT = Inr user"
    using mask_matcher(1) [of "''/u/me''" DEFAULT] mask_matcher(1) [of "''/u/:id''" DEFAULT]
    by (simp_all add: route_make_def me_def user_def)
  then have compiled: "compiled test_cfg = Inr (rt, cfg_empty)"
    by (simp add: test_cfg_def cfg_get_def cfg_add_def cfg_empty_def compiled_def rt_def)
  have path: "rq_decoded_path (rs_req ?r) = ''/u/me''" "rq_method (rs_req ?r) = Verb_get"
    unfolding response_make_def by (simp, code_simp)+
  have "legal_path ''/u/me''" by code_simp
  moreover have hit: "fst (matches (route_matcher (parse_matcher ''/u/me'') DEFAULT) ''/u/me'' Map.empty)"
    by code_simp
  ultimately have "handle_request test_beast rt ?r = text_callback ''me'' test_beast
      (snd (matches (rt_matcher me) ''/u/me'' Map.empty)) ?r"
    using first_route_called [of ?r rt ?r test_beast] path
    by (simp add: rt_def me_def route_call_def)
  with compiled show ?thesis by (simp add: text_callback_def)
qed

section \<open>Filters\<close>

text \<open>C31: The filters that run, before a request, before a response is sent and after it, are exactly
  those that declare the stage and whose prefix applies to the decoded path, in the order in
  which they were added.\<close>

theorem filters_in_order:
  assumes "rq_decoded_path req \<noteq> []" "hd (rq_decoded_path req) = CHR ''/''"
  shows "pre_filters (r_filters rt) (rq_decoded_path req) r =
      pre_chain (filter (applies supports_pre (rq_decoded_path req)) (r_filters rt)) r \<and>
    before_send rt req hw =
      chain (\<lambda>pf. f_sending (snd pf) req (fst pf))
        (filter (applies supports_send (rq_decoded_path req)) (r_filters rt)) hw \<and>
    after_send rt req transmitted hw =
      chain (\<lambda>pf. f_postproc (snd pf) req transmitted (fst pf))
        (filter (applies supports_post (rq_decoded_path req)) (r_filters rt)) hw"
  by (simp add: before_send_def after_send_def pre_filters_chain [OF assms] run_filters_chain [OF assms])

theorem filters_in_order_witness:
  "before_send \<lparr>r_routes = [], r_filters = [(''/b'', base_filter ''x'' supports_send)]\<rparr> (test_request Verb_get ''/a'')
     ([], []) = Inr ([], [])"
proof -
  have path: "rq_decoded_path (test_request Verb_get ''/a'') = ''/a''" by code_simp
  have "prefixes ''/b'' ''/a'' \<noteq> Inr True" by code_simp
  moreover have "rq_decoded_path (test_request Verb_get ''/a'') \<noteq> []"
    "hd (rq_decoded_path (test_request Verb_get ''/a'')) = CHR ''/''" by (simp_all add: path)
  ultimately show ?thesis
    by (simp add: filters_in_order [THEN conjunct2, THEN conjunct1] path applies_def)
qed

text \<open>A filter without prefix that watches responses makes the answer to a request whose target
  does not start with a slash (\<open>OPTIONS *\<close>) undefined: \<open>back()\<close> is called on the empty prefix.\<close>

theorem star_target_undefined:
  assumes "f_type f = supports_send" "rq_decoded_path req \<noteq> []" "hd (rq_decoded_path req) \<noteq> CHR ''/''"
  shows "before_send \<lparr>r_routes = routes, r_filters = ([], f) # fs\<rparr> req hw = Inl Undefined"
  using assms
  by (simp add: before_send_def filter_supports_def has_flag_def prefixes_def)

theorem star_target_undefined_witness:
  "before_send \<lparr>r_routes = [], r_filters = [([], base_filter ''headers'' supports_send)]\<rparr>
     (test_request (Verb_other ''OPTIONS'') ''*'') ([], []) = Inl Undefined"
proof -
  have "rq_decoded_path (test_request (Verb_other ''OPTIONS'') ''*'') = ''*''" by code_simp
  then show ?thesis
    using star_target_undefined [of "base_filter ''headers'' supports_send"
        "test_request (Verb_other ''OPTIONS'') ''*''" "[]" "[]" "([], [])"]
    by (simp add: base_filter_def)
qed

section \<open>Configurations\<close>


definition nested_cfg :: "unit cfg" where
  "nested_cfg = cfg_append ''/api'' (cfg_append ''/v1'' (cfg_get ''/users'' None DEFAULT cfg_empty)
     (cfg_get ''/status'' None DEFAULT cfg_empty)) cfg_empty"


lemma cfgs_masks_append: "cfgs_masks v (a @ b) = cfgs_masks v a @ cfgs_masks v b"
  by (induction a) auto

text \<open>The builder operations keep every verb's list unique, and add at the end: a route with its
  mask, a filter with its path less a final slash, a child behind the configuration's own.\<close>

theorem builder_operations:
  assumes "cfg_ok (Cfg hs fs subs)" "cfg_ok c1"
  shows "cfg_ok (cfg_add path cb u options (Cfg hs fs subs)) \<and> cfg_ok (cfg_use path filt (Cfg hs fs subs)) \<and>
    cfg_ok (cfg_append path c1 (Cfg hs fs subs)) \<and>
    cfg_masks v pfx (cfg_add path cb u options (Cfg hs fs subs)) =
      map (\<lambda>h. pfx @ h_mask h) (handlers_of v hs) @ (if u = v then [pfx @ path] else []) @ cfgs_masks v subs \<and>
    cfg_masks v pfx (cfg_append path c1 (Cfg hs fs subs)) =
      cfg_masks v pfx (Cfg hs fs subs) @ cfg_masks v path c1 \<and>
    cfg_paths pfx (cfg_use (path @ ''/'') filt (Cfg hs fs subs)) =
      map (\<lambda>pf. pfx @ fst pf) fs @ [pfx @ path] @ cfgs_paths subs"
  by (simp add: cfg_ok_operations assms del: cfg_ok.simps)
    (simp add: cfg_add_def cfg_append_def cfg_use_def handlers_push cfgs_masks_append)

theorem builder_operations_witness:
  "cfg_masks Verb_get ''/p'' (cfg_append ''/x'' test_cfg (Cfg [] [] [])) = [''/x/u/me'', ''/x/u/:id'']"
proof -
  have "cfg_ok test_cfg" "cfg_masks Verb_get ''/x'' test_cfg = [''/x/u/me'', ''/x/u/:id'']" by code_simp+
  with builder_operations [of "[]" "[]" "[]" test_cfg "''/x''" None Verb_get 0 "base_filter [] 0" Verb_get "''/p''"]
  show ?thesis by (simp add: handlers_of_def)
qed

end
