(* ===== verification/Static_Properties.thy ===== *)
theory Static_Properties
  imports Static_Files Filters Session_Properties Router_Properties
begin

text \<open>
  The properties of the static files: what is sent for a file, with and without a range, which path
  a request leads to, and that the filter answers each request it finishes once, so that a session
  that serves files has the invariant of sessions.
\<close>

section \<open>Answers\<close>

context message_sender begin

definition answers :: "'w response \<Rightarrow> filtering \<Rightarrow> 'w response \<Rightarrow> bool" where
  "answers r fin r' \<longleftrightarrow> fin = Finished \<and> (\<exists>body. answered (rs_out r) body (rs_out r')) \<and> rs_req r' = rs_req r"

lemma header_call_rest [simp]:
  "answers (header_call op r) fin r' = answers r fin r'" "rs_out (header_call op r) = rs_out r"
  "rs_req (header_call op r) = rs_req r"
  by (simp_all add: answers_def header_call_def)

lemma file_headers_rest [simp]:
  "answers (file_headers fs path r) fin r' = answers r fin r'" "rs_out (file_headers fs path r) = rs_out r"
  "rs_req (file_headers fs path r) = rs_req r"
  by (simp_all add: file_headers_def Let_def)

lemma answers_send: "finish (send bst body cl r) = Inr (fin, r') \<Longrightarrow> inv (rs_out r) \<Longrightarrow> answers r fin r'"
  unfolding answers_def using send_answers by (fastforce simp: finish_def split: sum.splits)

lemma answers_stock:
  "finish (stock_response bst st msg r) = Inr (fin, r') \<Longrightarrow> inv (rs_out r) \<Longrightarrow> answers r fin r'"
  unfolding answers_def using stock_response_answers by (fastforce simp: finish_def split: sum.splits)

lemma answers_send_file:
  "send_file fs bst path st sz b r = Inr (fin, r') \<Longrightarrow> inv (rs_out r) \<Longrightarrow> answers r fin r'"
  by (auto simp: send_file_def Let_def split: if_splits dest: answers_send)

lemma answers_get_file:
  assumes "get_file fs bst path r = Inr (fin, r')" "inv (rs_out r)"
  shows "if fin = Finished then answers r fin r' else r' = r"
proof (cases "fs_is_directory fs (c_str path) \<or> rq_method (rs_req r) \<noteq> Verb_get \<and> rq_method (rs_req r) \<noteq> Verb_head")
  case True
  with assms have "answers r fin r'"
    by (auto simp: get_file_def moved_def bad_request_def Let_def split: if_splits dest!: answers_stock)
  then show ?thesis by (simp add: answers_def)
next
  case False
  obtain ec b where opened: "vt_open (fs_ops fs) (c_str path) Scan
      \<lparr>vt_file = fs_closed fs, vt_size = 0, vt_first = 0, vt_last = 0\<rparr> = (ec, b)" by force
  obtain st rs where ranges: "parse_request_ranges (payload_size b) (rq_find (rs_req r) Range_field) = (st, rs)" by force
  show ?thesis
  proof (cases ec)
    case None
    with False assms opened ranges have "answers r fin r'"
      by (cases st; cases rs)
        (auto simp: get_file_def Let_def dest!: answers_send_file answers_send)
    then show ?thesis by (auto simp: answers_def)
  next
    case (Some e)
    with False assms opened show ?thesis by (auto simp: get_file_def Let_def)
  qed
qed

lemma static_files_good:
  assumes "\<And>out w. inv w \<Longrightarrow> inv (say out w) \<and> sent (say out w) = sent w \<and> frame (say out w) = frame w"
  shows "good_filter (static_files fs bst say mp)"
  unfolding good_filter_def
proof (intro allI impI)
  fix pfx r fin r'
  assume inv: "inv (rs_out r)" and pre: "f_preproc (static_files fs bst say mp) pfx r = Inr (fin, r')"
  then obtain path out where "get_file fs bst path (r\<lparr>rs_out := say out (rs_out r)\<rparr>) = Inr (fin, r')"
    by (auto simp: static_files_def static_preproc_def split: sum.splits)
  from answers_get_file [OF this] assms [OF inv, of out]
  show "rs_req r' = rs_req r \<and> inv (rs_out r') \<and> frame (rs_out r') = frame (rs_out r) \<and>
      (case fin of Carry_on \<Rightarrow> sent (rs_out r') = sent (rs_out r)
       | Finished \<Rightarrow> \<exists>body. answered (rs_out r) body (rs_out r'))"
    by (cases fin) (auto simp: answers_def answered_def)
qed

lemma library_filters_good: "good_filter cors" "good_filter (headers hv)" "good_filter (logger hv)"
  by (auto simp: good_filter_def cors_def cors_preproc_def headers_def logger_def base_filter_def)

end

text \<open>Printing through a session.\<close>

definition session_say :: "console \<Rightarrow> 'f session \<Rightarrow> 'f session" where
  "session_say out s = s\<lparr>s_console := s_console s @ out\<rparr>"

text \<open>The filters that come with the library, set up to answer through sessions.\<close>

definition library_filter :: "('f, 'e) file_system \<Rightarrow> 'f session_env \<Rightarrow> 'f session filter \<Rightarrow> bool" where
  "library_filter fs env f \<longleftrightarrow> (\<exists>mp. f = static_files fs (session_beast env) session_say mp) \<or> f = cors \<or>
    (\<exists>hv. f = headers hv) \<or> (\<exists>hv. f = logger hv)"

text \<open>C8: A router with filters of the library, in any order and under any prefixes, answers each request once,
  whatever the file system does: a session that serves files keeps the invariant of sessions.\<close>

theorem library_answers_once:
  assumes "\<forall>pf \<in> set filts. library_filter fs env (snd pf)"
  shows "answers_once \<lparr>r_routes = [], r_filters = filts\<rparr>"
proof -
  have "session_queue.good_filter (static_files fs (session_beast env) session_say mp)" for mp
    by (rule session_queue.static_files_good) (simp add: session_say_def queue_console)
  with session_queue.library_filters_good have "session_queue.good_filter f" if "library_filter fs env f" for f
    using that unfolding library_filter_def by blast
  with assms show ?thesis by (auto simp: answers_once_def session_queue.good_router_def)
qed

section \<open>What is sent\<close>

text \<open>A file that can be opened and read: its content is \<open>content\<close>.\<close>

definition readable :: "('f, 'e) file_system \<Rightarrow> string \<Rightarrow> string \<Rightarrow> bool" where
  "readable fs path content \<longleftrightarrow> \<not> fs_is_directory fs (c_str path) \<and> length content < 2 ^ 64 \<and>
    (\<exists>f ok at_pos. fo_open (fs_ops fs) (c_str path) Scan (fs_closed fs) = (None, f) \<and>
      fo_size (fs_ops fs) f = (of_nat (length content), None) \<and> ok f \<and>
      reads_content (fs_ops fs) ok at_pos content)"

text \<open>The bytes a body stands for, read by as many calls of the writer as it can have bytes.\<close>

definition body_bytes :: "('f, 'e) file_system \<Rightarrow> 'f value_type \<Rightarrow> ('e io_error + string) option" where
  "body_bytes fs b = drain (fs_ops fs) (Suc (unat (vt_last b - vt_first b))) (writer_make b) (vt_file b)"

lemma readable_open:
  assumes "readable fs path content"
  obtains b where "vt_open (fs_ops fs) (c_str path) Scan
      \<lparr>vt_file = fs_closed fs, vt_size = 0, vt_first = 0, vt_last = 0\<rparr> = (None, b)"
    "payload_size b = of_nat (length content)" "vt_first b = 0" "vt_last b = of_nat (length content)"
    "\<And>start stop. start \<le> stop \<Longrightarrow> unat stop \<le> length content \<Longrightarrow>
      body_bytes fs (vt_fragment start stop b) = Some (Inr (take (unat stop - unat start) (drop (unat start) content)))"
proof -
  from assms obtain f ok at_pos where f: "fo_open (fs_ops fs) (c_str path) Scan (fs_closed fs) = (None, f)"
    "fo_size (fs_ops fs) f = (of_nat (length content), None)" "ok f" "length content < 2 ^ 64"
    "reads_content (fs_ops fs) ok at_pos content" by (auto simp: readable_def)
  let ?b = "\<lparr>vt_file = f, vt_size = of_nat (length content), vt_first = 0, vt_last = of_nat (length content)\<rparr>"
  have "body_bytes fs (vt_fragment start stop ?b) = Some (Inr (take (unat stop - unat start) (drop (unat start) content)))"
    if "start \<le> stop" "unat stop \<le> length content" for start stop
    unfolding body_bytes_def
    using drain_fragment [OF f(5,4), of "vt_file (vt_fragment start stop ?b)" "vt_fragment start stop ?b"] that f(3)
    by (simp add: vt_fragment_def del: drain.simps)
  with f(1,2) show ?thesis by (intro that [of ?b]) (simp_all add: vt_open_def payload_size_def)
qed

text \<open>C3: A GET for a readable, non-empty file with a valid range is answered with 206, the range in
  \<open>Content-Range\<close>, its length in \<open>Content-Length\<close>, and a body that delivers exactly its bytes.\<close>

theorem range_served:
  assumes "readable fs path content" "content \<noteq> []" "rq_method (rs_req r) = Verb_get"
    "parse_request_ranges (of_nat (length content)) (rq_find (rs_req r) Range_field) = (Present, rng # rs)"
  shows "\<exists>h b. get_file fs bst path r = finish (send bst (File_body b) Is_set (r\<lparr>rs_header := h\<rparr>)) \<and>
    Result status_partial_content \<in> set h \<and> Content_length (r_end rng - r_start rng + 1) \<in> set h \<and>
    Set Content_range (''bytes '' @ dec64 (r_start rng) @ ''-'' @ dec64 (r_end rng) @ ''/'' @ dec (length content))
      \<in> set h \<and>
    body_bytes fs b = Some (Inr (take (unat (r_end rng - r_start rng + 1)) (drop (unat (r_start rng)) content)))"
proof -
  obtain b where b: "vt_open (fs_ops fs) (c_str path) Scan
      \<lparr>vt_file = fs_closed fs, vt_size = 0, vt_first = 0, vt_last = 0\<rparr> = (None, b)"
    "payload_size b = of_nat (length content)"
    "\<And>start stop. start \<le> stop \<Longrightarrow> unat stop \<le> length content \<Longrightarrow>
      body_bytes fs (vt_fragment start stop b) = Some (Inr (take (unat stop - unat start) (drop (unat start) content)))"
    using readable_open [OF assms(1)] by metis
  have len: "unat (of_nat (length content) :: u64) = length content"
    using assms(1) by (intro unat_of_nat_small) (simp add: readable_def)
  have "0 < (of_nat (length content) :: u64)" using assms(2) len by (simp add: word_less_nat_alt)
  from range_in_file [OF this parsed_range_in, of rng "rq_find (rs_req r) Range_field"] assms(4)
  have rng: "r_start rng \<le> r_end rng" "r_end rng < of_nat (length content)" by simp_all
  have stop: "unat (r_end rng + 1) = Suc (unat (r_end rng))"
  proof -
    have "Suc (unat (r_end rng)) < 2 ^ 64"
      using rng(2) len assms(1) by (simp add: word_less_nat_alt readable_def)
    then have "unat (of_nat (Suc (unat (r_end rng))) :: u64) = Suc (unat (r_end rng))" by (rule unat_of_nat_small)
    then show ?thesis by (simp add: add.commute)
  qed
  have le: "r_start rng \<le> r_end rng + 1" "unat (r_end rng + 1) \<le> length content"
    using rng len stop by (simp_all add: word_le_nat_alt word_less_nat_alt)
  have "unat (r_end rng - r_start rng + 1) = unat (r_end rng + 1) - unat (r_start rng)"
  proof -
    have eq: "r_end rng - r_start rng + 1 = (r_end rng + 1) - r_start rng" by simp
    show ?thesis unfolding eq by (rule unat_sub [OF le(1)])
  qed
  with b(3) [OF le] have body: "body_bytes fs (vt_fragment (r_start rng) (r_end rng + 1) b) =
      Some (Inr (take (unat (r_end rng - r_start rng + 1)) (drop (unat (r_start rng)) content)))" by simp
  have "\<not> fs_is_directory fs (c_str path)" using assms(1) by (simp add: readable_def)
  with b(1,2) assms(3,4) have "get_file fs bst path r = finish (send bst (File_body (vt_fragment (r_start rng) (r_end rng + 1) b))
      Is_set (r\<lparr>rs_header := rs_header (file_headers fs path r) @ [Result status_partial_content,
        Set Content_range (''bytes '' @ dec64 (r_start rng) @ ''-'' @ dec64 (r_end rng) @ ''/'' @ dec (length content)),
        Content_length (r_end rng - r_start rng + 1)]\<rparr>))"
    by (simp add: get_file_def send_file_def file_headers_def header_call_def Let_def dec64_def len)
  with body show ?thesis by (intro exI conjI) auto
qed

text \<open>Files in memory: every path is a file with the same content.\<close>

definition memory_fs :: "string \<Rightarrow> (nat option, unit) file_system" where
  "memory_fs content = \<lparr>fs_is_directory = (\<lambda>p. p = ''/www''), fs_ops = memory_file content, fs_closed = None,
     fs_last_write_time = (\<lambda>p. if p = ''/www/f.txt'' then Some (5 * 10 ^ 9) else None), fs_to_sys = (\<lambda>t. t), fs_now = 0,
     fs_parse_time = (\<lambda>v. Some (3 * 10 ^ 9)), fs_beyond = (\<lambda>i. CHR 0x00)\<rparr>"

lemma c_str_plain: "CHR 0x00 \<notin> set path \<Longrightarrow> c_str path = path"
  by (auto simp: c_str_def intro: takeWhile_all)

lemma memory_readable:
  assumes "length content < 2 ^ 64" "c_str path \<noteq> ''/www''"
  shows "readable (memory_fs content) path content"
proof -
  have "fo_open (memory_file content) (c_str path) Scan None = (None, Some 0)"
    "fo_size (memory_file content) (Some 0) = (of_nat (length content), None)" by (simp_all add: memory_file_def)
  with memory_file_reads [OF assms(1)] assms show ?thesis
    unfolding readable_def memory_fs_def
    by (intro conjI exI [of _ "Some 0"] exI [of _ "\<lambda>f. f \<noteq> None"] exI [of _ "\<lambda>f p. f = Some p"]) simp_all
qed

definition field_request :: "(field \<Rightarrow> string option) \<Rightarrow> request" where
  "field_request fds = (test_request Verb_get ''/f.txt'')\<lparr>rq_find := fds\<rparr>"

lemma field_request_simps: "rq_method (field_request fds) = Verb_get" "rq_find (field_request fds) = fds"
  unfolding field_request_def by (simp_all add: test_request_def request_make_def Let_def beast_request.extend_def)

theorem library_answers_once_witness:
  "answers_once \<lparr>r_routes = [], r_filters = [([], cors),
     (''/www'', static_files (memory_fs ''abc'') (session_beast (plain_env\<lparr>e_server_name := ''x''\<rparr>)) session_say (root_directory ''/srv''))]\<rparr>"
  by (rule library_answers_once [of _ "memory_fs ''abc''" "plain_env\<lparr>e_server_name := ''x''\<rparr>"])
    (auto simp: library_filter_def)

theorem range_served_witness:
  "\<exists>b. body_bytes (memory_fs ''0123456789'') b = Some (Inr ''234'')"
proof -
  let ?r = "response_make 11 (field_request [Range_field \<mapsto> ''bytes=2-4'']) ([] :: nat option message list)"
  have small: "length ''0123456789'' < 2 ^ 64" by (simp add: small_size)
  have "c_str ''/www/f.txt'' \<noteq> ''/www''" by code_simp
  note rd = memory_readable [OF small this]
  have req: "rq_method (rs_req ?r) = Verb_get" "rq_find (rs_req ?r) Range_field = Some ''bytes=2-4''"
    by (simp_all add: response_make_def field_request_simps)
  have "parse_request_ranges (of_nat (length ''0123456789'')) (Some ''bytes=2-4'') = (Present, \<lparr>r_start = 2, r_end = 4\<rparr> # [])"
    by code_simp
  from range_served [OF rd _ req(1), of "\<lparr>r_start = 2, r_end = 4\<rparr>" "[]" test_beast] this req(2)
  obtain b where "body_bytes (memory_fs ''0123456789'') b =
      Some (Inr (take (unat (4 - 2 + 1 :: u64)) (drop (unat (2 :: u64)) ''0123456789'')))" by auto
  moreover have "take (unat (4 - 2 + 1 :: u64)) (drop (unat (2 :: u64)) ''0123456789'') = ''234''" by simp
  ultimately show ?thesis by metis
qed

text \<open>Without a range a GET for a readable file is answered with the whole file, if the request is not
  conditional.\<close>

lemma whole_file_sent:
  assumes "readable fs path content" "rq_method (rs_req r) = Verb_get"
    "rq_find (rs_req r) Range_field = None" "rq_find (rs_req r) If_modified_since = None"
  shows "\<exists>b. get_file fs bst path r = finish (send bst (File_body b) Is_set
      (header_call (Content_length (of_nat (length content))) (file_headers fs path r))) \<and>
    body_bytes fs b = Some (Inr content)"
proof -
  obtain b where b: "vt_open (fs_ops fs) (c_str path) Scan
      \<lparr>vt_file = fs_closed fs, vt_size = 0, vt_first = 0, vt_last = 0\<rparr> = (None, b)"
    "payload_size b = of_nat (length content)" "vt_first b = 0" "vt_last b = of_nat (length content)"
    "\<And>start stop. start \<le> stop \<Longrightarrow> unat stop \<le> length content \<Longrightarrow>
      body_bytes fs (vt_fragment start stop b) = Some (Inr (take (unat stop - unat start) (drop (unat start) content)))"
    using readable_open [OF assms(1)] by metis
  have len: "unat (of_nat (length content) :: u64) = length content"
    using assms(1) by (intro unat_of_nat_small) (simp add: readable_def)
  have "vt_fragment 0 (of_nat (length content)) b = b" using b(3,4) by (simp add: vt_fragment_def)
  with b(5) [of 0 "of_nat (length content)"] len have "body_bytes fs b = Some (Inr content)" by simp
  moreover have "get_file fs bst path r = finish (send bst (File_body b) Is_set
      (header_call (Content_length (of_nat (length content))) (file_headers fs path r)))"
    using assms b(1,2)
    by (simp add: get_file_def readable_def send_file_def modified_since_def parse_request_ranges_def Let_def
        file_headers_def header_call_def)
  ultimately show ?thesis by blast
qed

lemma cast_less: "cast_seconds a < cast_seconds b \<longleftrightarrow> duration_seconds a < duration_seconds b"
  by (simp add: cast_seconds_def)

text \<open>C34: A conditional GET is answered the wrong way round: 304 without a body when the file was written
  after the date of \<open>If-Modified-Since\<close>, and the file otherwise.\<close>

theorem conditional_get_inverted:
  assumes "vt_open (fs_ops fs) (c_str path) Scan
      \<lparr>vt_file = fs_closed fs, vt_size = 0, vt_first = 0, vt_last = 0\<rparr> = (None, b)" "\<not> fs_is_directory fs (c_str path)"
    "rq_method (rs_req r) = Verb_get" "rq_find (rs_req r) Range_field = None"
    "rq_find (rs_req r) If_modified_since = Some v" "fs_parse_time fs v = Some d" "tp_min < sys_date fs path"
  shows "get_file fs bst path r =
    (let h = header_call (Content_length (payload_size b)) (file_headers fs path r)
     in if duration_seconds d < duration_seconds (sys_date fs path)
        then finish (send bst Empty_body Is_set (header_call (Result status_not_modified) h))
        else finish (send bst (File_body b) Is_set h))"
proof -
  have "modified_since fs (sys_date fs path) (rs_req r) \<longleftrightarrow> duration_seconds d < duration_seconds (sys_date fs path)"
    using assms(5-7) by (simp add: modified_since_def cast_less)
  with assms(1-4) show ?thesis
    by (simp add: get_file_def send_file_def parse_request_ranges_def Let_def file_headers_def header_call_def)
qed

theorem conditional_get_inverted_witness:
  "\<exists>h. get_file (memory_fs ''abc'') test_beast ''/www/f.txt''
      (response_make 11 (field_request [If_modified_since \<mapsto> ''x'']) []) =
    finish (send test_beast (Empty_body :: nat option body) Is_set (header_call (Result status_not_modified) h))"
proof -
  let ?r = "response_make 11 (field_request [If_modified_since \<mapsto> ''x'']) ([] :: nat option message list)"
  let ?fs = "memory_fs ''abc''"
  have c: "c_str ''/www/f.txt'' = ''/www/f.txt''" by code_simp
  obtain b where "vt_open (fs_ops ?fs) (c_str ''/www/f.txt'') Scan
      \<lparr>vt_file = fs_closed ?fs, vt_size = 0, vt_first = 0, vt_last = 0\<rparr> = (None, b)"
    by (simp add: vt_open_def memory_fs_def memory_file_def)
  moreover have "\<not> fs_is_directory ?fs (c_str ''/www/f.txt'')" "fs_parse_time ?fs ''x'' = Some (3 * 10 ^ 9)"
    "sys_date ?fs ''/www/f.txt'' = 5 * 10 ^ 9" by (simp_all add: memory_fs_def c sys_date_def)
  moreover have "rq_method (rs_req ?r) = Verb_get" "rq_find (rs_req ?r) Range_field = None"
    "rq_find (rs_req ?r) If_modified_since = Some ''x''"
    by (simp_all add: response_make_def field_request_simps)
  moreover have "duration_seconds (3 * 10 ^ 9) < duration_seconds (5 * 10 ^ 9)" by (simp add: duration_seconds_def)
  moreover have "tp_min < 5 * 10 ^ 9" by (simp add: tp_min_def)
  ultimately have "get_file ?fs test_beast ''/www/f.txt'' ?r = finish (send test_beast Empty_body Is_set
      (header_call (Result status_not_modified) (header_call (Content_length (payload_size b)) (file_headers ?fs ''/www/f.txt'' ?r))))"
    using conditional_get_inverted [of ?fs "''/www/f.txt''" b ?r "''x''" "3 * 10 ^ 9" test_beast] by (simp add: Let_def)
  then show ?thesis by blast
qed

text \<open>The same request with the method HEAD.\<close>

definition as_head :: "'w response \<Rightarrow> 'w response" where
  "as_head r = r\<lparr>rs_req := (rs_req r)\<lparr>rq_method := Verb_head\<rparr>\<rparr>"

lemma as_head_simps:
  "rs_req (as_head r) = (rs_req r)\<lparr>rq_method := Verb_head\<rparr>" "rs_header (as_head r) = rs_header r"
  "(as_head r)\<lparr>rs_header := h\<rparr> = as_head (r\<lparr>rs_header := h\<rparr>)"
  by (simp_all add: as_head_def)

lemma file_headers_added:
  obtains hs where "\<And>r. file_headers fs path r = r\<lparr>rs_header := rs_header r @ hs\<rparr>"
  by (rule that [of "[Set Content_type (mime_type (fs_beyond fs) path), Set Accept_ranges ''bytes'',
      Set Date (format_date (fs_now fs))] @
      (if sys_date fs path > tp_min then [Set Last_modified (format_date (sys_date fs path))] else [])"])
    (simp add: file_headers_def header_call_def Let_def)

lemma parsed_not_empty: "parse_request_ranges n fd \<noteq> (Present, [])"
  by (auto simp: parse_request_ranges_def parse_byte_ranges_def Let_def split: option.splits)

text \<open>C20: HEAD is answered like GET: for an unconditional request, with a range or without, the same header is
  sent for a file, without a body, and a file that cannot be opened is left to the next filter in both
  cases. For a directory the redirection is sent with its page, also as the answer to HEAD.\<close>

theorem head_like_get:
  assumes "rq_method (rs_req r) = Verb_get" "rq_find (rs_req r) If_modified_since = None"
  shows "if fs_is_directory fs (c_str path)
    then get_file fs bst path r = finish (moved bst 301 (rq_path (rs_req r) @ ''/'') r) \<and>
      get_file fs bst path (as_head r) = finish (moved bst 301 (rq_path (rs_req r) @ ''/'') (as_head r))
    else get_file fs bst path r = Inr (Carry_on, r) \<and> get_file fs bst path (as_head r) = Inr (Carry_on, as_head r) \<or>
      (\<exists>body h. get_file fs bst path r = finish (send bst body Is_set (r\<lparr>rs_header := h\<rparr>)) \<and>
        get_file fs bst path (as_head r) = finish (send bst Empty_body Is_set (as_head (r\<lparr>rs_header := h\<rparr>))))"
proof -
  obtain hs where "\<And>r :: 'a response. file_headers fs path r = r\<lparr>rs_header := rs_header r @ hs\<rparr>"
    by (rule file_headers_added) blast
  note headers = this as_head_simps header_call_def
  obtain ec b where opened: "vt_open (fs_ops fs) (c_str path) Scan
      \<lparr>vt_file = fs_closed fs, vt_size = 0, vt_first = 0, vt_last = 0\<rparr> = (ec, b)" by force
  obtain st rs where ranges: "parse_request_ranges (payload_size b) (rq_find (rs_req r) Range_field) = (st, rs)" by force
  show ?thesis
    using assms opened ranges parsed_not_empty [of "payload_size b" "rq_find (rs_req r) Range_field"]
    by (cases ec; cases st; cases rs)
      (auto simp: get_file_def headers Let_def send_file_def status_defs modified_since_def)
qed

theorem head_like_get_witness:
  "\<exists>h. get_file (memory_fs ''abc'') test_beast ''/www/f.txt''
      (as_head (response_make 11 (field_request Map.empty) [])) =
    finish (send test_beast (Empty_body :: nat option body) Is_set
      (as_head ((response_make 11 (field_request Map.empty) [])\<lparr>rs_header := h\<rparr>)))"
proof -
  let ?r = "response_make 11 (field_request Map.empty) ([] :: nat option message list)"
  let ?fs = "memory_fs ''abc''"
  have c: "c_str ''/www/f.txt'' = ''/www/f.txt''" by code_simp
  then have dir: "\<not> fs_is_directory ?fs (c_str ''/www/f.txt'')" by (simp add: memory_fs_def)
  have req: "rq_method (rs_req ?r) = Verb_get" "rq_find (rs_req ?r) If_modified_since = None"
    by (simp_all add: response_make_def field_request_simps)
  have small: "length ''abc'' < 2 ^ 64" by (simp add: small_size)
  have "c_str ''/www/f.txt'' \<noteq> ''/www''" by (simp add: c)
  note rd = memory_readable [OF small this]
  have "rq_find (rs_req ?r) Range_field = None" by (simp add: response_make_def field_request_simps)
  with whole_file_sent [OF rd req(1)] req(2) obtain b where "get_file ?fs test_beast ''/www/f.txt'' ?r =
      finish (send test_beast (File_body b) Is_set (header_call (Content_length (of_nat (length ''abc''))) (file_headers ?fs ''/www/f.txt'' ?r)))"
    by blast
  then have "get_file ?fs test_beast ''/www/f.txt'' ?r \<noteq> Inr (Carry_on, ?r)"
    by (auto simp: finish_def split: sum.splits)
  with head_like_get [OF req, of ?fs "''/www/f.txt''" test_beast] dir show ?thesis by auto
qed


section \<open>Paths\<close>

text \<open>C35: For a path the prefix of the filter accepts, the resource is what follows the prefix and a slash,
  with \<open>index.html\<close> for a directory; a request for the prefix itself, without the slash, throws.\<close>

theorem resource_of_path:
  assumes "rq_decoded_path (rs_req r) \<noteq> []" "hd (rq_decoded_path (rs_req r)) = CHR ''/''"
    "prefixes pfx (rq_decoded_path (rs_req r)) = Inr True" "pfx = [] \<or> last pfx \<noteq> CHR ''/''"
  shows "if rq_decoded_path (rs_req r) = pfx then resource_from r pfx = Inl Out_of_range
    else \<exists>rest. rq_decoded_path (rs_req r) = pfx @ ''/'' @ rest \<and>
      resource_from r pfx = Inr (if rest = [] \<or> last rest = CHR ''/'' then rest @ ''index.html'' else rest)"
proof -
  let ?p = "rq_decoded_path (rs_req r)"
  from assms(3) obtain rest where rest: "?p = pfx @ rest" "rest = [] \<or> hd rest = CHR ''/'' \<or> pfx = []"
    using prefixes_absolute [OF assms(1,2)] assms(4) by auto
  show ?thesis
  proof (cases "rest = []")
    case True
    with rest show ?thesis by (simp add: resource_from_def sv_substr_def)
  next
    case False
    then have "hd rest = CHR ''/''" using rest assms(2) by auto
    with False obtain rest' where "rest = CHR ''/'' # rest'" by (cases rest) auto
    with rest show ?thesis by (auto simp: resource_from_def sv_substr_def)
  qed
qed

theorem resource_of_path_witness:
  "resource_from (response_make 11 (test_request Verb_get ''/www'') ()) ''/www'' = Inl Out_of_range"
proof -
  let ?r = "response_make 11 (test_request Verb_get ''/www'') ()"
  have "rq_decoded_path (test_request Verb_get ''/www'') = ''/www''" by code_simp
  then have p: "rq_decoded_path (rs_req ?r) = ''/www''" by (simp add: response_make_def)
  have "prefixes ''/www'' ''/www'' = Inr True" by code_simp
  with resource_of_path [of ?r "''/www''"] p show ?thesis by simp
qed



section \<open>Shared roots\<close>

lemma expand_loop_best:
  "fst (expand_loop fs verbose f roots best cand out) = c \<Longrightarrow>
   (\<exists>root \<in> set roots. \<exists>t. c = Some (path_append root f) \<and> t < best \<and>
      fs_last_write_time fs (c_str (path_append root f)) = Some t \<and>
      (\<forall>root' \<in> set roots. \<forall>t'. fs_last_write_time fs (c_str (path_append root' f)) = Some t' \<longrightarrow> t \<le> t')) \<or>
   c = cand \<and> (\<forall>root' \<in> set roots. \<forall>t'. fs_last_write_time fs (c_str (path_append root' f)) = Some t' \<longrightarrow> best \<le> t')"
proof (induction roots arbitrary: best cand out)
  case Nil
  then show ?case by simp
next
  case (Cons root roots)
  let ?out = "if verbose then out @ [(Stdout, ''TRY '' @ path_append root f @ [CHR 0x0A])] else out"
  show ?case
  proof (cases "fs_last_write_time fs (c_str (path_append root f))")
    case None
    with Cons.prems have "fst (expand_loop fs verbose f roots best cand ?out) = c" by (simp add: Let_def)
    from Cons.IH [OF this] None show ?thesis by auto
  next
    case (Some t)
    show ?thesis
    proof (cases "t \<ge> best")
      case True
      with Some Cons.prems have "fst (expand_loop fs verbose f roots best cand ?out) = c" by (simp add: Let_def)
      from Cons.IH [OF this] show ?thesis
      proof (elim disjE bexE exE conjE)
        fix root' t'
        assume "root' \<in> set roots" "c = Some (path_append root' f)" "t' < best"
          "fs_last_write_time fs (c_str (path_append root' f)) = Some t'"
          "\<forall>r \<in> set roots. \<forall>u. fs_last_write_time fs (c_str (path_append r f)) = Some u \<longrightarrow> t' \<le> u"
        with Some True show ?thesis by (intro disjI1 bexI [of _ root'] exI [of _ t']) auto
      next
        assume "c = cand"
          "\<forall>r \<in> set roots. \<forall>u. fs_last_write_time fs (c_str (path_append r f)) = Some u \<longrightarrow> best \<le> u"
        with Some True show ?thesis by (intro disjI2) auto
      qed
    next
      case False
      with Some Cons.prems have "fst (expand_loop fs verbose f roots t (Some (path_append root f)) ?out) = c"
        by (simp add: Let_def)
      from Cons.IH [OF this] show ?thesis
      proof (elim disjE bexE exE conjE)
        fix root' t'
        assume "root' \<in> set roots" "c = Some (path_append root' f)" "t' < t"
          "fs_last_write_time fs (c_str (path_append root' f)) = Some t'"
          "\<forall>r \<in> set roots. \<forall>u. fs_last_write_time fs (c_str (path_append r f)) = Some u \<longrightarrow> t' \<le> u"
        with Some False show ?thesis by (intro disjI1 bexI [of _ root'] exI [of _ t']) auto
      next
        assume "c = Some (path_append root f)"
          "\<forall>r \<in> set roots. \<forall>u. fs_last_write_time fs (c_str (path_append r f)) = Some u \<longrightarrow> t \<le> u"
        with Some False show ?thesis by (intro disjI1 bexI [of _ root] exI [of _ t]) auto
      qed
    qed
  qed
qed

text \<open>Of several roots that have the file the one with the oldest file is chosen, and the first root
  when none has it.\<close>

theorem expand_oldest:
  assumes "expand fs sr f = Inr (path, out)"
    "\<And>root t. root \<in> set (sr_roots sr) \<Longrightarrow> fs_last_write_time fs (c_str (path_append root f)) = Some t \<Longrightarrow> t < file_time_max"
  shows "\<exists>root \<in> set (sr_roots sr). path = path_append root f \<and>
    (case fs_last_write_time fs (c_str path) of
       Some t \<Rightarrow> \<forall>root' \<in> set (sr_roots sr). \<forall>t'.
         fs_last_write_time fs (c_str (path_append root' f)) = Some t' \<longrightarrow> t \<le> t'
     | None \<Rightarrow> root = hd (sr_roots sr) \<and>
         (\<forall>root' \<in> set (sr_roots sr). fs_last_write_time fs (c_str (path_append root' f)) = None))"
proof -
  obtain c out' where loop: "expand_loop fs (sr_verbose sr) f (sr_roots sr) file_time_max None [] = (c, out')" by force
  from expand_loop_best [of fs "sr_verbose sr" f "sr_roots sr" file_time_max None "[]" c] loop
  consider root t where "root \<in> set (sr_roots sr)" "c = Some (path_append root f)"
      "fs_last_write_time fs (c_str (path_append root f)) = Some t"
      "\<forall>root' \<in> set (sr_roots sr). \<forall>t'. fs_last_write_time fs (c_str (path_append root' f)) = Some t' \<longrightarrow> t \<le> t'"
    | "c = None" "\<forall>root' \<in> set (sr_roots sr). \<forall>t'.
        fs_last_write_time fs (c_str (path_append root' f)) = Some t' \<longrightarrow> file_time_max \<le> t'"
    by auto
  then show ?thesis
  proof cases
    case 1
    with assms(1) loop show ?thesis by (auto simp: expand_def)
  next
    case 2
    then have none: "fs_last_write_time fs (c_str (path_append root f)) = None" if "root \<in> set (sr_roots sr)" for root
      using assms(2) [OF that] that by (cases "fs_last_write_time fs (c_str (path_append root f))") force+
    from 2 assms(1) loop obtain root roots where r: "sr_roots sr = root # roots" "path = path_append root f"
      by (auto simp: expand_def split: list.splits)
    with none show ?thesis by (intro bexI [of _ root]) auto
  qed
qed

theorem expand_oldest_witness:
  "\<exists>root \<in> set [''/etc'', ''/www'']. ''/www/f.txt'' = path_append root ''f.txt''"
proof -
  let ?sr = "\<lparr>sr_roots = [''/etc'', ''/www''], sr_verbose = False\<rparr>"
  have p: "path_append ''/etc'' ''f.txt'' = ''/etc/f.txt''" "path_append ''/www'' ''f.txt'' = ''/www/f.txt''"
    "c_str ''/etc/f.txt'' = ''/etc/f.txt''" "c_str ''/www/f.txt'' = ''/www/f.txt''" by code_simp+
  have "expand (memory_fs []) ?sr ''f.txt'' = Inr (''/www/f.txt'', [])"
    by (simp add: expand_def p memory_fs_def file_time_max_def)
  moreover have "t < file_time_max"
    if "fs_last_write_time (memory_fs []) (c_str (path_append root ''f.txt'')) = Some t" for root t
    using that by (simp add: memory_fs_def file_time_max_def split: if_splits)
  ultimately show ?thesis using expand_oldest [of "memory_fs []" ?sr "''f.txt''" "''/www/f.txt''" "[]"] by auto
qed

end
