(* ===== verification/Reliable.thy ===== *)
theory Reliable
  imports Static_Properties
begin

text \<open>
  Requests that cannot end the process. An exception that leaves a handler of Asio ends the program, so
  a server is only as reliable as its filters: the locale \<open>reliable_sender\<close> adds to \<open>message_sender\<close> that
  sending does not throw, and shows that then neither the pages of \<open>response\<close>, nor files, nor a router
  with filters that do not throw (\<open>calm\<close>) do.
\<close>

section \<open>A sender that does not throw\<close>

locale reliable_sender = message_sender bst sent inv frame
  for bst :: "('f, 'w) beast"
    and sent :: "'w \<Rightarrow> 'f message list"
    and inv :: "'w \<Rightarrow> bool"
    and frame :: "'w \<Rightarrow> 'x" +
  assumes send_ok: "inv w \<Longrightarrow> \<exists>w'. b_send bst req msg w = Inr w'"
begin

text \<open>A call of \<open>response\<close> that answers: it returns, and the sender and the request are as they should be.\<close>

definition fine :: "'w response \<Rightarrow> exn + 'w response \<Rightarrow> bool" where
  "fine r res \<longleftrightarrow> (\<exists>r'. res = Inr r' \<and> inv (rs_out r') \<and> rs_req r' = rs_req r)"

lemma fine_header_call [simp]: "fine (header_call op r) res = fine r res"
  by (simp add: fine_def header_call_def)

lemma fine_file_headers [simp]: "fine (file_headers fs path r) res = fine r res"
  by (simp add: file_headers_def Let_def)

lemma send_fine: "inv (rs_out r) \<Longrightarrow> fine r (send bst body cl r)"
  unfolding fine_def send_def Let_def header_call_def
  by (auto split: sum.split dest: inv_send) (metis send_ok sum.distinct(1))+

lemma stock_response_fine: "inv (rs_out r) \<Longrightarrow> fine r (stock_response bst st msg r)"
  using send_fine [of "header_call (Set Content_type ''text/html; charset=UTF-8'') (header_call (Result st) r)"]
  by (simp add: stock_response_def)

lemma page_fine: "inv (rs_out r) \<Longrightarrow> fine r (moved bst st location r)" "inv (rs_out r) \<Longrightarrow> fine r (bad_request bst msg r)"
  "inv (rs_out r) \<Longrightarrow> fine r (not_found bst resource r)"
  using stock_response_fine [of "header_call (Set Location location) r"] stock_response_fine [of r]
  by (simp_all add: moved_def bad_request_def not_found_def)

text \<open>A filter that returns: with or without an answer, for the same request.\<close>

definition returns :: "'w response \<Rightarrow> exn + filtering \<times> 'w response \<Rightarrow> bool" where
  "returns r res \<longleftrightarrow> (\<exists>fin r'. res = Inr (fin, r') \<and> inv (rs_out r') \<and> rs_req r' = rs_req r)"

lemma returns_finish: "fine r res \<Longrightarrow> returns r (finish res)"
  by (auto simp: returns_def fine_def finish_def)

lemma returns_header_call [simp]: "returns (header_call op r) res = returns r res"
  by (simp add: returns_def header_call_def)

lemma returns_file_headers [simp]: "returns (file_headers fs path r) res = returns r res"
  by (simp add: file_headers_def Let_def)

lemma send_returns: "inv (rs_out r') \<Longrightarrow> rs_req r' = rs_req r \<Longrightarrow> returns r (finish (send bst body cl r'))"
  using send_fine [of r' body cl] by (auto simp: returns_def fine_def finish_def)

lemma send_file_returns: "inv (rs_out r') \<Longrightarrow> rs_req r' = rs_req r \<Longrightarrow> returns r (send_file fs bst path st sz b r')"
  by (simp add: send_file_def Let_def send_returns)

lemma get_file_returns:
  assumes "inv (rs_out r)"
  shows "returns r (get_file fs bst path r)"
proof -
  obtain ec b where opened: "vt_open (fs_ops fs) (c_str path) Scan
      \<lparr>vt_file = fs_closed fs, vt_size = 0, vt_first = 0, vt_last = 0\<rparr> = (ec, b)" by force
  obtain st rs where ranges: "parse_request_ranges (payload_size b) (rq_find (rs_req r) Range_field) = (st, rs)" by force
  have nonempty: "rs \<noteq> []" if "st = Present"
    using ranges that
    by (auto simp: parse_request_ranges_def parse_byte_ranges_def Let_def split: option.splits if_splits)
  consider "fs_is_directory fs (c_str path)"
    | "\<not> fs_is_directory fs (c_str path)" "rq_method (rs_req r) \<noteq> Verb_get \<and> rq_method (rs_req r) \<noteq> Verb_head"
    | "\<not> fs_is_directory fs (c_str path)" "rq_method (rs_req r) = Verb_get \<or> rq_method (rs_req r) = Verb_head" by blast
  then show ?thesis
  proof cases
    case 1
    with assms show ?thesis by (simp add: get_file_def Let_def returns_finish page_fine)
  next
    case 2
    with assms show ?thesis by (simp add: get_file_def Let_def returns_finish page_fine)
  next
    case 3
    show ?thesis
    proof (cases ec)
      case (Some e)
      with 3 opened assms show ?thesis by (auto simp: get_file_def returns_def)
    next
      case None
      from None 3 opened ranges nonempty assms show ?thesis
        by (cases st; cases rs) (auto simp: get_file_def Let_def intro!: send_returns send_file_returns)
    qed
  qed
qed

section \<open>A router that does not throw\<close>

text \<open>A filter without prefix, for every request whose path is legal.\<close>

definition calm :: "'w filter \<Rightarrow> bool" where
  "calm f \<longleftrightarrow> (\<forall>r. inv (rs_out r) \<longrightarrow> rq_decoded_path (rs_req r) \<noteq> [] \<longrightarrow> returns r (f_preproc f [] r))"

lemma static_files_calm:
  assumes "\<And>out w. inv w \<Longrightarrow> inv (say out w)" "\<And>x. \<exists>path out. mp_path_for mp x = Inr (path, out)"
  shows "calm (static_files fs bst say mp)"
  unfolding calm_def
proof (intro allI impI)
  fix r :: "'w response"
  assume r: "inv (rs_out r)" "rq_decoded_path (rs_req r) \<noteq> []"
  then obtain resource where "resource_from r [] = Inr resource"
    by (cases "rq_decoded_path (rs_req r)") (auto simp: resource_from_def sv_substr_def)
  moreover obtain path out where "mp_path_for mp resource = Inr (path, out)" using assms(2) by blast
  moreover have "returns (r\<lparr>rs_out := say out (rs_out r)\<rparr>) (get_file fs bst path (r\<lparr>rs_out := say out (rs_out r)\<rparr>))"
    by (rule get_file_returns) (simp add: assms(1) r(1))
  ultimately show "returns r (f_preproc (static_files fs bst say mp) [] r)"
    by (simp add: static_files_def static_preproc_def returns_def)
qed

lemma other_filters_calm: "calm cors" "calm (headers hv)" "calm (logger hv)"
  by (simp_all add: calm_def returns_def cors_def cors_preproc_def headers_def logger_def base_filter_def header_call_def)

lemma pre_filters_return:
  assumes "\<forall>pf \<in> set fs. fst pf = [] \<and> calm (snd pf)"
  shows "inv (rs_out r) \<Longrightarrow> rq_decoded_path (rs_req r) = CHR ''/'' # rest \<Longrightarrow>
    returns r (pre_filters fs (CHR ''/'' # rest) r)"
  using assms
proof (induction fs arbitrary: r)
  case Nil
  then show ?case by (simp add: returns_def)
next
  case (Cons pf fs)
  then obtain f where f: "pf = ([], f)" "calm f" by (cases pf) auto
  have tail: "returns r' (pre_filters fs (CHR ''/'' # rest) r')"
    if "inv (rs_out r')" "rs_req r' = rs_req r" for r'
    using Cons.IH [of r'] Cons.prems that by simp
  from f(2) Cons.prems(1,2) have "returns r (f_preproc f [] r)" by (simp add: calm_def)
  then obtain fin r' where r': "f_preproc f [] r = Inr (fin, r')" "inv (rs_out r')" "rs_req r' = rs_req r"
    by (auto simp: returns_def)
  from tail [OF r'(2,3)] tail [OF Cons.prems(1) refl] r' show ?case
    by (cases fin) (auto simp: f(1) prefixes_def returns_def)
qed

lemma handle_request_fine:
  assumes "r_routes rt = []" "\<forall>pf \<in> set (r_filters rt). fst pf = [] \<and> calm (snd pf)" "inv (rs_out r)"
  shows "fine r (handle_request bst rt r)"
proof (cases "rq_decoded_path (rs_req r) = [] \<or> hd (rq_decoded_path (rs_req r)) \<noteq> CHR ''/'' \<or>
    has_up_dir (rq_decoded_path (rs_req r))")
  case True
  with assms(3) show ?thesis by (simp add: handle_request_def Let_def page_fine)
next
  case False
  then obtain rest where path: "rq_decoded_path (rs_req r) = CHR ''/'' # rest"
    by (cases "rq_decoded_path (rs_req r)") auto
  from pre_filters_return [OF assms(2) assms(3) path] obtain fin r' where
    r': "pre_filters (r_filters rt) (CHR ''/'' # rest) r = Inr (fin, r')" "inv (rs_out r')" "rs_req r' = rs_req r"
    by (auto simp: returns_def)
  then have "fine r (not_found bst (CHR ''/'' # rest) r')" using page_fine(3) [of r'] by (simp add: fine_def)
  with False path r' assms(1) show ?thesis
    by (cases fin) (auto simp: handle_request_def dispatch_def fine_def)
qed

end

section \<open>Mappers\<close>

lemma mappers_return:
  "\<exists>path out. mp_path_for (root_directory root) x = Inr (path, out)"
  "sr_roots sr \<noteq> [] \<Longrightarrow> \<exists>path out. mp_path_for (root_directories fs sr) x = Inr (path, out)"
  by (auto simp: root_directory_def root_directories_def expand_def neq_Nil_conv split: prod.split option.split)

end
