(* ===== verification/Listener.thy ===== *)
theory Listener
  imports Session_Properties
begin

text \<open>
  \<open>server.cc\<close> and \<open>server.hh\<close>: the listener that opens a socket, and the sessions it starts. The
  calls to the network, of Boost.Asio, are the record \<open>net_ops\<close>: each returns the message of its
  error code or nothing. Which of the calls have succeeded is the state of the acceptor.
\<close>

section \<open>The network\<close>

record acceptor =
  ac_open :: bool
  ac_reuse :: bool
  ac_bound :: bool
  ac_listening :: bool

datatype port_result = Port nat | System_error string | Other_exception

record net_ops =
  no_open :: "acceptor \<Rightarrow> string option"
  no_set_option :: "bool \<Rightarrow> acceptor \<Rightarrow> string option"
  no_bind :: "acceptor \<Rightarrow> string option"
  no_listen :: "acceptor \<Rightarrow> string option"
  no_local_port :: "acceptor \<Rightarrow> port_result"
  no_host_name :: "string option \<times> string"

section \<open>The listener\<close>

text \<open>\<open>li_accepts\<close> are the calls of \<open>async_accept\<close> that have not ended, \<open>li_sessions\<close> the sessions that were
  started, each with its peer; a session keeps what it has printed itself.\<close>

record 'f listener =
  li_acceptor :: acceptor
  li_server_name :: string
  li_accepts :: nat
  li_sessions :: "(string \<times> 'f session) list"
  li_console :: console

record local_endpoint =
  le_interface :: string
  le_port :: nat

definition no_endpoint :: local_endpoint where
  "no_endpoint = \<lparr>le_interface = [], le_port = 0\<rparr>"

definition li_fail :: "string \<Rightarrow> string \<Rightarrow> 'f listener \<Rightarrow> 'f listener" where
  "li_fail ec_message what li = li\<lparr>li_console := li_console li @ [(Stderr, fail_line ec_message what)]\<rparr>"

definition listener_make :: "net_ops \<Rightarrow> string \<Rightarrow> bool \<Rightarrow> console \<Rightarrow> 'f listener" where
  "listener_make net server_name reuse_address con =
    (let ac = \<lparr>ac_open = False, ac_reuse = False, ac_bound = False, ac_listening = False\<rparr>;
         li = \<lparr>li_acceptor = ac, li_server_name = server_name, li_accepts = 0, li_sessions = [], li_console = con\<rparr>
     in case no_open net ac of Some ec \<Rightarrow> li_fail ec ''open'' li
      | None \<Rightarrow>
     let ac = ac\<lparr>ac_open := True\<rparr>; li = li\<lparr>li_acceptor := ac\<rparr>
     in case no_set_option net reuse_address ac of Some ec \<Rightarrow> li_fail ec ''set_option'' li
      | None \<Rightarrow>
     let ac = ac\<lparr>ac_reuse := reuse_address\<rparr>; li = li\<lparr>li_acceptor := ac\<rparr>
     in case no_bind net ac of Some ec \<Rightarrow> li_fail ec ''bind'' li
      | None \<Rightarrow>
     let ac = ac\<lparr>ac_bound := True\<rparr>; li = li\<lparr>li_acceptor := ac\<rparr>
     in case no_listen net ac of Some ec \<Rightarrow> li_fail ec ''listen'' li
      | None \<Rightarrow> li\<lparr>li_acceptor := ac\<lparr>ac_listening := True\<rparr>\<rparr>)"

definition next_accept :: "'f listener \<Rightarrow> 'f listener" where
  "next_accept li = li\<lparr>li_accepts := li_accepts li + 1\<rparr>"

definition host_name :: "net_ops \<Rightarrow> 'f listener \<Rightarrow> string \<times> 'f listener" where
  "host_name net li =
    (case no_host_name net of
       (Some ec, result) \<Rightarrow> (''localhost'', li_fail ec ''host_name'' li)
     | (None, result) \<Rightarrow> (result, li))"

definition listener_run :: "net_ops \<Rightarrow> 'f listener \<Rightarrow> local_endpoint \<times> 'f listener" where
  "listener_run net li =
    (let (port, li) = (case no_local_port net (li_acceptor li) of
           Port p \<Rightarrow> (p, li)
         | System_error ec \<Rightarrow> (0, li_fail ec ''local_endpoint'' li)
         | Other_exception \<Rightarrow> (0, li))
     in if port = 0 then (no_endpoint, li)
        else let (name, li) = host_name net (next_accept li)
             in (\<lparr>le_interface = name, le_port = port\<rparr>, li))"

text \<open>The end of an accept: an error, or a socket, whose peer can be had or not.\<close>

datatype accepted = Accept_failed string | No_remote string | Peer string

definition on_accept :: "accepted \<Rightarrow> 'f listener \<Rightarrow> 'f listener" where
  "on_accept res li =
    next_accept
      (case res of
         Accept_failed ec \<Rightarrow> li_fail ec ''accept'' li
       | No_remote ec \<Rightarrow> li_fail ec ''accept/remote_endpoint'' li
       | Peer remote \<Rightarrow> li\<lparr>li_sessions := li_sessions li @ [(remote, run (session_init []))]\<rparr>)"

text \<open>\<open>version\<close> is \<open>BOOST_BEAST_VERSION_STRING\<close>.\<close>

definition listen :: "string \<Rightarrow> net_ops \<Rightarrow> string \<Rightarrow> bool \<Rightarrow> console \<Rightarrow> local_endpoint \<times> 'f listener" where
  "listen version net server_name reuse_address con =
    listener_run net (listener_make net
      (if server_name \<noteq> [] then server_name @ '' '' @ version else version) reuse_address con)"

section \<open>Steps\<close>

definition accept_done :: "accepted \<Rightarrow> 'f listener \<Rightarrow> 'f listener" where
  "accept_done res li = on_accept res (li\<lparr>li_accepts := li_accepts li - 1\<rparr>)"

text \<open>What happens to a listener that \<open>listen\<close> has started, with the router of the environment.\<close>

inductive listener_reachable :: "'f session_env \<Rightarrow> 'f listener \<Rightarrow> 'f listener \<Rightarrow> bool" for env li where
  Started: "listener_reachable env li li"
| Accepted: "listener_reachable env li l \<Longrightarrow> 0 < li_accepts l \<Longrightarrow> listener_reachable env li (accept_done res l)"
| Session: "listener_reachable env li l \<Longrightarrow> li_sessions l = a @ (remote, s) # b \<Longrightarrow>
    session_step (env\<lparr>e_server_name := li_server_name l, e_remote := remote\<rparr>) s s' \<Longrightarrow>
    listener_reachable env li (l\<lparr>li_sessions := a @ (remote, s') # b\<rparr>)"

section \<open>Properties\<close>

lemma accept_done_accepts: "0 < li_accepts l \<Longrightarrow> li_accepts (accept_done res l) = li_accepts l"
  by (cases res) (simp_all add: accept_done_def on_accept_def next_accept_def li_fail_def)

lemma accept_done_sessions:
  "li_sessions (accept_done res l) = li_sessions l @
    (case res of Peer remote \<Rightarrow> [(remote, run (session_init []))] | _ \<Rightarrow> [])"
  "li_server_name (accept_done res l) = li_server_name l"
  by (cases res; simp add: accept_done_def on_accept_def next_accept_def li_fail_def)+

lemma session_step_inv:
  assumes "answers_once (e_router env)" "session_inv s"
    "session_step (env\<lparr>e_server_name := n, e_remote := remote\<rparr>) s s'"
  shows "session_inv s'"
  using session_inv_step [OF _ assms(2,3)] assms(1) by simp

text \<open>A listener that was started accepts forever: whatever happens to the connections and to the calls
  of accept, exactly one accept is outstanding, and every session has the invariant of sessions.\<close>

theorem listener_accepts:
  assumes "listener_reachable env li l" "answers_once (e_router env)" "li_accepts li = 1" "li_sessions li = []"
  shows "li_accepts l = 1 \<and> (\<forall>rs \<in> set (li_sessions l). session_inv (snd rs))"
  using assms(1)
proof (induction rule: listener_reachable.induct)
  case Started
  with assms show ?case by simp
next
  case (Accepted l res)
  then show ?case
    using accept_done_accepts [of l res] session_inv_start
    by (cases res) (auto simp: accept_done_sessions)
next
  case (Session l a remote s b s')
  then have "session_inv s" by auto
  with session_step_inv [OF assms(2) this Session.hyps(3)] Session show ?case by auto
qed

text \<open>A network on which everything succeeds, except perhaps \<open>listen\<close>.\<close>

definition test_net :: "string option \<Rightarrow> net_ops" where
  "test_net ec = \<lparr>no_open = (\<lambda>ac. None), no_set_option = (\<lambda>b ac. None), no_bind = (\<lambda>ac. None), no_listen = (\<lambda>ac. ec),
     no_local_port = (\<lambda>ac. if ac_bound ac then Port 8080 else Port 0), no_host_name = (None, ''host'')\<rparr>"

theorem listener_accepts_witness:
  "li_accepts (accept_done (Accept_failed ''too many files'') (snd (listen ''Beast'' (test_net None) ''srv'' True []) :: nat option listener)) = 1"
proof -
  let ?li = "snd (listen ''Beast'' (test_net None) ''srv'' True []) :: nat option listener"
  have li: "li_accepts ?li = 1" "li_sessions ?li = []"
    by (simp_all add: listen_def listener_make_def listener_run_def test_net_def next_accept_def host_name_def)
  then have "listener_reachable plain_env ?li (accept_done (Accept_failed ''too many files'') ?li)"
    by (intro listener_reachable.Accepted listener_reachable.Started) simp
  from listener_accepts [OF this plain_env_answers li] show ?thesis by simp
qed

text \<open>Starting stops at the first call that fails: it is the only one reported, and what would have
  followed it is not done. Without a failure nothing is printed and the acceptor listens.\<close>

theorem startup_stops_at_failure:
  fixes li :: "'f listener"
  assumes "li = listener_make net server_name reuse con"
  defines "closed \<equiv> \<lparr>ac_open = False, ac_reuse = False, ac_bound = False, ac_listening = False\<rparr>"
  shows "li_acceptor li =
      (if no_open net closed \<noteq> None then closed
       else let ac = closed\<lparr>ac_open := True\<rparr> in if no_set_option net reuse ac \<noteq> None then ac
       else let ac = ac\<lparr>ac_reuse := reuse\<rparr> in if no_bind net ac \<noteq> None then ac
       else let ac = ac\<lparr>ac_bound := True\<rparr> in if no_listen net ac \<noteq> None then ac
       else ac\<lparr>ac_listening := True\<rparr>) \<and>
    (if ac_listening (li_acceptor li) then li_console li = con
     else \<exists>ec. li_console li = con @ [(Stderr, fail_line ec
       (if \<not> ac_open (li_acceptor li) then ''open''
        else if ac_bound (li_acceptor li) then ''listen''
        else if no_set_option net reuse (closed\<lparr>ac_open := True\<rparr>) \<noteq> None then ''set_option'' else ''bind''))])"
  unfolding assms(1) closed_def
  by (auto simp: listener_make_def li_fail_def Let_def split: option.split)

theorem startup_stops_at_failure_witness:
  "li_console (listener_make (test_net (Some ''in use'')) ''srv'' True [] :: nat option listener) =
     [(Stderr, fail_line ''in use'' ''listen'')]"
proof -
  let ?li = "listener_make (test_net (Some ''in use'')) ''srv'' True [] :: nat option listener"
  have "li_console ?li = [(Stderr, fail_line ''in use'' ''listen'')]"
    by (simp add: listener_make_def test_net_def li_fail_def)
  with startup_stops_at_failure [of ?li "test_net (Some ''in use'')" "''srv''" True "[]"] show ?thesis by simp
qed

text \<open>That the socket could not be made to listen is not seen by the caller: the endpoint with the port is
  returned all the same, and an accept is started.\<close>

theorem listen_failure_unnoticed:
  assumes "\<And>ac. no_open net ac = None" "\<And>ac. no_set_option net reuse ac = None" "\<And>ac. no_bind net ac = None"
    "no_listen net ac' = Some ec" "ac' = \<lparr>ac_open = True, ac_reuse = reuse, ac_bound = True, ac_listening = False\<rparr>"
    "no_local_port net ac' = Port p" "0 < p"
  shows "let (endpoint, li) = (listen version net server_name reuse con :: local_endpoint \<times> 'f listener)
    in le_port endpoint = p \<and> li_accepts li = 1 \<and> li_acceptor li = ac'"
  using assms
  by (simp add: listen_def listener_make_def listener_run_def li_fail_def next_accept_def host_name_def Let_def
      split: prod.split option.split)

theorem listen_failure_unnoticed_witness:
  "le_port (fst (listen ''Beast'' (test_net (Some ''in use'')) [] True [] :: local_endpoint \<times> nat option listener)) = 8080"
proof -
  let ?ac = "\<lparr>ac_open = True, ac_reuse = True, ac_bound = True, ac_listening = False\<rparr>"
  have "no_listen (test_net (Some ''in use'')) ?ac = Some ''in use''"
    "no_local_port (test_net (Some ''in use'')) ?ac = Port 8080" by (simp_all add: test_net_def)
  moreover have "no_open (test_net (Some ''in use'')) ac = None" "no_set_option (test_net (Some ''in use'')) True ac = None"
    "no_bind (test_net (Some ''in use'')) ac = None" for ac by (simp_all add: test_net_def)
  ultimately have "let (endpoint, li) = (listen ''Beast'' (test_net (Some ''in use'')) [] True [] :: local_endpoint \<times> nat option listener)
      in le_port endpoint = 8080 \<and> li_accepts li = 1 \<and> li_acceptor li = ?ac"
    by (intro listen_failure_unnoticed) simp_all
  then show ?thesis by (auto split: prod.splits)
qed

end
