(* ===== verification/File_Server.thy ===== *)
theory File_Server
  imports Reliable Listener
begin

text \<open>
  \<open>examples/simple-server.cc\<close>: a server that serves the files of one directory, all of the library put
  together. From the bytes of a request's target to the message in the queue of the session: the file
  that the path names is answered (\<open>file_server_answers\<close>). In the environment of a server (\<open>app_env\<close>) no
  completion of a read or of a write throws.
\<close>

section \<open>The application\<close>

text \<open>\<open>argc > 1 ? argv[0] : "."\<close>: the name of the program, not its first argument.\<close>

definition example_root :: "string list \<Rightarrow> string" where
  "example_root argv = (if length argv > 1 then argv ! 0 else ''.'')"

definition example_app ::
  "('f, 'e) file_system \<Rightarrow> 'f session_env \<Rightarrow> string list \<Rightarrow> exn + 'f session router \<times> 'f session cfg" where
  "example_app fs env argv =
    compiled (cfg_use_everywhere (static_files fs (session_beast env) session_say (root_directory (example_root argv))) cfg_empty)"

definition example_filter :: "('f, 'e) file_system \<Rightarrow> 'f session_env \<Rightarrow> string \<Rightarrow> 'f session filter" where
  "example_filter fs env root = static_files fs (session_beast env) session_say (root_directory root)"

lemma example_app_router:
  "example_app fs env argv =
    Inr (\<lparr>r_routes = [], r_filters = [([], example_filter fs env (example_root argv))]\<rparr>, cfg_empty)"
  by (simp add: example_app_def compiled_def cfg_use_def cfg_empty_def example_filter_def)

section \<open>From the target to the path\<close>

lemma request_path:
  assumes "percent_decode read_ch (takeWhile (\<lambda>c. c \<noteq> CHR ''?'' \<and> c \<noteq> CHR ''#'') (rq_target orig)) = CHR ''/'' # rest"
    "length (rq_target orig) < size_max"
  shows "rq_decoded_path (request_make beyond orig remote) = CHR ''/'' # rest"
proof -
  let ?p = "takeWhile (\<lambda>c. c \<noteq> CHR ''?'' \<and> c \<noteq> CHR ''#'') (rq_target orig)"
  have p: "fst (split (rq_target orig)) = ?p" by (simp add: split_def Let_def take_find_query)
  have "?p \<noteq> ''%''" using assms(1) by (auto simp: read_ch_def)
  then have "\<not> reads_past ?p b" for b by (simp add: reads_past_def)
  moreover have "length ?p < size_max" using assms(2) length_takeWhile_le [of _ "rq_target orig"] le_less_trans by blast
  ultimately show ?thesis
    using assms(1) urldecode_impl_refines [of ?p "view_mem (drop (length ?p) (rq_target orig)) beyond" read_ch]
    by (simp add: request_make_def Let_def p decoded_path_def urldecode_def beast_request.extend_def request.fields_def)
qed

lemma request_fields:
  "rq_method (request_make beyond orig remote) = rq_method orig"
  "rq_find (request_make beyond orig remote) = rq_find orig"
  by (simp_all add: request_make_def Let_def beast_request.extend_def)

section \<open>From the path to the queue\<close>

text \<open>The filter watches no responses, so what is sent is queued as it is.\<close>

lemma example_before_send:
  assumes "r_filters rt = [([], example_filter fs env root)]"
  shows "before_send rt req hw = Inr hw"
  using assms
  by (simp add: before_send_def example_filter_def static_files_def base_filter_def filter_supports_def has_flag_def
    supports_pre_def supports_send_def)

lemma send_queued:
  assumes "\<And>req hw. before_send (e_router env) req hw = Inr hw"
  obtains h r' where "send (session_beast env) body Is_set r = Inr r'"
    "rs_out r' = queue_send \<lparr>m_header = rs_header r @ h, m_body = body\<rparr> (rs_out r)"
proof -
  have "\<exists>h r'. send (session_beast env) body Is_set r = Inr r' \<and>
      rs_out r' = queue_send \<lparr>m_header = rs_header r @ h, m_body = body\<rparr> (rs_out r)"
  proof (cases "e_keep_alive env (rs_header r)")
    case True
    then show ?thesis using assms
      by (intro exI [of _ "[Set Connection ''keep-alive'']"])
        (simp add: send_def session_beast_def send_response_def header_call_def Let_def)
  next
    case False
    then show ?thesis using assms
      by (intro exI [of _ "[]"]) (simp add: send_def session_beast_def send_response_def Let_def)
  qed
  with that show ?thesis by blast
qed

lemma file_headers_append: "\<exists>h. rs_header (file_headers fs path r) = rs_header r @ h"
  by (simp add: file_headers_def header_call_def Let_def)

text \<open>What the filter does with a request for a readable file.\<close>

lemma example_preproc:
  assumes "rq_decoded_path (rs_req r) = CHR ''/'' # rest" "rest \<noteq> []" "hd rest \<noteq> CHR ''/''" "last rest \<noteq> CHR ''/''"
    "root \<noteq> []" "last root \<noteq> CHR ''/''" "readable fs (root @ ''/'' @ rest) content"
    "rq_method (rs_req r) = Verb_get" "rq_find (rs_req r) Range_field = None" "rq_find (rs_req r) If_modified_since = None"
  obtains b where "f_preproc (example_filter fs env root) [] r = finish (send (session_beast env) (File_body b) Is_set
      (header_call (Content_length (of_nat (length content))) (file_headers fs (root @ ''/'' @ rest) r)))"
    "body_bytes fs b = Some (Inr content)"
proof -
  from whole_file_sent [OF assms(7-10)] obtain b where
    "get_file fs (session_beast env) (root @ ''/'' @ rest) r = finish (send (session_beast env) (File_body b) Is_set
      (header_call (Content_length (of_nat (length content))) (file_headers fs (root @ ''/'' @ rest) r)))"
    "body_bytes fs b = Some (Inr content)" by blast
  moreover have "resource_from r [] = Inr rest"
    using assms(1,2,4) by (simp add: resource_from_def sv_substr_def)
  moreover have "path_append root rest = root @ ''/'' @ rest"
    using assms(3,5,6) by (simp add: path_append_def)
  ultimately show ?thesis
    by (intro that) (simp_all add: example_filter_def static_files_def static_preproc_def root_directory_def session_say_def)
qed

lemma example_handle:
  assumes rt: "e_router env = \<lparr>r_routes = [], r_filters = [([], example_filter fs env root)]\<rparr>"
    and legal: "legal_path (rq_decoded_path (rs_req r))" "rq_decoded_path (rs_req r) = CHR ''/'' # rest"
    and pre: "f_preproc (example_filter fs env root) [] r = finish (send (session_beast env) body Is_set r1)"
  obtains h r' where "handle_request (session_beast env) (e_router env) r = Inr r'"
    "rs_out r' = queue_send \<lparr>m_header = rs_header r1 @ h, m_body = body\<rparr> (rs_out r1)"
proof -
  have "before_send (e_router env) req hw = Inr hw" for req hw
    using example_before_send rt by (metis router.select_convs(2))
  from send_queued [OF this, of body r1] obtain h r' where r': "send (session_beast env) body Is_set r1 = Inr r'"
    "rs_out r' = queue_send \<lparr>m_header = rs_header r1 @ h, m_body = body\<rparr> (rs_out r1)" .
  have "filter_supports (example_filter fs env root) supports_pre"
    by (simp add: example_filter_def static_files_def base_filter_def filter_supports_def has_flag_def)
  then have "pre_filters (r_filters (e_router env)) (rq_decoded_path (rs_req r)) r = Inr (Finished, r')"
    using pre r'(1) by (simp add: rt legal(2) prefixes_def finish_def)
  then have "handle_request (session_beast env) (e_router env) r = Inr r'" by (simp add: handle_legal [OF legal(1)])
  with r'(2) that show ?thesis by blast
qed

section \<open>The environment of a server\<close>

text \<open>
  The filter answers through the sender of the sessions, whose router it is part of. What a session does
  when it sends depends on the filters that watch responses only, so the environment in which the
  filter is made may have no router yet.
\<close>

definition no_router :: "'f session_env \<Rightarrow> 'f session_env" where
  "no_router env = env\<lparr>e_router := \<lparr>r_routes = [], r_filters = []\<rparr>\<rparr>"

definition app_env :: "('f, 'e) file_system \<Rightarrow> 'f session_env \<Rightarrow> string list \<Rightarrow> 'f session_env" where
  "app_env fs env argv =
    (case example_app fs (no_router env) argv of Inl e \<Rightarrow> no_router env | Inr (app, _) \<Rightarrow> env\<lparr>e_router := app\<rparr>)"

lemma app_env_router:
  "app_env fs env argv = env\<lparr>e_router := \<lparr>r_routes = [],
    r_filters = [([], example_filter fs (no_router env) (example_root argv))]\<rparr>\<rparr>"
  by (simp add: app_env_def example_app_router)

lemma app_env_before_send: "before_send (e_router (app_env fs env argv)) req hw = Inr hw"
  by (rule example_before_send [of _ fs "no_router env" "example_root argv"]) (simp add: app_env_router)

lemma no_router_before_send: "before_send (e_router (no_router env)) req hw = Inr hw"
  by (simp add: no_router_def before_send_def)

lemma app_env_beast: "session_beast (app_env fs env argv) = session_beast (no_router env)"
proof -
  have "send_response (app_env fs env argv) = send_response (no_router env)"
    by (intro ext) (simp add: send_response_def app_env_before_send no_router_before_send)
  then show ?thesis by (simp add: session_beast_def) (simp add: app_env_router no_router_def)
qed

lemma app_env_app: "example_app fs (app_env fs env argv) argv = Inr (e_router (app_env fs env argv), cfg_empty)"
  unfolding example_app_router example_filter_def app_env_beast by (simp add: app_env_router example_filter_def)

lemma app_env_names:
  "(app_env fs env argv)\<lparr>e_server_name := n, e_remote := remote\<rparr> = app_env fs (env\<lparr>e_server_name := n, e_remote := remote\<rparr>) argv"
proof -
  have "send_response (no_router (env\<lparr>e_server_name := n, e_remote := remote\<rparr>)) = send_response (no_router env)"
    by (intro ext) (simp add: send_response_def no_router_def)
  then have "session_beast (no_router (env\<lparr>e_server_name := n, e_remote := remote\<rparr>)) = session_beast (no_router env)"
    by (simp add: session_beast_def) (simp add: no_router_def)
  then show ?thesis by (simp add: app_env_router example_filter_def)
qed

interpretation file_server: reliable_sender "session_beast (app_env fs env argv)" sent queue_inv session_frame
  for fs env argv
proof (intro reliable_sender.intro reliable_sender_axioms.intro)
  show "message_sender (session_beast (app_env fs env argv)) sent queue_inv session_frame"
    by (rule session_queue.message_sender_axioms)
  show "\<exists>w'. b_send (session_beast (app_env fs env argv)) req msg w = Inr w'" for req msg w
    by (simp add: session_beast_def send_response_def app_env_before_send)
qed

lemma app_env_calm: "file_server.calm (example_filter fs (no_router env) root)"
  unfolding example_filter_def app_env_beast [of fs env argv, symmetric]
  by (rule file_server.static_files_calm) (simp_all add: session_say_def queue_console mappers_return)

text \<open>No completion of a read or a write throws.\<close>

lemma read_returns:
  assumes "queue_inv s"
  shows "\<exists>s'. read_done (app_env fs env argv) res s = Inr s'"
proof (cases res)
  case (Got rq)
  let ?r = "first_response (app_env fs env argv) rq (s\<lparr>s_reads := s_reads s - 1\<rparr>)"
  have "rs_out ?r = s\<lparr>s_reads := s_reads s - 1\<rparr>"
    by (simp add: first_response_def header_call_def response_make_def Let_def)
  then have "file_server.fine ?r (handle_request (session_beast (app_env fs env argv)) (e_router (app_env fs env argv)) ?r)"
    using assms by (intro file_server.handle_request_fine) (simp_all add: app_env_router app_env_calm)
  then show ?thesis using Got by (auto simp: file_server.fine_def read_done_def on_read_def Let_def)
qed (simp_all add: read_done_def on_read_def)

lemma write_returns:
  assumes "queue_inv s" "i < length (s_writing s)"
  shows "\<exists>s'. write_done env i ec s = Inr s'"
  using assms
  by (auto simp: queue_inv_def write_done_def on_write_def queue_on_write_def Let_def split: option.split)

section \<open>Properties\<close>

text \<open>C2: A server made for one directory answers a GET for a file in it, whose path is legal and may be
  percent-encoded, followed by a query or not: one response is put into the session's queue, with status
  200, the size of the file and a body that delivers exactly its bytes, and the session goes on.\<close>

theorem file_server_answers:
  assumes "example_app fs env argv = Inr (e_router env, cfg_empty)"
    "percent_decode read_ch (takeWhile (\<lambda>c. c \<noteq> CHR ''?'' \<and> c \<noteq> CHR ''#'') (rq_target http_req)) = CHR ''/'' # rest"
    "length (rq_target http_req) < size_max"
    "legal_path (CHR ''/'' # rest)" "rest \<noteq> []" "hd rest \<noteq> CHR ''/''" "last rest \<noteq> CHR ''/''"
    "example_root argv \<noteq> []" "last (example_root argv) \<noteq> CHR ''/''"
    "readable fs (example_root argv @ ''/'' @ rest) content"
    "rq_method http_req = Verb_get" "rq_find http_req Range_field = None" "rq_find http_req If_modified_since = None"
    "queue_inv s"
  shows "\<exists>s' h b. read_done env (Got http_req) s = Inr s' \<and> queue_inv s' \<and>
    sent s' = sent s @ [\<lparr>m_header = h, m_body = File_body b\<rparr>] \<and>
    Result 200 \<in> set h \<and> Content_length (of_nat (length content)) \<in> set h \<and>
    body_bytes fs b = Some (Inr content)"
proof -
  let ?s = "s\<lparr>s_reads := s_reads s - 1\<rparr>" and ?root = "example_root argv"
  let ?r = "first_response env http_req ?s"
  have rt: "e_router env = \<lparr>r_routes = [], r_filters = [([], example_filter fs env ?root)]\<rparr>"
    using assms(1) by (simp add: example_app_router)
  have r: "rs_req ?r = request_make (e_beyond env) http_req (e_remote env)" "rs_out ?r = ?s" "Result 200 \<in> set (rs_header ?r)"
    by (simp_all add: first_response_def response_make_def header_call_def Let_def status_ok_def)
  have path: "rq_decoded_path (rs_req ?r) = CHR ''/'' # rest"
    unfolding r(1) by (rule request_path [OF assms(2,3)])
  have fields: "rq_method (rs_req ?r) = Verb_get" "rq_find (rs_req ?r) Range_field = None"
      "rq_find (rs_req ?r) If_modified_since = None"
    unfolding r(1) request_fields by (rule assms(11-13))+
  from example_preproc [OF path assms(5-10) fields] obtain b where
    pre: "f_preproc (example_filter fs env ?root) [] ?r = finish (send (session_beast env) (File_body b) Is_set
      (header_call (Content_length (of_nat (length content))) (file_headers fs (?root @ ''/'' @ rest) ?r)))"
    and bytes: "body_bytes fs b = Some (Inr content)" .
  let ?r1 = "header_call (Content_length (of_nat (length content))) (file_headers fs (?root @ ''/'' @ rest) ?r)"
  have "legal_path (rq_decoded_path (rs_req ?r))" using assms(4) path by simp
  from example_handle [OF rt this path pre] obtain h r' where
    handled: "handle_request (session_beast env) (e_router env) ?r = Inr r'"
    and out: "rs_out r' = queue_send \<lparr>m_header = rs_header ?r1 @ h, m_body = File_body b\<rparr> (rs_out ?r1)" .
  have "rs_out ?r1 = ?s" using r(2) by (simp add: header_call_def file_headers_def Let_def)
  moreover have "queue_inv ?s" "sent ?s = sent s" using assms(14) by (simp_all add: queue_inv_def sent_def)
  ultimately have queued: "queue_inv (rs_out r')"
      "sent (rs_out r') = sent s @ [\<lparr>m_header = rs_header ?r1 @ h, m_body = File_body b\<rparr>]"
    using queue_send_queue(1,2) [of ?s] out by simp_all
  have "Result 200 \<in> set (rs_header ?r1)" "Content_length (of_nat (length content)) \<in> set (rs_header ?r1)"
    using r(3) file_headers_append [of fs "?root @ ''/'' @ rest" ?r] by (auto simp: header_call_def)
  moreover have "read_done env (Got http_req) s = Inr (if \<not> is_full (rs_out r') then do_read (rs_out r') else rs_out r')"
    using handled by (simp add: read_done_def on_read_def Let_def)
  moreover have "queue_inv (do_read s1) = queue_inv s1" "sent (do_read s1) = sent s1" for s1 :: "'a session"
    by (simp_all add: do_read_def queue_inv_def sent_def)
  ultimately show ?thesis using queued bytes
    by (intro exI [of _ "if \<not> is_full (rs_out r') then do_read (rs_out r') else rs_out r'"]
        exI [of _ "rs_header ?r1 @ h"] exI [of _ b]) simp
qed

text \<open>A server for the directory \<open>/srv\<close>, which is the name of its program.\<close>

definition srv_env :: "nat option session_env" where
  "srv_env = app_env (memory_fs ''abc'') plain_env [''/srv'', ''/data'']"

theorem file_server_answers_witness:
  "\<exists>s' h b. read_done srv_env (Got (get_request ''/f%2Etxt?v=1'')) (run (session_init [])) = Inr s' \<and> queue_inv s' \<and>
    sent s' = [\<lparr>m_header = h, m_body = File_body b\<rparr>] \<and> Result 200 \<in> set h \<and> Content_length 3 \<in> set h \<and>
    body_bytes (memory_fs ''abc'') b = Some (Inr ''abc'')"
proof -
  have target: "percent_decode read_ch (takeWhile (\<lambda>c. c \<noteq> CHR ''?'' \<and> c \<noteq> CHR ''#'') (rq_target (get_request ''/f%2Etxt?v=1''))) =
      CHR ''/'' # ''f.txt''" "length (rq_target (get_request ''/f%2Etxt?v=1'')) < size_max"
    by code_simp (rule small_size, code_simp)
  have legal: "legal_path (CHR ''/'' # ''f.txt'')" by code_simp
  have small: "length ''abc'' < 2 ^ 64" by (simp add: small_size)
  have root: "example_root [''/srv'', ''/data''] = ''/srv''" by (simp add: example_root_def)
  have "c_str (''/srv'' @ ''/'' @ ''f.txt'') \<noteq> ''/www''" by code_simp
  then have rd: "readable (memory_fs ''abc'') (example_root [''/srv'', ''/data''] @ ''/'' @ ''f.txt'') ''abc''"
    unfolding root by (rule memory_readable [OF small])
  have start: "queue_inv (run (session_init []) :: nat option session)" "sent (run (session_init []) :: nat option session) = []"
    by (simp_all add: run_def do_read_def session_init_def queue_inv_def sent_def)
  have req: "rq_method (get_request t) = Verb_get" "rq_find (get_request t) fd = None" for t fd
    by (simp_all add: get_request_def)
  from file_server_answers [OF app_env_app [of "memory_fs ''abc''" plain_env "[''/srv'', ''/data'']", folded srv_env_def] target legal _ _ _ _ _ rd req(1) req(2) req(2) start(1)] start(2) root
  show ?thesis by simp
qed

end
