(* ===== verification/Server_Process.thy ===== *)
theory Server_Process
  imports File_Server
begin

text \<open>
  \<open>run\<close> and \<open>main\<close> of \<open>examples/simple-server.cc\<close>: the process around the listener. A number of worker
  threads and the main thread call the handlers of Asio until a signal stops them; then the main thread
  waits for the workers and ends. A handler that throws ends the process. The state is that of the
  threads, of the one \<open>io_context\<close> and of the listener; \<open>server_step\<close> is one handler, one thread that
  leaves \<open>ioc.run()\<close>, or the end of \<open>run\<close>. The handlers of one session, and those of the listener, are
  on strands, so that a step stands for a whole handler.
\<close>

section \<open>State\<close>

datatype main_thread = Running | Joining | Ended | Crashed exn

text \<open>\<open>sv_workers\<close> are the threads that are still in \<open>ioc.run()\<close>, the main thread not counted; \<open>sv_signals\<close>
  says that \<open>signals.async_wait\<close> has not ended; \<open>sv_console\<close> is what \<open>run\<close> prints.\<close>

record 'f server =
  sv_listener :: "'f listener"
  sv_workers :: nat
  sv_main :: main_thread
  sv_stopped :: bool
  sv_signals :: bool
  sv_console :: console

section \<open>Starting\<close>

text \<open>\<open>hardware_concurrency() - 1\<close> is computed without a sign and kept in an \<open>int\<close>.\<close>

definition thread_count :: "u32 \<Rightarrow> int" where
  "thread_count hardware_concurrency = sint (hardware_concurrency - 1)"

definition listening_lines :: "local_endpoint \<Rightarrow> console" where
  "listening_lines le =
    [(Stdout, ''Listening on http://'' @ le_interface le @ '':'' @ dec (le_port le) @ ''/'' @ [CHR 0x0A]),
     (Stdout, ''Started. Press ^C to stop.'' @ [CHR 0x0A])]"

text \<open>\<open>run\<close> up to the call of \<open>ioc.run()\<close> in the main thread, or to its first \<open>return\<close>. A negative count is
  converted to a size that no vector has.\<close>

definition example_run :: "string \<Rightarrow> net_ops \<Rightarrow> string \<Rightarrow> u32 \<Rightarrow> exn + 'f server" where
  "example_run version net server_name hardware_concurrency =
    (case listen version net server_name False [] of (le, li) \<Rightarrow>
       if le_port le = 0 then
         Inr \<lparr>sv_listener = li, sv_workers = 0, sv_main = Ended, sv_stopped = False, sv_signals = False,
           sv_console = [(Stdout, ''Error while seting up server...'' @ [CHR 0x0A])]\<rparr>
       else if thread_count hardware_concurrency < 0 then Inl Length_error
       else Inr \<lparr>sv_listener = li, sv_workers = nat (thread_count hardware_concurrency), sv_main = Running,
         sv_stopped = False, sv_signals = True, sv_console = listening_lines le\<rparr>)"

text \<open>\<open>major\<close> and \<open>minor\<close> are generated. The sessions of the server are those of \<open>app_env\<close>.\<close>

definition example_main ::
  "('f, 'e) file_system \<Rightarrow> 'f session_env \<Rightarrow> string list \<Rightarrow> string \<Rightarrow> nat \<Rightarrow> nat \<Rightarrow> net_ops \<Rightarrow> u32 \<Rightarrow>
    exn + 'f session router \<times> 'f server" where
  "example_main fs env argv version major minor net hardware_concurrency =
    (case example_app fs (no_router env) argv of
       Inl e \<Rightarrow> Inl e
     | Inr (app, _) \<Rightarrow>
         map_sum id (Pair app)
           (example_run version net (''simple-server/'' @ dec major @ ''.'' @ dec minor) hardware_concurrency))"

section \<open>Steps\<close>

text \<open>A handler of a session that throws.\<close>

inductive session_throws :: "'f session_env \<Rightarrow> 'f session \<Rightarrow> exn \<Rightarrow> bool" for env s where
  "0 < s_reads s \<Longrightarrow> read_done env res s = Inl e \<Longrightarrow> session_throws env s e"
| "i < length (s_writing s) \<Longrightarrow> write_done env i ec s = Inl e \<Longrightarrow> session_throws env s e"

text \<open>A thread is in \<open>ioc.run()\<close>, which has not been told to stop.\<close>

definition handling :: "'f server \<Rightarrow> bool" where
  "handling sv \<longleftrightarrow> \<not> sv_stopped sv \<and> (sv_main sv = Running \<or> sv_main sv = Joining \<and> 0 < sv_workers sv)"

definition out_of_work :: "'f server \<Rightarrow> bool" where
  "out_of_work sv \<longleftrightarrow> li_accepts (sv_listener sv) = 0 \<and> \<not> sv_signals sv \<and>
    (\<forall>rs \<in> set (li_sessions (sv_listener sv)). s_reads (snd rs) = 0 \<and> s_writing (snd rs) = [])"

definition on_signal :: "'f server \<Rightarrow> 'f server" where
  "on_signal sv = sv\<lparr>sv_signals := False, sv_stopped := True,
    sv_console := sv_console sv @ [(Stdout, ''Stopping...'' @ [CHR 0x0A])]\<rparr>"

definition main_ends :: "'f server \<Rightarrow> 'f server" where
  "main_ends sv = sv\<lparr>sv_main := Ended, sv_console := sv_console sv @ [(Stdout, ''Stopped.'' @ [CHR 0x0A])]\<rparr>"

abbreviation peer_env :: "'f session_env \<Rightarrow> 'f listener \<Rightarrow> string \<Rightarrow> 'f session_env" where
  "peer_env env li remote \<equiv> env\<lparr>e_server_name := li_server_name li, e_remote := remote\<rparr>"

inductive server_step :: "'f session_env \<Rightarrow> 'f server \<Rightarrow> 'f server \<Rightarrow> bool" for env where
  Accepts: "handling sv \<Longrightarrow> 0 < li_accepts (sv_listener sv) \<Longrightarrow>
    server_step env sv (sv\<lparr>sv_listener := accept_done res (sv_listener sv)\<rparr>)"
| Handles: "handling sv \<Longrightarrow> li_sessions (sv_listener sv) = a @ (remote, s) # b \<Longrightarrow>
    session_step (peer_env env (sv_listener sv) remote) s s' \<Longrightarrow>
    server_step env sv (sv\<lparr>sv_listener := (sv_listener sv)\<lparr>li_sessions := a @ (remote, s') # b\<rparr>\<rparr>)"
| Throws: "handling sv \<Longrightarrow> (remote, s) \<in> set (li_sessions (sv_listener sv)) \<Longrightarrow>
    session_throws (peer_env env (sv_listener sv) remote) s e \<Longrightarrow>
    server_step env sv (sv\<lparr>sv_main := Crashed e\<rparr>)"
| Signal: "handling sv \<Longrightarrow> sv_signals sv \<Longrightarrow> server_step env sv (on_signal sv)"
| Worker_returns: "sv_stopped sv \<or> out_of_work sv \<Longrightarrow> sv_main sv = Running \<or> sv_main sv = Joining \<Longrightarrow>
    0 < sv_workers sv \<Longrightarrow> server_step env sv (sv\<lparr>sv_workers := sv_workers sv - 1\<rparr>)"
| Main_returns: "sv_stopped sv \<or> out_of_work sv \<Longrightarrow> sv_main sv = Running \<Longrightarrow>
    server_step env sv (sv\<lparr>sv_main := Joining\<rparr>)"
| Joined: "sv_main sv = Joining \<Longrightarrow> sv_workers sv = 0 \<Longrightarrow> server_step env sv (main_ends sv)"

abbreviation server_reachable :: "'f session_env \<Rightarrow> 'f server \<Rightarrow> 'f server \<Rightarrow> bool" where
  "server_reachable env \<equiv> (server_step env)\<^sup>*\<^sup>*"

inductive_cases server_stepE: "server_step env sv sv'"

section \<open>The invariant of a server\<close>

text \<open>\<open>con\<close> is what was printed when the threads were started, \<open>n\<close> how many workers that were.\<close>

definition server_inv :: "console \<Rightarrow> nat \<Rightarrow> 'f server \<Rightarrow> bool" where
  "server_inv con n sv \<longleftrightarrow>
    li_accepts (sv_listener sv) = 1 \<and> (\<forall>rs \<in> set (li_sessions (sv_listener sv)). session_inv (snd rs)) \<and>
    (sv_signals sv \<longleftrightarrow> \<not> sv_stopped sv) \<and> sv_workers sv \<le> n \<and>
    (\<not> sv_stopped sv \<longrightarrow> sv_main sv = Running \<and> sv_workers sv = n) \<and>
    (\<forall>e. sv_main sv \<noteq> Crashed e) \<and> (sv_main sv = Ended \<longrightarrow> sv_workers sv = 0) \<and>
    sv_console sv = con @ (if sv_stopped sv then [(Stdout, ''Stopping...'' @ [CHR 0x0A])] else []) @
      (if sv_main sv = Ended then [(Stdout, ''Stopped.'' @ [CHR 0x0A])] else [])"

lemma server_inv_busy: "server_inv con n sv \<Longrightarrow> \<not> out_of_work sv"
  by (simp add: server_inv_def out_of_work_def)

lemma app_env_once: "answers_once (e_router (app_env fs env argv))"
proof -
  have "session_queue.good_filter (static_files fs (session_beast env') session_say mp)" for env' mp
    by (rule session_queue.static_files_good) (simp add: session_say_def queue_console)
  then show ?thesis
    by (simp add: app_env_router answers_once_def session_queue.good_router_def example_filter_def)
qed

lemma app_env_throws_not:
  assumes "session_inv s"
  shows "\<not> session_throws (peer_env (app_env fs env argv) li remote) s e"
proof -
  have "queue_inv s" using assms by (simp add: session_inv_def)
  from read_returns [OF this] write_returns [OF this] show ?thesis
    unfolding app_env_names by (metis session_throws.cases sum.distinct(1))
qed

lemma listen_start:
  assumes "listen version net server_name reuse con = (le, li)" "le_port le \<noteq> 0"
  shows "li_accepts li = 1" "li_sessions li = []"
proof -
  let ?name = "if server_name \<noteq> [] then server_name @ '' '' @ version else version"
  have made: "li_accepts (listener_make net ?name reuse con) = 0" "li_sessions (listener_make net ?name reuse con) = []"
    by (auto simp: listener_make_def li_fail_def Let_def split: option.split)
  have "listener_run net l = (le, li) \<Longrightarrow> li_accepts li = Suc (li_accepts l) \<and> li_sessions li = li_sessions l" for l :: "'a listener"
    using assms(2)
    by (auto simp: listener_run_def host_name_def next_accept_def li_fail_def no_endpoint_def Let_def
        split: port_result.splits prod.splits option.splits if_splits)
  with assms(1) made show "li_accepts li = 1" "li_sessions li = []" by (auto simp: listen_def)
qed

lemma server_inv_start:
  fixes sv :: "'f server"
  assumes "example_run version net server_name hw = Inr sv"
  shows "sv_main sv = Ended \<or> server_inv (sv_console sv) (nat (thread_count hw)) sv"
proof -
  obtain le and li :: "'f listener" where started: "listen version net server_name False [] = (le, li)" by force
  show ?thesis
  proof (cases "le_port le = 0")
    case True
    with assms started show ?thesis by (auto simp: example_run_def)
  next
    case False
    from assms started False listen_start [OF started False] show ?thesis
      by (auto simp: example_run_def server_inv_def split: if_splits)
  qed
qed

lemma server_inv_step:
  assumes "server_inv con n sv" "server_step (app_env fs env argv) sv sv'"
  shows "server_inv con n sv'"
  using assms(2)
proof (cases rule: server_step.cases)
  case (Accepts res)
  with assms(1) accept_done_accepts [of "sv_listener sv" res] session_inv_start show ?thesis
    by (cases res) (auto simp: server_inv_def accept_done_sessions)
next
  case (Handles a remote s b s')
  with assms(1) have "session_inv s" by (simp add: server_inv_def)
  with Handles(4) app_env_once have "session_inv s'" by (blast intro: session_step_inv)
  with assms(1) Handles show ?thesis by (auto simp: server_inv_def)
next
  case (Throws remote s e)
  with assms(1) app_env_throws_not show ?thesis by (fastforce simp: server_inv_def)
next
  case Signal
  with assms(1) show ?thesis by (auto simp: server_inv_def on_signal_def handling_def)
next
  case Worker_returns
  with assms(1) server_inv_busy [OF assms(1)] show ?thesis by (auto simp: server_inv_def)
next
  case Main_returns
  with assms(1) server_inv_busy [OF assms(1)] show ?thesis by (auto simp: server_inv_def)
next
  case Joined
  with assms(1) show ?thesis by (auto simp: server_inv_def main_ends_def)
qed

lemma ended_stays: "sv_main sv = Ended \<Longrightarrow> \<not> server_step env sv sv'"
  by (auto elim!: server_stepE simp: handling_def)

lemma server_inv_reachable:
  assumes "server_reachable (app_env fs env argv) sv sv'" "server_inv con n sv"
  shows "server_inv con n sv'"
  using assms by (induction rule: rtranclp_induct) (auto intro: server_inv_step)

lemma main_app:
  assumes "example_main fs env argv version major minor net hw = Inr (app, sv)"
  shows "env\<lparr>e_router := app\<rparr> = app_env fs env argv"
    "example_run version net (''simple-server/'' @ dec major @ ''.'' @ dec minor) hw = Inr sv"
  using assms
  by (cases "example_run version net (''simple-server/'' @ dec major @ ''.'' @ dec minor) hw :: exn + 'a server";
      simp add: example_main_def app_env_def example_app_router)+

text \<open>A server that runs has a thread for every processor, the main thread included.\<close>

lemma running_threads:
  assumes "example_run version net server_name hw = Inr sv" "sv_main sv = Running"
  shows "0 \<le> thread_count hw"
  using assms by (auto simp: example_run_def split: prod.splits if_splits)

text \<open>\<open>hardware_concurrency()\<close> may return 0 if the number is not known: then the reserved size is that of -1.\<close>

lemma unknown_concurrency:
  assumes "le_port (fst (listen version net server_name False [] :: local_endpoint \<times> 'f listener)) \<noteq> 0"
  shows "(example_run version net server_name 0 :: exn + 'f server) = Inl Length_error"
  using assms by (auto simp: example_run_def thread_count_def split: prod.split)

section \<open>Stopping\<close>

text \<open>How many steps are left for the threads.\<close>

definition left_to_do :: "'f server \<Rightarrow> nat" where
  "left_to_do sv = sv_workers sv + (case sv_main sv of Running \<Rightarrow> 2 | Joining \<Rightarrow> 1 | _ \<Rightarrow> 0)"

lemma stopped_step:
  assumes "server_step env sv sv'" "sv_stopped sv"
  shows "sv_stopped sv'" "Suc (left_to_do sv') = left_to_do sv" "sv_listener sv' = sv_listener sv"
  using assms by (auto elim!: server_stepE simp: handling_def left_to_do_def main_ends_def)

lemma stopped_goes_on:
  assumes "server_inv con n sv" "sv_stopped sv" "sv_main sv \<noteq> Ended"
  shows "\<exists>sv'. server_step env sv sv'"
proof (cases "sv_main sv")
  case Joining
  with assms(2) show ?thesis
    by (cases "sv_workers sv = 0") (blast intro: server_step.Joined server_step.Worker_returns)+
qed (use assms in \<open>auto simp: server_inv_def intro: server_step.Main_returns\<close>)

lemma stopped_steps:
  assumes "(server_step env ^^ k) sv t" "sv_stopped sv"
  shows "sv_stopped t \<and> k + left_to_do t = left_to_do sv \<and> sv_listener t = sv_listener sv"
  using assms(1)
proof (induction k arbitrary: t)
  case 0
  with assms(2) show ?case by simp
next
  case (Suc k)
  then obtain u where "(server_step env ^^ k) sv u" "server_step env u t" by auto
  with Suc.IH stopped_step [of env u t] show ?case by fastforce
qed

section \<open>Properties\<close>

text \<open>C15: The example server is never ended by an exception: whatever the file system does, whatever the
  requests are and however reads, writes, accepts and threads interleave, no handler throws, every
  session has the invariant of sessions, and until a signal comes all threads stay in \<open>ioc.run()\<close> with
  one accept under way.\<close>

theorem server_never_crashes:
  assumes "example_main fs env argv version major minor net hw = Inr (app, sv)"
    "server_reachable (env\<lparr>e_router := app\<rparr>) sv sv'" "sv_main sv = Running"
  shows "(\<forall>e. sv_main sv' \<noteq> Crashed e) \<and> (\<forall>rs \<in> set (li_sessions (sv_listener sv')). session_inv (snd rs)) \<and>
    (\<not> sv_stopped sv' \<longrightarrow> sv_main sv' = Running \<and> int (sv_workers sv') = thread_count hw \<and>
      li_accepts (sv_listener sv') = 1)"
proof -
  note app = main_app [OF assms(1)]
  from server_inv_start [OF app(2)] assms(3) have "server_inv (sv_console sv) (nat (thread_count hw)) sv" by simp
  with assms(2) have "server_inv (sv_console sv) (nat (thread_count hw)) sv'"
    unfolding app(1) by (rule server_inv_reachable)
  with running_threads [OF app(2) assms(3)] show ?thesis by (simp add: server_inv_def)
qed

text \<open>C16: The example server can always be stopped, and then ends: as long as it runs the signal's handler can
  be called, and after it the threads make at most two steps more than there are workers, whatever
  their order; they do not deadlock, start and change no session, and when they make no further step \<open>run\<close>
  has returned, all workers are joined and both lines are printed.\<close>

theorem server_stops:
  assumes "example_main fs env argv version major minor net hw = Inr (app, sv)"
    "server_reachable (env\<lparr>e_router := app\<rparr>) sv sv'" "sv_main sv = Running"
  shows "if sv_stopped sv'
    then \<forall>k t. (server_step (env\<lparr>e_router := app\<rparr>) ^^ k) sv' t \<longrightarrow>
      k \<le> sv_workers sv' + 2 \<and> sv_listener t = sv_listener sv' \<and>
      ((\<exists>u. server_step (env\<lparr>e_router := app\<rparr>) t u) \<or>
       sv_main t = Ended \<and> sv_workers t = 0 \<and>
       sv_console t = sv_console sv @ [(Stdout, ''Stopping...'' @ [CHR 0x0A]), (Stdout, ''Stopped.'' @ [CHR 0x0A])])
    else server_step (env\<lparr>e_router := app\<rparr>) sv' (on_signal sv')"
proof -
  note app = main_app [OF assms(1)]
  from server_inv_start [OF app(2)] assms(3) have start: "server_inv (sv_console sv) (nat (thread_count hw)) sv" by simp
  with assms(2) have inv: "server_inv (sv_console sv) (nat (thread_count hw)) sv'"
    unfolding app(1) by (rule server_inv_reachable)
  show ?thesis
  proof (cases "sv_stopped sv'")
    case True
    have "k \<le> sv_workers sv' + 2 \<and> sv_listener t = sv_listener sv' \<and>
      ((\<exists>u. server_step (app_env fs env argv) t u) \<or> sv_main t = Ended \<and> sv_workers t = 0 \<and>
       sv_console t = sv_console sv @ [(Stdout, ''Stopping...'' @ [CHR 0x0A]), (Stdout, ''Stopped.'' @ [CHR 0x0A])])"
      if "(server_step (app_env fs env argv) ^^ k) sv' t" for k t
    proof -
      note steps = stopped_steps [OF that True]
      from that have "server_reachable (app_env fs env argv) sv' t" by (rule relpowp_imp_rtranclp)
      then have "server_inv (sv_console sv) (nat (thread_count hw)) t" using inv by (rule server_inv_reachable)
      moreover from this steps have "(\<exists>u. server_step (app_env fs env argv) t u) \<or> sv_main t = Ended"
        using stopped_goes_on by blast
      moreover have "left_to_do sv' \<le> sv_workers sv' + 2"
        by (simp add: left_to_do_def split: main_thread.split)
      ultimately show ?thesis using steps by (auto simp: server_inv_def)
    qed
    with True show ?thesis unfolding app(1) by simp
  next
    case False
    with inv have "server_step (app_env fs env argv) sv' (on_signal sv')"
      by (intro server_step.Signal) (simp_all add: server_inv_def handling_def)
    with False show ?thesis unfolding app(1) by simp
  qed
qed

text \<open>A machine with two processors, and a server that gets a connection and then a signal.\<close>

definition two_threads :: "(nat option session router \<times> nat option server)" where
  "two_threads = projr (example_main (memory_fs ''abc'') plain_env [''/srv''] ''Beast'' 0 1 (test_net None) 2)"

lemma two_threads:
  "example_main (memory_fs ''abc'') plain_env [''/srv''] ''Beast'' 0 1 (test_net None) 2 = Inr (fst two_threads, snd two_threads)"
  "sv_main (snd two_threads) = Running" "sv_workers (snd two_threads) = 1" "sv_stopped (snd two_threads) = False"
  "sv_signals (snd two_threads) = True" "li_accepts (sv_listener (snd two_threads)) = 1"
  by (simp_all add: two_threads_def example_main_def example_app_router example_run_def thread_count_def listen_def
      listener_make_def listener_run_def test_net_def next_accept_def host_name_def)

lemma two_threads_peer:
  "server_reachable env (snd two_threads)
    ((snd two_threads)\<lparr>sv_listener := accept_done (Peer ''::1'') (sv_listener (snd two_threads))\<rparr>)"
  by (rule r_into_rtranclp, rule server_step.Accepts) (simp_all add: two_threads handling_def)

theorem server_never_crashes_witness:
  "li_accepts (accept_done (Peer ''::1'') (sv_listener (snd two_threads))) = 1 \<and>
   list_all (\<lambda>rs. session_inv (snd rs)) (li_sessions (accept_done (Peer ''::1'') (sv_listener (snd two_threads))))"
  using server_never_crashes [OF two_threads(1) two_threads_peer two_threads(2)] two_threads(4)
  by (simp add: list_all_iff)

theorem server_stops_witness:
  "\<exists>t. (server_step (plain_env\<lparr>e_router := fst two_threads\<rparr>) ^^ 3) (on_signal (snd two_threads)) t \<and>
    sv_main t = Ended \<and> sv_console t = sv_console (snd two_threads) @
      [(Stdout, ''Stopping...'' @ [CHR 0x0A]), (Stdout, ''Stopped.'' @ [CHR 0x0A])]"
proof -
  let ?env = "plain_env\<lparr>e_router := fst two_threads\<rparr>" and ?s = "on_signal (snd two_threads)"
  let ?s1 = "?s\<lparr>sv_main := Joining\<rparr>"
  let ?s2 = "?s1\<lparr>sv_workers := sv_workers ?s1 - 1\<rparr>"
  have reach: "server_reachable ?env (snd two_threads) ?s"
    by (rule r_into_rtranclp, rule server_step.Signal) (simp_all add: two_threads handling_def)
  have "server_step ?env ?s ?s1" by (rule server_step.Main_returns) (simp_all add: on_signal_def two_threads)
  moreover have "server_step ?env ?s1 ?s2" by (rule server_step.Worker_returns) (simp_all add: on_signal_def two_threads)
  moreover have "server_step ?env ?s2 (main_ends ?s2)" by (rule server_step.Joined) (simp_all add: on_signal_def two_threads)
  ultimately have steps: "(server_step ?env ^^ 3) ?s (main_ends ?s2)" by (auto simp: eval_nat_numeral)
  moreover have "\<nexists>u. server_step ?env (main_ends ?s2) u"
    by (intro notI, elim exE, rule ended_stays [THEN notE]) (simp_all add: main_ends_def)
  moreover have "sv_stopped ?s" by (simp add: on_signal_def)
  ultimately show ?thesis using server_stops [OF two_threads(1) reach two_threads(2)] by (metis (no_types, lifting))
qed

end
