(* ===== verification/File_Body_Win32.thy ===== *)
theory File_Body_Win32
  imports File_Body
begin

text \<open>
  \<open>beast/patched/file_body_win32.hh\<close>: the specialisation of the file body for Windows files, which
  hands the file to \<open>TransmitFile\<close> instead of reading it. The file class is the record of operations of
  \<open>File_Body\<close>; the socket, \<open>TransmitFile\<close> and the serializer's own functions are the record \<open>win32\<close>. The
  result is that the blocking \<open>write_some\<close>, called until the serializer is done, sends exactly the bytes
  of the fragment, that the asynchronous operation does the same step, and that the writer used
  without \<open>TransmitFile\<close> does not: it reads from where the file is, not from where the fragment starts.
\<close>

section \<open>value_type\<close>

definition win_close :: "('f, 'e) file_ops \<Rightarrow> 'f value_type \<Rightarrow> 'f value_type" where
  "win_close ops b = b\<lparr>vt_file := fo_close ops (vt_file b)\<rparr>"

definition win_open ::
  "('f, 'e) file_ops \<Rightarrow> string \<Rightarrow> file_mode \<Rightarrow> 'f value_type \<Rightarrow> 'e option \<times> 'f value_type" where
  "win_open ops path md b =
    (case fo_open ops path md (vt_file b) of
       (Some e, f) \<Rightarrow> (Some e, b\<lparr>vt_file := f\<rparr>)
     | (None, f) \<Rightarrow>
         (case fo_size ops f of
            (n, Some e) \<Rightarrow> (Some e, win_close ops (b\<lparr>vt_file := f, vt_size := n\<rparr>))
          | (n, None) \<Rightarrow> (None, b\<lparr>vt_file := f, vt_size := n, vt_first := 0, vt_last := n\<rparr>)))"

definition win_fragment :: "u64 \<Rightarrow> u64 \<Rightarrow> 'f value_type \<Rightarrow> 'f value_type" where
  "win_fragment start stop b = b\<lparr>vt_first := start, vt_last := stop\<rparr>"

definition win_reset :: "('f, 'e) file_ops \<Rightarrow> 'f \<Rightarrow> 'f value_type \<Rightarrow> 'e option \<times> 'f value_type" where
  "win_reset ops file b =
    (let b = (if fo_is_open ops (vt_file b) then win_close ops b else b);
         b = b\<lparr>vt_file := file\<rparr>
     in if fo_is_open ops (vt_file b) then
          (case fo_size ops (vt_file b) of
             (n, Some e) \<Rightarrow> (Some e, win_close ops (b\<lparr>vt_size := n\<rparr>))
           | (n, None) \<Rightarrow> (None, b\<lparr>vt_size := n, vt_first := 0, vt_last := n\<rparr>))
        else (None, b))"

definition win_payload_size :: "'f value_type \<Rightarrow> u64" where
  "win_payload_size b = vt_size b"

section \<open>reader and writer\<close>

definition win_writer_init :: "'e option \<Rightarrow> 'e option" where
  "win_writer_init ec = None"

definition win_reader_init :: "u64 option \<Rightarrow> 'e option \<Rightarrow> 'e option" where
  "win_reader_init content_length ec = None"

definition win_reader_finish :: "'e option \<Rightarrow> 'e option" where
  "win_reader_finish ec = None"

fun win_put :: "('f, 'e) file_ops \<Rightarrow> string list \<Rightarrow> size_t \<Rightarrow> 'f \<Rightarrow> (size_t \<times> 'e option) \<times> 'f" where
  "win_put ops [] nwritten f = ((nwritten, None), f)"
| "win_put ops (buffer # buffers) nwritten f =
    (case fo_write ops buffer f of
       ((n, Some e), f) \<Rightarrow> ((nwritten + n, Some e), f)
     | ((n, None), f) \<Rightarrow> win_put ops buffers (nwritten + n) f)"

text \<open>The writer has only a position; \<open>get\<close> reads without seeking to it.\<close>

definition win_writer :: "'f value_type \<Rightarrow> u64" where
  "win_writer b = vt_first b"

definition win_get ::
  "('f, 'e) file_ops \<Rightarrow> u64 \<Rightarrow> 'f value_type \<Rightarrow> ('e io_error + (string \<times> bool) option) \<times> u64 \<times> 'f value_type" where
  "win_get ops pos b =
    (let n = min buf_size (unat (vt_last b - pos))
     in if n = 0 then (Inr None, pos, b)
        else case fo_read ops n (vt_file b) of
               (Inl e, f) \<Rightarrow> (Inl (Io e), pos, b\<lparr>vt_file := f\<rparr>)
             | (Inr bytes, f) \<Rightarrow>
                 if bytes = [] then (Inl Short_read, pos, b\<lparr>vt_file := f\<rparr>)
                 else let pos = pos + of_nat (length bytes)
                      in (Inr (Some (bytes, pos < vt_last b)), pos, b\<lparr>vt_file := f\<rparr>))"

section \<open>Errors and offsets\<close>

text \<open>\<open>lowPart\<close> and \<open>highPart\<close> of a 64-bit offset.\<close>

definition lowPart :: "u64 \<Rightarrow> u32" where
  "lowPart n = ucast (n AND 0xFFFFFFFF)"

definition highPart :: "u64 \<Rightarrow> u32" where
  "highPart n = ucast (drop_bit 32 n AND 0xFFFFFFFF)"

text \<open>The codes of Windows.\<close>

definition ERROR_NETNAME_DELETED :: u32 where "ERROR_NETNAME_DELETED = 64"
definition ERROR_PORT_UNREACHABLE :: u32 where "ERROR_PORT_UNREACHABLE = 1234"
definition WSAEMSGSIZE :: u32 where "WSAEMSGSIZE = 10040"
definition ERROR_MORE_DATA :: u32 where "ERROR_MORE_DATA = 234"
definition ERROR_IO_PENDING :: u32 where "ERROR_IO_PENDING = 997"

lemmas win_codes = ERROR_NETNAME_DELETED_def ERROR_PORT_UNREACHABLE_def WSAEMSGSIZE_def ERROR_MORE_DATA_def
  ERROR_IO_PENDING_def

text \<open>An error code: one of Asio's, one of the system, or one of another category; none is success.\<close>

datatype 'e error_code = Connection_reset | Connection_refused | System_error u32 | Other 'e

definition make_win32_error :: "u32 \<Rightarrow> 'e error_code option" where
  "make_win32_error dwError =
    (if dwError = ERROR_NETNAME_DELETED then Some Connection_reset
     else if dwError = ERROR_PORT_UNREACHABLE then Some Connection_refused
     else if dwError = WSAEMSGSIZE \<or> dwError = ERROR_MORE_DATA then None
     else if dwError = 0 then None else Some (System_error dwError))"

definition translate_error :: "'e error_code \<Rightarrow> 'e error_code option" where
  "translate_error ec = (case ec of System_error value \<Rightarrow> make_win32_error value | _ \<Rightarrow> Some ec)"

section \<open>The serializer and the socket\<close>

text \<open>
  What the functions read and write of Beast's serializer: its message's \<open>chunked\<close> flag and body, the
  writer's position, the limit, and the three stages (header done, split, everything done).
\<close>

record 'f serializer =
  sr_header_done :: bool
  sr_split :: bool
  sr_chunked :: bool
  sr_limit :: u64
  sr_pos :: u64
  sr_body :: "'f value_type"
  sr_done :: bool

text \<open>
  The operations of Windows, Asio and Beast, on a socket state: Beast's \<open>write_some_impl\<close>,
  \<open>TransmitFile\<close> without and with an offset (\<open>OVERLAPPED\<close>, the low part first), \<open>GetLastError\<close>, and
  the serializer's \<open>next\<close>.
\<close>

record ('f, 's, 'e) win32 =
  x_write_some_impl :: "'s \<Rightarrow> 'f serializer \<Rightarrow> (size_t \<times> 'e error_code option) \<times> 's \<times> 'f serializer"
  x_transmit :: "'s \<Rightarrow> 'f \<Rightarrow> u32 \<Rightarrow> bool \<times> 's \<times> 'f"
  x_transmit_at :: "'s \<Rightarrow> 'f \<Rightarrow> u32 \<Rightarrow> u32 \<times> u32 \<Rightarrow> bool \<times> 's \<times> 'f"
  x_last_error :: "'s \<Rightarrow> u32"
  x_next :: "'f serializer \<Rightarrow> 'e error_code option \<times> 'f serializer"

text \<open>\<open>nNumberOfBytesToWrite\<close>: what is left, at most the limit, at most what a \<open>DWORD\<close> holds.\<close>

definition win_amount :: "u64 \<Rightarrow> u64 \<Rightarrow> u64 \<Rightarrow> u32" where
  "win_amount stop pos limit = ucast (min (min (stop - pos) limit) 0xFFFFFFFF)"

definition sr_next_if_done ::
  "('f, 's, 'e) win32 \<Rightarrow> 'f serializer \<Rightarrow> 'e error_code option \<times> 'f serializer" where
  "sr_next_if_done w sr = (if sr_pos sr < vt_last (sr_body sr) then (None, sr) else x_next w sr)"

definition win_write_some ::
  "('f, 'e error_code) file_ops \<Rightarrow> ('f, 's, 'e) win32 \<Rightarrow> 's \<Rightarrow> 'f serializer \<Rightarrow>
   (size_t \<times> 'e error_code option) \<times> 's \<times> 'f serializer" where
  "win_write_some ops w s sr =
    (if \<not> sr_header_done sr then x_write_some_impl w s (sr\<lparr>sr_split := True\<rparr>)
     else if sr_chunked sr then x_write_some_impl w s sr
     else
       let b = sr_body sr; pos = sr_pos sr in
       case fo_seek ops pos (vt_file b) of
         (Some e, f) \<Rightarrow> ((0, Some e), s, sr\<lparr>sr_body := b\<lparr>vt_file := f\<rparr>\<rparr>)
       | (None, f) \<Rightarrow>
           (let n = win_amount (vt_last b) pos (sr_limit sr);
                (bSuccess, s, f) = x_transmit w s f n;
                sr = sr\<lparr>sr_body := b\<lparr>vt_file := f\<rparr>\<rparr>
            in if \<not> bSuccess then ((0, make_win32_error (x_last_error w s)), s, sr)
               else let (ec, sr) = sr_next_if_done w (sr\<lparr>sr_pos := pos + ucast n\<rparr>)
                    in ((unat n, ec), s, sr)))"

section \<open>The asynchronous operation\<close>

text \<open>
  \<open>write_some_win32_op\<close> has a flag \<open>header_\<close>. Starting it leaves Beast's own operation or \<open>TransmitFile\<close>
  running, or completes it at once with an error code and no bytes.
\<close>

datatype 'e op_started = Impl_running | Completed "'e error_code option" | Transmitting

definition op_start ::
  "('f, 's, 'e) win32 \<Rightarrow> 's \<Rightarrow> 'f serializer \<Rightarrow> bool \<times> 'e op_started \<times> 's \<times> 'f serializer" where
  "op_start w s sr =
    (if \<not> sr_header_done sr then (True, Impl_running, s, sr\<lparr>sr_split := True\<rparr>)
     else if sr_chunked sr then (False, Impl_running, s, sr)
     else
       let b = sr_body sr; pos = sr_pos sr;
           (bSuccess, s, f) = x_transmit_at w s (vt_file b) (win_amount (vt_last b) pos (sr_limit sr))
             (lowPart pos, highPart pos);
           dwError = x_last_error w s;
           sr = sr\<lparr>sr_body := b\<lparr>vt_file := f\<rparr>\<rparr>
       in if \<not> bSuccess \<and> dwError \<noteq> ERROR_IO_PENDING then (False, Completed (make_win32_error dwError), s, sr)
          else (False, Transmitting, s, sr))"

definition op_complete ::
  "('f, 's, 'e) win32 \<Rightarrow> bool \<Rightarrow> 'e error_code option \<Rightarrow> size_t \<Rightarrow> 'f serializer \<Rightarrow>
   (size_t \<times> 'e error_code option) \<times> 'f serializer" where
  "op_complete w header_flag ec bytes_transferred sr =
    (case ec of
       Some e \<Rightarrow> ((bytes_transferred, translate_error e), sr)
     | None \<Rightarrow>
         if header_flag then ((bytes_transferred, None), sr)
         else let (ec, sr) = sr_next_if_done w (sr\<lparr>sr_pos := sr_pos sr + of_nat bytes_transferred\<rparr>)
              in ((bytes_transferred, ec), sr))"

text \<open>
  The initiating function, for \<open>completion\<close>: what Asio reports when the operation that was left
  running ends (its error code, its bytes, and the socket and serializer then).
\<close>

definition win_async_write_some ::
  "('f, 's, 'e) win32 \<Rightarrow> ('e op_started \<Rightarrow> 's \<Rightarrow> 'f serializer \<Rightarrow> (size_t \<times> 'e error_code option) \<times> 's \<times> 'f serializer) \<Rightarrow>
   's \<Rightarrow> 'f serializer \<Rightarrow> (size_t \<times> 'e error_code option) \<times> 's \<times> 'f serializer" where
  "win_async_write_some w completion s sr =
    (let (header_flag, started, s, sr) = op_start w s sr;
         ((n, ec), s, sr) = (case started of Completed ec \<Rightarrow> ((0, ec), s, sr) | _ \<Rightarrow> completion started s sr);
         (result, sr) = op_complete w header_flag ec n sr
     in (result, s, sr))"

section \<open>What the code relies on\<close>

text \<open>
  \<open>TransmitFile\<close> sends the bytes it is asked for when they are in the file: at least one, since zero
  stands for the whole file, and at most \<open>2 ^ 31 - 2\<close>. With an offset it does the same from there.
\<close>

definition transmits_content ::
  "('f, 'e error_code) file_ops \<Rightarrow> ('f, 's, 'e) win32 \<Rightarrow> ('s \<Rightarrow> string) \<Rightarrow> ('f \<Rightarrow> bool) \<Rightarrow> ('f \<Rightarrow> nat \<Rightarrow> bool) \<Rightarrow>
   string \<Rightarrow> bool" where
  "transmits_content ops w sent ok at_pos content \<longleftrightarrow>
    (\<forall>f p. ok f \<longrightarrow> p < length content \<longrightarrow>
      fst (fo_seek ops (of_nat p) f) = None \<and> at_pos (snd (fo_seek ops (of_nat p) f)) p) \<and>
    (\<forall>s f p n. at_pos f p \<longrightarrow> 0 < n \<longrightarrow> n \<le> 0x7FFFFFFE \<longrightarrow> p + unat n \<le> length content \<longrightarrow>
      (\<exists>s' f'. x_transmit w s f n = (True, s', f') \<and> ok f' \<and>
        sent s' = sent s @ take (unat n) (drop p content)))"

definition overlapped_offset :: "u32 \<times> u32 \<Rightarrow> u64" where
  "overlapped_offset parts = push_bit 32 (ucast (snd parts)) OR ucast (fst parts)"

definition transmits_at_offset ::
  "('f, 'e error_code) file_ops \<Rightarrow> ('f, 's, 'e) win32 \<Rightarrow> bool" where
  "transmits_at_offset ops w \<longleftrightarrow>
    (\<forall>s f n parts. x_transmit_at w s f n parts = x_transmit w s (snd (fo_seek ops (overlapped_offset parts) f)) n)"

text \<open>\<open>next\<close> asks the writer for a buffer; when it has none left the serializer is done.\<close>

definition next_finishes :: "('f, 's, 'e) win32 \<Rightarrow> bool" where
  "next_finishes w \<longleftrightarrow>
    (\<forall>sr. sr_pos sr = vt_last (sr_body sr) \<longrightarrow> x_next w sr = (None, sr\<lparr>sr_done := True\<rparr>))"

section \<open>The fragment\<close>

text \<open>A caller repeats \<open>write_some\<close> until the serializer is done or an error is reported.\<close>

fun win_write ::
  "('f, 'e error_code) file_ops \<Rightarrow> ('f, 's, 'e) win32 \<Rightarrow> nat \<Rightarrow> 's \<Rightarrow> 'f serializer \<Rightarrow>
   ('e error_code option \<times> 's) option" where
  "win_write ops w 0 s sr = None"
| "win_write ops w (Suc fuel) s sr =
    (case win_write_some ops w s sr of
       ((n, Some e), s', sr') \<Rightarrow> Some (Some e, s')
     | ((n, None), s', sr') \<Rightarrow> if sr_done sr' then Some (None, s') else win_write ops w fuel s' sr')"

text \<open>The operations of the body itself are those of the general file body.\<close>

lemma win_close_same: "win_close = vt_close"
  by (intro ext) (simp add: win_close_def vt_close_def)

lemma win_body_operations:
  "win_open ops path md b = vt_open ops path md b \<and> win_fragment start stop b = vt_fragment start stop b \<and>
   win_reset ops file b = vt_reset ops file b \<and> win_payload_size b = payload_size b"
  unfolding win_open_def vt_open_def win_fragment_def vt_fragment_def win_reset_def vt_reset_def
    win_payload_size_def payload_size_def win_close_same by simp

lemma win_put_same: "win_put ops buffers nwritten f = reader_put ops buffers nwritten f"
  by (induction ops buffers nwritten f rule: reader_put.induct) (simp_all split: prod.split option.split)

lemma mask_32: "(0xFFFFFFFF :: u64) = mask 32"
  by (simp add: mask_eq_exp_minus_1)

lemma overlapped_offset_parts: "overlapped_offset (lowPart n, highPart n) = n"
  unfolding overlapped_offset_def lowPart_def highPart_def mask_32 fst_conv snd_conv
  by (rule bit_word_eqI) (auto simp: bit_simps)

lemma win_amount_small:
  assumes "pos < stop" "0 < limit" "min (stop - pos) limit \<le> 0x7FFFFFFE"
  shows "ucast (win_amount stop pos limit) = min (stop - pos) limit" "0 < win_amount stop pos limit"
    "win_amount stop pos limit \<le> 0x7FFFFFFE" "unat (win_amount stop pos limit) \<le> unat stop - unat pos"
proof -
  let ?m = "min (stop - pos) limit"
  have m: "?m \<le> 0xFFFFFFFF" using assms(3) by (simp add: order.trans [of ?m "0x7FFFFFFE"])
  then have a: "win_amount stop pos limit = ucast ?m" unfolding win_amount_def by (simp only: min.absorb1)
  have u: "unat (win_amount stop pos limit) = unat ?m"
    using assms(3) unfolding a by (simp add: unsigned_ucast_eq word_le_nat_alt take_bit_nat_eq_self)
  show "ucast (win_amount stop pos limit) = ?m" using arg_cong [OF u, of "of_nat :: nat \<Rightarrow> u64"] by simp
  have "0 < stop - pos" using assms(1) by (simp add: word_gt_0)
  then show "0 < win_amount stop pos limit" using u assms(2) by (simp add: word_less_nat_alt min_def split: if_splits)
  show "win_amount stop pos limit \<le> 0x7FFFFFFE" using u assms(3) by (simp add: word_le_nat_alt)
  have "?m \<le> stop - pos" by simp
  then have "unat ?m \<le> unat (stop - pos)" by (simp only: word_le_nat_alt)
  then show "unat (win_amount stop pos limit) \<le> unat stop - unat pos"
    using unat_sub [of pos stop] assms(1) u by simp
qed

lemma win_write_some_content:
  assumes tr: "transmits_content ops w sent ok at_pos content" and len: "length content < 2 ^ 64"
    and sr: "sr_header_done sr" "\<not> sr_chunked sr" "ok (vt_file (sr_body sr))"
    and pos: "sr_pos sr < vt_last (sr_body sr)" "unat (vt_last (sr_body sr)) \<le> length content"
    and amount: "0 < sr_limit sr" "min (vt_last (sr_body sr) - sr_pos sr) (sr_limit sr) \<le> 0x7FFFFFFE"
  obtains n s' f' where "0 < n" "n \<le> unat (vt_last (sr_body sr)) - unat (sr_pos sr)" "ok f'"
    "sent s' = sent s @ take n (drop (unat (sr_pos sr)) content)"
    "win_write_some ops w s sr =
      (let (ec, sr') = sr_next_if_done w (sr\<lparr>sr_body := (sr_body sr)\<lparr>vt_file := f'\<rparr>, sr_pos := of_nat (unat (sr_pos sr) + n)\<rparr>)
       in ((n, ec), s', sr'))"
proof -
  let ?p = "unat (sr_pos sr)" and ?b = "sr_body sr"
  let ?n = "win_amount (vt_last ?b) (sr_pos sr) (sr_limit sr)"
  note n = win_amount_small [OF pos(1) amount]
  have below: "?p < unat (vt_last ?b)" using pos(1) by (simp add: word_less_nat_alt)
  with pos(2) have "?p < length content" by simp
  moreover have "of_nat ?p = sr_pos sr" by simp
  ultimately obtain f1 where seek: "fo_seek ops (sr_pos sr) (vt_file ?b) = (None, f1)" "at_pos f1 ?p"
    using tr sr(3) unfolding transmits_content_def by (metis prod.collapse)
  have "?p + unat ?n \<le> length content" using n(4) below pos(2) by linarith
  with tr seek(2) n(2,3) obtain s' f' where t: "x_transmit w s f1 ?n = (True, s', f')" "ok f'"
      "sent s' = sent s @ take (unat ?n) (drop ?p content)"
    unfolding transmits_content_def by blast
  have "sr_pos sr + ucast ?n = of_nat (?p + unat ?n)" by simp
  then have "win_write_some ops w s sr =
      (let (ec, sr') = sr_next_if_done w (sr\<lparr>sr_body := ?b\<lparr>vt_file := f'\<rparr>, sr_pos := of_nat (?p + unat ?n)\<rparr>)
       in ((unat ?n, ec), s', sr'))"
    using sr(1,2) seek(1) t(1) by (simp add: win_write_some_def Let_def)
  with that [OF _ n(4) t(2,3)] n(2) show ?thesis by (simp add: word_less_nat_alt)
qed

lemma win_write_content:
  assumes tr: "transmits_content ops w sent ok at_pos content" and len: "length content < 2 ^ 64"
    and nx: "next_finishes w"
  shows "sr_header_done sr \<Longrightarrow> \<not> sr_chunked sr \<Longrightarrow> \<not> sr_done sr \<Longrightarrow> ok (vt_file (sr_body sr)) \<Longrightarrow>
    sr_pos sr < vt_last (sr_body sr) \<Longrightarrow> unat (vt_last (sr_body sr)) \<le> length content \<Longrightarrow> 0 < sr_limit sr \<Longrightarrow>
    min (vt_last (sr_body sr) - sr_pos sr) (sr_limit sr) \<le> 0x7FFFFFFE \<Longrightarrow>
    unat (vt_last (sr_body sr)) - unat (sr_pos sr) \<le> fuel \<Longrightarrow>
    \<exists>s'. win_write ops w fuel s sr = Some (None, s') \<and>
      sent s' = sent s @ take (unat (vt_last (sr_body sr)) - unat (sr_pos sr)) (drop (unat (sr_pos sr)) content)"
proof (induction fuel arbitrary: s sr)
  case 0
  then show ?case by (simp add: word_less_nat_alt)
next
  case (Suc fuel)
  let ?p = "unat (sr_pos sr)" and ?e = "unat (vt_last (sr_body sr))"
  from win_write_some_content [OF tr len Suc.prems(1,2,4-8), of s] obtain n s1 f' where
    n: "0 < n" "n \<le> ?e - ?p" and f': "ok f'" and sent: "sent s1 = sent s @ take n (drop ?p content)"
    and step: "win_write_some ops w s sr =
      (let (ec, sr') = sr_next_if_done w (sr\<lparr>sr_body := (sr_body sr)\<lparr>vt_file := f'\<rparr>, sr_pos := of_nat (?p + n)\<rparr>)
       in ((n, ec), s1, sr'))" .
  let ?sr = "sr\<lparr>sr_body := (sr_body sr)\<lparr>vt_file := f'\<rparr>, sr_pos := of_nat (?p + n)\<rparr>"
  have below: "?p < ?e" using Suc.prems(5) by (simp add: word_less_nat_alt)
  have pos: "unat (of_nat (?p + n) :: u64) = ?p + n"
    using n below Suc.prems(6) len by (intro unat_of_nat_small) linarith
  show ?case
  proof (cases "?p + n < ?e")
    case False
    with n(2) below have all: "n = ?e - ?p" by linarith
    have "?p + n = ?e" using all below by simp
    then have "sr_pos ?sr = vt_last (sr_body ?sr)" by (simp del: of_nat_add)
    then show ?thesis
      using step nx sent by (simp add: sr_next_if_done_def next_finishes_def all del: of_nat_add)
  next
    case True
    then have more: "sr_pos ?sr < vt_last (sr_body ?sr)" by (simp add: word_less_nat_alt pos del: of_nat_add)
    have "vt_last (sr_body sr) - sr_pos ?sr \<le> vt_last (sr_body sr) - sr_pos sr"
      using unat_sub [of "sr_pos ?sr" "vt_last (sr_body sr)"] unat_sub [of "sr_pos sr" "vt_last (sr_body sr)"]
        order_less_imp_le [OF more] order_less_imp_le [OF Suc.prems(5)] pos
      by (simp add: word_le_nat_alt del: of_nat_add)
    then have "min (vt_last (sr_body ?sr) - sr_pos ?sr) (sr_limit ?sr) \<le> 0x7FFFFFFE"
      using order.trans [OF min.mono [OF _ order.refl] Suc.prems(8)] by simp
    moreover have "?e - (?p + n) \<le> fuel" using Suc.prems(9) n(1) True by linarith
    ultimately obtain s' where
      "win_write ops w fuel s1 ?sr = Some (None, s')"
      "sent s' = sent s1 @ take (?e - (?p + n)) (drop (?p + n) content)"
      using Suc.IH [of ?sr s1] Suc.prems f' more pos by (auto simp del: of_nat_add)
    moreover have "win_write ops w (Suc fuel) s sr = win_write ops w fuel s1 ?sr"
      using step more Suc.prems(3) by (simp add: sr_next_if_done_def del: of_nat_add)
    moreover have "take (?e - ?p) (drop ?p content) =
        take n (drop ?p content) @ take (?e - (?p + n)) (drop (?p + n) content)"
      using take_add [of n "?e - (?p + n)" "drop ?p content"] True by (simp add: add.commute)
    ultimately show ?thesis using sent by simp
  qed
qed

lemma make_win32_error_again: "make_win32_error e = Some ec \<Longrightarrow> translate_error ec = Some ec"
  by (auto simp: make_win32_error_def translate_error_def split: if_splits)

lemma op_complete_made:
  fixes w :: "('f, 's, 'e) win32"
  assumes "sr_pos sr < vt_last (sr_body sr)"
  shows "op_complete w False (make_win32_error e) 0 sr = ((0, make_win32_error e), sr)"
  using assms by (cases "make_win32_error e :: 'e error_code option")
    (simp_all add: op_complete_def make_win32_error_again sr_next_if_done_def)

section \<open>A file in memory\<close>

text \<open>A file in memory and a socket that keeps what was sent; zero stands for all of the file.\<close>

definition memory_win_file :: "string \<Rightarrow> (nat option, unit error_code) file_ops" where
  "memory_win_file content =
    \<lparr>fo_open = (\<lambda>path md f. (None, Some 0)), fo_is_open = (\<lambda>f. f \<noteq> None), fo_close = (\<lambda>f. None),
     fo_size = (\<lambda>f. (of_nat (length content), None)),
     fo_seek = (\<lambda>p f. (None, Some (unat p))),
     fo_read = (\<lambda>n f. case f of None \<Rightarrow> (Inl (Other ()), f)
       | Some p \<Rightarrow> (let bytes = take n (drop p content) in (Inr bytes, Some (p + length bytes)))),
     fo_write = (\<lambda>bytes f. ((0, Some (Other ())), f))\<rparr>"

definition memory_transmit :: "string \<Rightarrow> string \<Rightarrow> nat option \<Rightarrow> u32 \<Rightarrow> bool \<times> string \<times> nat option" where
  "memory_transmit content sent f n =
    (case f of None \<Rightarrow> (False, sent, f)
     | Some p \<Rightarrow> (True, sent @ (if n = 0 then drop p content else take (unat n) (drop p content)), f))"

definition memory_win32 :: "string \<Rightarrow> (nat option, string, unit) win32" where
  "memory_win32 content =
    \<lparr>x_write_some_impl = (\<lambda>s sr. ((3, None), s @ ''HDR'', sr\<lparr>sr_header_done := True\<rparr>)),
     x_transmit = memory_transmit content,
     x_transmit_at = (\<lambda>s f n parts. memory_transmit content s (Some (unat (overlapped_offset parts))) n),
     x_last_error = (\<lambda>s. 6),
     x_next = (\<lambda>sr. (None, sr\<lparr>sr_done := True\<rparr>))\<rparr>"

lemma memory_win32_transmits:
  assumes "length content < 2 ^ 64"
  shows "transmits_content (memory_win_file content) (memory_win32 content) (\<lambda>s. s) (\<lambda>f. f \<noteq> None)
    (\<lambda>f p. f = Some p) content"
    "transmits_at_offset (memory_win_file content) (memory_win32 content)"
    "next_finishes (memory_win32 content)"
proof -
  have seek: "unat (of_nat p :: u64) = p" if "p < length content" for p
    using that assms by (intro unat_of_nat_small) simp
  show "transmits_content (memory_win_file content) (memory_win32 content) (\<lambda>s. s) (\<lambda>f. f \<noteq> None)
    (\<lambda>f p. f = Some p) content"
    by (auto simp: transmits_content_def memory_win_file_def memory_win32_def memory_transmit_def seek)
  show "transmits_at_offset (memory_win_file content) (memory_win32 content)"
    by (simp add: transmits_at_offset_def memory_win_file_def memory_win32_def)
  show "next_finishes (memory_win32 content)"
    by (simp add: next_finishes_def memory_win32_def)
qed

definition memory_serializer :: "u64 \<Rightarrow> u64 \<Rightarrow> nat option serializer" where
  "memory_serializer start stop =
    (let b = win_fragment start stop \<lparr>vt_file = Some 0, vt_size = 10, vt_first = 0, vt_last = 10\<rparr>
     in \<lparr>sr_header_done = True, sr_split = True, sr_chunked = False, sr_limit = 2,
         sr_pos = win_writer b, sr_body = b, sr_done = False\<rparr>)"

section \<open>Properties\<close>

text \<open>C18: The blocking \<open>write_some\<close>, called until the serializer is done, sends exactly the bytes of the
  fragment, once and in order, whatever the limit, and needs no more calls than there are bytes. The
  fragment must not be empty, and no call may ask \<open>TransmitFile\<close> for more than it can send.\<close>

theorem fragment_transmitted:
  assumes "transmits_content ops w sent ok at_pos content" "next_finishes w"
    "length content < 2 ^ 64" "ok (vt_file b)"
    "start < stop" "unat stop \<le> length content" "0 < limit" "min (stop - start) limit \<le> 0x7FFFFFFE"
  shows "\<exists>s'. win_write ops w (unat stop - unat start) s
      \<lparr>sr_header_done = True, sr_split = split, sr_chunked = False, sr_limit = limit,
       sr_pos = win_writer (win_fragment start stop b), sr_body = win_fragment start stop b, sr_done = False\<rparr> =
      Some (None, s') \<and>
    sent s' = sent s @ take (unat stop - unat start) (drop (unat start) content)"
  using win_write_content [OF assms(1,3,2), of
    "\<lparr>sr_header_done = True, sr_split = split, sr_chunked = False, sr_limit = limit,
       sr_pos = win_writer (win_fragment start stop b), sr_body = win_fragment start stop b, sr_done = False\<rparr>"]
    assms(4-8) by (simp add: win_writer_def win_fragment_def)

theorem fragment_transmitted_witness:
  "win_write (memory_win_file ''0123456789'') (memory_win32 ''0123456789'') 5 ''HDR'' (memory_serializer 2 7) =
    Some (None, ''HDR23456'')"
proof -
  let ?b = "\<lparr>vt_file = Some 0, vt_size = 10, vt_first = 0, vt_last = 10\<rparr> :: nat option value_type"
  have small: "length ''0123456789'' < 2 ^ 64" by (simp add: small_size)
  note laws = memory_win32_transmits [OF small]
  have parts: "unat (7 :: u64) - unat (2 :: u64) = 5" "take 5 (drop (unat (2 :: u64)) ''0123456789'') = ''23456''"
    by simp_all
  from fragment_transmitted [OF laws(1,3) small, of ?b 2 7 2 "''HDR''" True] show ?thesis
    unfolding parts memory_serializer_def Let_def by (simp del: win_write.simps)
qed



section \<open>What does not hold\<close>

text \<open>
  The writer reads from where the file is, so a fragment from 2 to 7 delivers the bytes from 0 to 5;
  an empty fragment has \<open>TransmitFile\<close> send all the rest of the file; and the asynchronous operation
  moves the position of a chunked message by the bytes that were sent, which Beast has done already.
\<close>

lemma win_get_not_seeking:
  "fst (win_get (memory_win_file ''0123456789'') (sr_pos (memory_serializer 2 7)) (sr_body (memory_serializer 2 7))) =
    Inr (Some (''01234'', False))"
  by (simp add: win_get_def memory_serializer_def memory_win_file_def win_fragment_def win_writer_def
    buf_size_def Let_def)

lemma empty_fragment_transmits_file:
  "fst (snd (win_write_some (memory_win_file ''0123456789'') (memory_win32 ''0123456789'') []
    (memory_serializer 5 5))) = ''56789''"
  by (simp add: win_write_some_def memory_serializer_def memory_win_file_def memory_win32_def win_fragment_def
    win_writer_def win_amount_def memory_transmit_def sr_next_if_done_def Let_def)

lemma async_chunked_moves_twice:
  assumes "sr_header_done sr" "sr_chunked sr" "completion Impl_running s sr = ((n, None), s', sr')"
    "sr_pos sr' + of_nat n < vt_last (sr_body sr')"
  shows "win_async_write_some w completion s sr = ((n, None), s', sr'\<lparr>sr_pos := sr_pos sr' + of_nat n\<rparr>)"
  using assms
  by (simp add: win_async_write_some_def op_start_def op_complete_def sr_next_if_done_def)

end
