(* ===== verification/Body_Transfer.thy ===== *)
theory Body_Transfer
  imports File_Body_Win32
begin

text \<open>
  The two halves of a file body together (\<open>beast/patched/basic_file_body.hh\<close> and \<open>file_body_win32.hh\<close>): a
  parser of Beast writes the body of a message it receives through the \<open>reader\<close>, a serializer
  delivers the body of a message it sends through the \<open>writer\<close>. What was received is what is delivered
  (\<open>body_roundtrip\<close>).
\<close>

section \<open>Receiving a body\<close>

text \<open>A parser calls \<open>init\<close>, then \<open>put\<close> with the buffers it has, as often as some arrive, then \<open>finish\<close>; the
  first error ends it.\<close>

fun put_all ::
  "(string list \<Rightarrow> size_t \<Rightarrow> 'f \<Rightarrow> (size_t \<times> 'e option) \<times> 'f) \<Rightarrow> string list list \<Rightarrow> 'f \<Rightarrow> 'e option \<times> 'f" where
  "put_all put [] f = (None, f)"
| "put_all put (buffers # rest) f =
    (case put buffers 0 f of
       ((n, Some e), f) \<Rightarrow> (Some e, f)
     | ((n, None), f) \<Rightarrow> put_all put rest f)"

definition receive ::
  "('f, 'e) file_ops \<Rightarrow> u64 option \<Rightarrow> string list list \<Rightarrow> 'f \<Rightarrow> 'e option \<times> 'f" where
  "receive ops content_length arrivals f =
    (case reader_init content_length None of
       Some e \<Rightarrow> (Some e, f)
     | None \<Rightarrow> (case put_all (reader_put ops) arrivals f of
          (Some e, f) \<Rightarrow> (Some e, f)
        | (None, f) \<Rightarrow> (reader_finish None, f)))"

definition win_receive ::
  "('f, 'e) file_ops \<Rightarrow> u64 option \<Rightarrow> string list list \<Rightarrow> 'f \<Rightarrow> 'e option \<times> 'f" where
  "win_receive ops content_length arrivals f =
    (case win_reader_init content_length None of
       Some e \<Rightarrow> (Some e, f)
     | None \<Rightarrow> (case put_all (win_put ops) arrivals f of
          (Some e, f) \<Rightarrow> (Some e, f)
        | (None, f) \<Rightarrow> (win_reader_finish None, f)))"

text \<open>A serializer calls \<open>init\<close> and then \<open>get\<close>.\<close>

definition serialize :: "('f, 'e) file_ops \<Rightarrow> nat \<Rightarrow> 'f value_type \<Rightarrow> ('e io_error + string) option" where
  "serialize ops fuel b =
    (case writer_init None of
       Some e \<Rightarrow> Some (Inl e)
     | None \<Rightarrow> drain ops fuel (writer_make b) (vt_file b))"

lemma win_reader_same: "win_reader_init = reader_init" "win_reader_finish = reader_finish" "win_put = reader_put"
  by (intro ext, simp add: win_reader_init_def reader_init_def win_reader_finish_def reader_finish_def win_put_same)+

lemma win_receive_same: "win_receive ops = receive ops"
  unfolding fun_eq_iff win_receive_def receive_def win_reader_same by simp

section \<open>Files that keep what is written\<close>

text \<open>
  What a file for reading and writing promises: \<open>holds f c\<close> says that \<open>f\<close> is open with the content \<open>c\<close> and
  the position at its end. A write appends; the size is that of the content, which can be read.
\<close>

definition keeps_content :: "('f, 'e) file_ops \<Rightarrow> ('f \<Rightarrow> string \<Rightarrow> bool) \<Rightarrow> bool" where
  "keeps_content ops holds \<longleftrightarrow>
    (\<forall>f c. holds f c \<longrightarrow> length c < 2 ^ 64 \<longrightarrow> fo_is_open ops f \<and> fo_size ops f = (of_nat (length c), None) \<and>
      (\<exists>ok at_pos. ok f \<and> reads_content ops ok at_pos c)) \<and>
    (\<forall>f c bytes. holds f c \<longrightarrow>
      (\<exists>f'. fo_write ops bytes f = ((length bytes, None), f') \<and> holds f' (c @ bytes)))"

lemma put_appends:
  assumes "keeps_content ops holds"
  shows "holds f c \<Longrightarrow> \<exists>f'. reader_put ops buffers n f = ((n + length (concat buffers), None), f') \<and> holds f' (c @ concat buffers)"
proof (induction buffers arbitrary: f c n)
  case Nil
  then show ?case by simp
next
  case (Cons bytes buffers)
  then obtain f1 where "fo_write ops bytes f = ((length bytes, None), f1)" "holds f1 (c @ bytes)"
    using assms unfolding keeps_content_def by blast
  with Cons.IH [of f1 "c @ bytes" "n + length bytes"] show ?case by (auto simp: add.assoc)
qed

lemma put_all_appends:
  assumes "keeps_content ops holds"
  shows "holds f c \<Longrightarrow> \<exists>f'. put_all (reader_put ops) arrivals f = (None, f') \<and> holds f' (c @ concat (concat arrivals))"
proof (induction arrivals arbitrary: f c)
  case Nil
  then show ?case by simp
next
  case (Cons buffers arrivals)
  from put_appends [OF assms Cons.prems, of buffers 0] obtain f1 where
    "reader_put ops buffers 0 f = ((length (concat buffers), None), f1)" "holds f1 (c @ concat buffers)" by auto
  with Cons.IH [of f1] show ?case by fastforce
qed

section \<open>Properties\<close>

text \<open>C21: A body that was received into a new file, in whatever pieces it arrived, and is then sent is the same
  bytes: after \<open>reset\<close> with the written file the payload has their number and the writer delivers
  them, for the plain reader and for that of Windows.\<close>

theorem body_roundtrip:
  assumes "keeps_content ops holds" "holds f []" "length (concat (concat arrivals)) < 2 ^ 64"
  shows "\<exists>f' b'. receive ops content_length arrivals f = (None, f') \<and> win_receive ops content_length arrivals f = (None, f') \<and>
    vt_reset ops f' b = (None, b') \<and> payload_size b' = of_nat (length (concat (concat arrivals))) \<and>
    serialize ops (Suc (length (concat (concat arrivals)))) b' = Some (Inr (concat (concat arrivals)))"
proof -
  let ?c = "concat (concat arrivals)"
  from put_all_appends [OF assms(1,2), of arrivals] obtain f' where
    f': "put_all (reader_put ops) arrivals f = (None, f')" "holds f' ?c" by auto
  with assms(1,3) obtain ok at_pos where open': "fo_is_open ops f'" "fo_size ops f' = (of_nat (length ?c), None)"
    and rd: "ok f'" "reads_content ops ok at_pos ?c" unfolding keeps_content_def by blast
  let ?b' = "\<lparr>vt_file = f', vt_size = of_nat (length ?c), vt_first = 0, vt_last = of_nat (length ?c)\<rparr>"
  have reset: "vt_reset ops f' b = (None, ?b')"
    using open' by (cases b) (simp add: vt_reset_def vt_close_def)
  have size: "unat (of_nat (length ?c) :: u64) = length ?c" using assms(3) by (rule unat_of_nat_small)
  have "drain ops (Suc (length ?c)) (writer_make ?b') f' = Some (Inr ?c)"
    using drain_fragment [OF rd(2) assms(3) rd(1), of ?b'] size by (simp del: drain.simps)
  moreover have "receive ops content_length arrivals f = (None, f')"
    by (simp add: receive_def reader_init_def reader_finish_def f'(1))
  ultimately show ?thesis using reset
    by (intro exI [of _ f'] exI [of _ ?b'])
      (simp add: win_receive_same payload_size_def serialize_def writer_init_def del: drain.simps)
qed

text \<open>A file in memory with its position; it is closed when there is none.\<close>

definition memory_disk :: "((nat \<times> string) option, unit) file_ops" where
  "memory_disk =
    \<lparr>fo_open = (\<lambda>path md f. (None, Some (0, []))), fo_is_open = (\<lambda>f. f \<noteq> None), fo_close = (\<lambda>f. None),
     fo_size = (\<lambda>f. case f of None \<Rightarrow> (0, Some ()) | Some (p, c) \<Rightarrow> (of_nat (length c), None)),
     fo_seek = (\<lambda>q f. case f of None \<Rightarrow> (Some (), f) | Some (p, c) \<Rightarrow> (None, Some (unat q, c))),
     fo_read = (\<lambda>n f. case f of None \<Rightarrow> (Inl (), f)
       | Some (p, c) \<Rightarrow> (Inr (take n (drop p c)), Some (p + length (take n (drop p c)), c))),
     fo_write = (\<lambda>bytes f. case f of None \<Rightarrow> ((0, Some ()), f)
       | Some (p, c) \<Rightarrow> ((length bytes, None), Some (p + length bytes, take p c @ bytes @ drop (p + length bytes) c)))\<rparr>"

lemma memory_disk_keeps: "keeps_content memory_disk (\<lambda>f c. f = Some (length c, c))"
proof -
  have "\<exists>ok at_pos. ok (Some (length c, c)) \<and> reads_content memory_disk ok at_pos c" if "length c < 2 ^ 64" for c
  proof (intro exI conjI)
    let ?ok = "\<lambda>f. \<exists>p. f = Some (p, c)" and ?at_pos = "\<lambda>f p. f = Some (p, c)"
    show "?ok (Some (length c, c))" by simp
    have "unat (of_nat p :: u64) = p" if "p < length c" for p
      using that \<open>length c < 2 ^ 64\<close> by (intro unat_of_nat_small) simp
    moreover have "\<exists>k f'. 0 < k \<and> k \<le> n \<and> p + k \<le> length c \<and>
        fo_read memory_disk n (Some (p, c)) = (Inr (take k (drop p c)), f') \<and> (\<exists>q. f' = Some (q, c))"
      if "p < length c" "0 < n" for p n
      using that by (intro exI [of _ "min n (length c - p)"]) (auto simp: memory_disk_def min_def)
    ultimately show "reads_content memory_disk ?ok ?at_pos c"
      unfolding reads_content_def by (auto simp: memory_disk_def)
  qed
  then show ?thesis by (auto simp: keeps_content_def) (auto simp: memory_disk_def)
qed

theorem body_roundtrip_witness:
  "serialize memory_disk 6 (snd (vt_reset memory_disk
     (snd (receive memory_disk None [[''ab'', ''c''], [], [''de'']] (snd (fo_open memory_disk ''f'' Write_mode None))))
     \<lparr>vt_file = None, vt_size = 0, vt_first = 0, vt_last = 0\<rparr>)) = Some (Inr ''abcde'')"
proof -
  have new: "snd (fo_open memory_disk ''f'' Write_mode None) = Some (length '''', '''')" by (simp add: memory_disk_def)
  have small: "length (concat (concat [[''ab'', ''c''], [], [''de'']])) < 2 ^ 64" by (simp add: small_size)
  from body_roundtrip [OF memory_disk_keeps new small, of None "\<lparr>vt_file = None, vt_size = 0, vt_first = 0, vt_last = 0\<rparr>"]
  show ?thesis by (auto simp: eval_nat_numeral)
qed

end
