(* ===== verification/Delegate.thy ===== *)
theory Delegate
  imports Prelude "HOL-Library.Multiset"
begin

text \<open>
  \<open>delegate.hh\<close>: the type-erased callback of a route. A delegate is a pointer to an object, a pointer to
  a stub that knows its type, and a shared owner of the block the object was copied to. The functors,
  their types and what calling them does are parameters (\<open>code\<close>); the blocks, the owner counts that
  \<open>std::shared_ptr\<close> keeps and the lifetime of the objects are the model. A run of operations on any
  number of delegates keeps the counts exact and destroys every object once, as what it is, as long as
  no block is reused for an object of another type (\<open>delegates_safe\<close>); reusing one for another type does
  not (\<open>reused_block_wrong_destructor\<close>).
\<close>

section \<open>Functors\<close>

text \<open>
  What a delegate stores: an object of a class, a closure or a function pointer, or a pair of an object
  and a member function of it. A pointer is null, to the object in a block, or to an object outside.
\<close>

datatype ptr = Nullptr | In_block nat | Outside nat

datatype ('f, 'm) callable =
    Class_object 'f
  | Member_pair ptr 'm
  | Const_member_pair ptr 'm

record ('f, 'm, 'n, 't, 'a, 'w, 'r) program =
  c_type :: "('f, 'm) callable \<Rightarrow> 't"
  c_size :: "'t \<Rightarrow> size_t"
  c_call :: "'f \<Rightarrow> 'a \<Rightarrow> 'w \<Rightarrow> 'r \<times> 'f \<times> 'w"
  c_method :: "'m \<Rightarrow> ptr \<Rightarrow> 'a \<Rightarrow> 'w \<Rightarrow> 'r \<times> 'w"
  c_function :: "'n \<Rightarrow> 'a \<Rightarrow> 'w \<Rightarrow> 'r \<times> 'w"

text \<open>\<open>functor_stub\<close>, both overloads: the call may change the stored object and the world.\<close>

fun functor_stub ::
  "('f, 'm, 'n, 't, 'a, 'w, 'r) program \<Rightarrow> ('f, 'm) callable \<Rightarrow> 'a \<Rightarrow> 'w \<Rightarrow> 'r \<times> ('f, 'm) callable \<times> 'w" where
  "functor_stub prg (Class_object f) args w = (let (r, f', w') = c_call prg f args w in (r, Class_object f', w'))"
| "functor_stub prg (Member_pair obj method) args w =
    (let (r, w') = c_method prg method obj args w in (r, Member_pair obj method, w'))"
| "functor_stub prg (Const_member_pair obj method) args w =
    (let (r, w') = c_method prg method obj args w in (r, Const_member_pair obj method, w'))"

text \<open>The stubs of a function and of a member function; the pointer to the object is the delegate's.\<close>

definition function_stub ::
  "('f, 'm, 'n, 't, 'a, 'w, 'r) program \<Rightarrow> 'n \<Rightarrow> ptr \<Rightarrow> 'a \<Rightarrow> 'w \<Rightarrow> 'r \<times> 'w" where
  [simp]: "function_stub prg function_ptr object_ptr args w = c_function prg function_ptr args w"

definition method_stub ::
  "('f, 'm, 'n, 't, 'a, 'w, 'r) program \<Rightarrow> 'm \<Rightarrow> ptr \<Rightarrow> 'a \<Rightarrow> 'w \<Rightarrow> 'r \<times> 'w" where
  [simp]: "method_stub prg method_ptr object_ptr args w = c_method prg method_ptr object_ptr args w"

definition const_method_stub ::
  "('f, 'm, 'n, 't, 'a, 'w, 'r) program \<Rightarrow> 'm \<Rightarrow> ptr \<Rightarrow> 'a \<Rightarrow> 'w \<Rightarrow> 'r \<times> 'w" where
  [simp]: "const_method_stub prg method_ptr object_ptr args w = c_method prg method_ptr object_ptr args w"

section \<open>Blocks and delegates\<close>

text \<open>
  A block that a \<open>shared_ptr\<close> owns: the object in it, how many bytes it has, how many owners, and the
  type whose destructor the deleter runs (\<open>functor_deleter<T>\<close>, fixed when the block is allocated).
\<close>

record ('f, 'm, 't) block =
  b_object :: "('f, 'm) callable"
  b_capacity :: size_t
  b_owners :: nat
  b_deleter :: 't

record ('f, 'm, 't) heap =
  h_block :: "nat \<Rightarrow> ('f, 'm, 't) block option"
  h_next :: nat

datatype ('t, 'm, 'n) stub = Functor_stub 't | Function_stub 'n | Method_stub 'm | Const_method_stub 'm

record ('t, 'm, 'n) delegate =
  dg_object :: ptr
  dg_stub :: "('t, 'm, 'n) stub option"
  dg_deleter :: 't
  dg_store :: "nat option"
  dg_store_size :: size_t

text \<open>\<open>operator new\<close> and the construction of the object, with one owner.\<close>

definition new_block ::
  "('f, 'm, 'n, 't, 'a, 'w, 'r) program \<Rightarrow> ('f, 'm) callable \<Rightarrow> ('f, 'm, 't) heap \<Rightarrow> nat \<times> ('f, 'm, 't) heap" where
  "new_block prg f h =
    (let a = h_next h; t = c_type prg f
     in (a, h\<lparr>h_block := (h_block h)(a \<mapsto> \<lparr>b_object = f, b_capacity = c_size prg t, b_owners = 1, b_deleter = t\<rparr>),
              h_next := Suc a\<rparr>))"

text \<open>
  \<open>~T()\<close>, reached through \<open>functor_deleter<T>\<close> or \<open>deleter_stub<T>\<close>: undefined on an object of another type.
\<close>

definition destroy_object ::
  "('f, 'm, 'n, 't, 'a, 'w, 'r) program \<Rightarrow> 't \<Rightarrow> ('f, 'm) callable \<Rightarrow> exn + unit" where
  "destroy_object prg t f = (if c_type prg f = t then Inr () else Inl Undefined)"

text \<open>One owner less; the last one destroys the object and frees the block.\<close>

definition release ::
  "('f, 'm, 'n, 't, 'a, 'w, 'r) program \<Rightarrow> nat option \<Rightarrow> ('f, 'm, 't) heap \<Rightarrow> exn + ('f, 'm, 't) heap" where
  "release prg store h =
    (case store of
       None \<Rightarrow> Inr h
     | Some a \<Rightarrow>
         (case h_block h a of
            None \<Rightarrow> Inl Undefined
          | Some b \<Rightarrow>
              if b_owners b \<le> 1 then
                map_sum id (\<lambda>_. h\<lparr>h_block := (h_block h)(a := None)\<rparr>) (destroy_object prg (b_deleter b) (b_object b))
              else Inr (h\<lparr>h_block := (h_block h)(a \<mapsto> b\<lparr>b_owners := b_owners b - 1\<rparr>)\<rparr>)))"

definition retain :: "nat option \<Rightarrow> ('f, 'm, 't) heap \<Rightarrow> ('f, 'm, 't) heap" where
  "retain store h =
    (case store of
       None \<Rightarrow> h
     | Some a \<Rightarrow>
         h\<lparr>h_block := (h_block h)(a := map_option (\<lambda>b. b\<lparr>b_owners := Suc (b_owners b)\<rparr>) (h_block h a))\<rparr>)"

section \<open>Making and destroying delegates\<close>

text \<open>
  \<open>object_ptr_\<close>, \<open>deleter_\<close> and \<open>store_size_\<close> have no initializers: what a constructor leaves alone is
  what \<open>g\<close>, the memory before, had there.
\<close>

definition dg_default :: "('t, 'm, 'n) delegate \<Rightarrow> ('t, 'm, 'n) delegate" where
  "dg_default g = g\<lparr>dg_stub := None, dg_store := None\<rparr>"

definition dg_of_object :: "('t, 'm, 'n) delegate \<Rightarrow> nat \<Rightarrow> ('t, 'm, 'n) delegate" where
  "dg_of_object g obj = g\<lparr>dg_object := Outside obj, dg_stub := None, dg_store := None\<rparr>"

definition dg_bare :: "('t, 'm, 'n) delegate \<Rightarrow> ptr \<Rightarrow> ('t, 'm, 'n) stub \<Rightarrow> ('t, 'm, 'n) delegate" where
  "dg_bare g obj stub = g\<lparr>dg_object := obj, dg_stub := Some stub, dg_store := None\<rparr>"

definition dg_from_function :: "('t, 'm, 'n) delegate \<Rightarrow> 'n \<Rightarrow> ('t, 'm, 'n) delegate" where
  "dg_from_function g function_ptr = dg_bare g Nullptr (Function_stub function_ptr)"

definition dg_from_method :: "('t, 'm, 'n) delegate \<Rightarrow> ptr \<Rightarrow> 'm \<Rightarrow> ('t, 'm, 'n) delegate" where
  "dg_from_method g object_ptr method_ptr = dg_bare g object_ptr (Method_stub method_ptr)"

definition dg_from_const_method :: "('t, 'm, 'n) delegate \<Rightarrow> ptr \<Rightarrow> 'm \<Rightarrow> ('t, 'm, 'n) delegate" where
  "dg_from_const_method g object_ptr method_ptr = dg_bare g object_ptr (Const_method_stub method_ptr)"

definition dg_construct ::
  "('f, 'm, 'n, 't, 'a, 'w, 'r) program \<Rightarrow> ('f, 'm) callable \<Rightarrow> ('f, 'm, 't) heap \<Rightarrow>
   ('t, 'm, 'n) delegate \<times> ('f, 'm, 't) heap" where
  "dg_construct prg f h =
    (let (a, h) = new_block prg f h; t = c_type prg f
     in (\<lparr>dg_object = In_block a, dg_stub = Some (Functor_stub t), dg_deleter = t, dg_store = Some a,
          dg_store_size = c_size prg t\<rparr>, h))"

definition dg_from_pair ::
  "('f, 'm, 'n, 't, 'a, 'w, 'r) program \<Rightarrow> ptr \<Rightarrow> 'm \<Rightarrow> ('f, 'm, 't) heap \<Rightarrow> ('t, 'm, 'n) delegate \<times> ('f, 'm, 't) heap" where
  "dg_from_pair prg object_ptr method_ptr h = dg_construct prg (Member_pair object_ptr method_ptr) h"

definition dg_from_const_pair ::
  "('f, 'm, 'n, 't, 'a, 'w, 'r) program \<Rightarrow> ptr \<Rightarrow> 'm \<Rightarrow> ('f, 'm, 't) heap \<Rightarrow> ('t, 'm, 'n) delegate \<times> ('f, 'm, 't) heap" where
  "dg_from_const_pair prg object_ptr method_ptr h = dg_construct prg (Const_member_pair object_ptr method_ptr) h"

text \<open>The copy, the two moved-to and moved-from delegates, and the destructor are the compiler's.\<close>

definition dg_copy ::
  "('t, 'm, 'n) delegate \<Rightarrow> ('f, 'm, 't) heap \<Rightarrow> ('t, 'm, 'n) delegate \<times> ('f, 'm, 't) heap" where
  "dg_copy d h = (d, retain (dg_store d) h)"

definition dg_move :: "('t, 'm, 'n) delegate \<Rightarrow> ('t, 'm, 'n) delegate \<times> ('t, 'm, 'n) delegate" where
  "dg_move d = (d, d\<lparr>dg_store := None\<rparr>)"

definition dg_destroy ::
  "('f, 'm, 'n, 't, 'a, 'w, 'r) program \<Rightarrow> ('t, 'm, 'n) delegate \<Rightarrow> ('f, 'm, 't) heap \<Rightarrow> exn + ('f, 'm, 't) heap" where
  "dg_destroy prg d h = release prg (dg_store d) h"

section \<open>Assignment\<close>

definition dg_copy_assign ::
  "('f, 'm, 'n, 't, 'a, 'w, 'r) program \<Rightarrow> ('t, 'm, 'n) delegate \<Rightarrow> ('t, 'm, 'n) delegate \<Rightarrow> ('f, 'm, 't) heap \<Rightarrow>
   exn + ('t, 'm, 'n) delegate \<times> ('f, 'm, 't) heap" where
  "dg_copy_assign prg d rhs h = map_sum id (Pair rhs) (release prg (dg_store d) (retain (dg_store rhs) h))"

text \<open>The result is the target, what is left of the source, and the heap.\<close>

definition dg_move_assign ::
  "('f, 'm, 'n, 't, 'a, 'w, 'r) program \<Rightarrow> ('t, 'm, 'n) delegate \<Rightarrow> ('t, 'm, 'n) delegate \<Rightarrow> ('f, 'm, 't) heap \<Rightarrow>
   exn + ('t, 'm, 'n) delegate \<times> ('t, 'm, 'n) delegate \<times> ('f, 'm, 't) heap" where
  "dg_move_assign prg d rhs h =
    map_sum id (\<lambda>h. (rhs, rhs\<lparr>dg_store := None\<rparr>, h)) (release prg (dg_store d) h)"

definition store_unique :: "nat option \<Rightarrow> ('f, 'm, 't) heap \<Rightarrow> bool" where
  "store_unique store h \<longleftrightarrow>
    (case store of None \<Rightarrow> False
     | Some a \<Rightarrow> (case h_block h a of None \<Rightarrow> False | Some b \<Rightarrow> b_owners b = 1))"

text \<open>
  A functor is put into a new block, or, when the delegate is the only owner of a block that is large
  enough, into that one; the object in it is destroyed first, by \<open>deleter_\<close>.
\<close>

definition dg_assign ::
  "('f, 'm, 'n, 't, 'a, 'w, 'r) program \<Rightarrow> ('f, 'm) callable \<Rightarrow> ('t, 'm, 'n) delegate \<Rightarrow> ('f, 'm, 't) heap \<Rightarrow>
   exn + ('t, 'm, 'n) delegate \<times> ('f, 'm, 't) heap" where
  "dg_assign prg f d h =
    (let t = c_type prg f in
     if c_size prg t > dg_store_size d \<or> \<not> store_unique (dg_store d) h then
       (let (a, h1) = new_block prg f h
        in map_sum id
             (Pair (d\<lparr>dg_object := In_block a, dg_stub := Some (Functor_stub t), dg_deleter := t, dg_store := Some a,
                     dg_store_size := c_size prg t\<rparr>))
             (release prg (dg_store d) h1))
     else
       (let a = the (dg_store d); b = the (h_block h a)
        in map_sum id
             (\<lambda>_. (d\<lparr>dg_object := In_block a, dg_stub := Some (Functor_stub t), dg_deleter := t\<rparr>,
                   h\<lparr>h_block := (h_block h)(a \<mapsto> b\<lparr>b_object := f\<rparr>)\<rparr>))
             (destroy_object prg (dg_deleter d) (b_object b))))"

text \<open>\<open>d = method_ptr\<close>: the pair of the object pointer and the method, made apart and moved here.\<close>

definition dg_assign_pair ::
  "('f, 'm, 'n, 't, 'a, 'w, 'r) program \<Rightarrow> ('f, 'm) callable \<Rightarrow> ('t, 'm, 'n) delegate \<Rightarrow> ('f, 'm, 't) heap \<Rightarrow>
   exn + ('t, 'm, 'n) delegate \<times> ('f, 'm, 't) heap" where
  "dg_assign_pair prg pair d h =
    (let (tmp, h) = dg_construct prg pair h in
     case dg_move_assign prg d tmp h of
       Inl e \<Rightarrow> Inl e
     | Inr (d, tmp, h) \<Rightarrow> map_sum id (Pair d) (dg_destroy prg tmp h))"

definition dg_assign_method ::
  "('f, 'm, 'n, 't, 'a, 'w, 'r) program \<Rightarrow> 'm \<Rightarrow> ('t, 'm, 'n) delegate \<Rightarrow> ('f, 'm, 't) heap \<Rightarrow>
   exn + ('t, 'm, 'n) delegate \<times> ('f, 'm, 't) heap" where
  "dg_assign_method prg rhs d h = dg_assign_pair prg (Member_pair (dg_object d) rhs) d h"

definition dg_assign_const_method ::
  "('f, 'm, 'n, 't, 'a, 'w, 'r) program \<Rightarrow> 'm \<Rightarrow> ('t, 'm, 'n) delegate \<Rightarrow> ('f, 'm, 't) heap \<Rightarrow>
   exn + ('t, 'm, 'n) delegate \<times> ('f, 'm, 't) heap" where
  "dg_assign_const_method prg rhs d h = dg_assign_pair prg (Const_member_pair (dg_object d) rhs) d h"

definition dg_reset ::
  "('f, 'm, 'n, 't, 'a, 'w, 'r) program \<Rightarrow> ('t, 'm, 'n) delegate \<Rightarrow> ('f, 'm, 't) heap \<Rightarrow>
   exn + ('t, 'm, 'n) delegate \<times> ('f, 'm, 't) heap" where
  "dg_reset prg d h = map_sum id (Pair (d\<lparr>dg_stub := None, dg_store := None\<rparr>)) (release prg (dg_store d) h)"

definition dg_reset_stub :: "('t, 'm, 'n) delegate \<Rightarrow> ('t, 'm, 'n) delegate" where
  "dg_reset_stub d = d\<lparr>dg_stub := None\<rparr>"

definition dg_swap ::
  "('f, 'm, 'n, 't, 'a, 'w, 'r) program \<Rightarrow> ('t, 'm, 'n) delegate \<Rightarrow> ('t, 'm, 'n) delegate \<Rightarrow> ('f, 'm, 't) heap \<Rightarrow>
   exn + ('t, 'm, 'n) delegate \<times> ('t, 'm, 'n) delegate \<times> ('f, 'm, 't) heap" where
  "dg_swap prg d other h =
    (let (tmp, d) = dg_move d in
     case dg_move_assign prg d other h of
       Inl e \<Rightarrow> Inl e
     | Inr (d, other, h) \<Rightarrow>
         (case dg_move_assign prg other tmp h of
            Inl e \<Rightarrow> Inl e
          | Inr (other, tmp, h) \<Rightarrow> map_sum id (\<lambda>h. (d, other, h)) (dg_destroy prg tmp h)))"

section \<open>Comparing and calling\<close>

definition dg_equal :: "('t, 'm, 'n) delegate \<Rightarrow> ('t, 'm, 'n) delegate \<Rightarrow> bool" where
  "dg_equal d rhs \<longleftrightarrow> dg_object d = dg_object rhs \<and> dg_stub d = dg_stub rhs"

definition dg_not_equal :: "('t, 'm, 'n) delegate \<Rightarrow> ('t, 'm, 'n) delegate \<Rightarrow> bool" where
  "dg_not_equal d rhs \<longleftrightarrow> \<not> dg_equal d rhs"

definition dg_less ::
  "(ptr \<Rightarrow> ptr \<Rightarrow> bool) \<Rightarrow> (('t, 'm, 'n) stub option \<Rightarrow> ('t, 'm, 'n) stub option \<Rightarrow> bool) \<Rightarrow>
   ('t, 'm, 'n) delegate \<Rightarrow> ('t, 'm, 'n) delegate \<Rightarrow> bool" where
  "dg_less lt_ptr lt_stub d rhs \<longleftrightarrow>
    lt_ptr (dg_object d) (dg_object rhs) \<or>
    (dg_object d = dg_object rhs \<and> lt_stub (dg_stub d) (dg_stub rhs))"

definition dg_is_null :: "('t, 'm, 'n) delegate \<Rightarrow> bool" where
  "dg_is_null d \<longleftrightarrow> dg_stub d = None"

definition dg_bool :: "('t, 'm, 'n) delegate \<Rightarrow> bool" where
  "dg_bool d \<longleftrightarrow> dg_stub d \<noteq> None"

definition dg_hash ::
  "(ptr \<Rightarrow> u64) \<Rightarrow> (('t, 'm, 'n) stub option \<Rightarrow> u64) \<Rightarrow> ('t, 'm, 'n) delegate \<Rightarrow> u64" where
  "dg_hash hash_ptr hash_stub d =
    (let seed = hash_ptr (dg_object d)
     in hash_stub (dg_stub d) + 0x9e3779b9 + push_bit 6 seed + drop_bit 2 seed)"

definition dg_call ::
  "('f, 'm, 'n, 't, 'a, 'w, 'r) program \<Rightarrow> ('t, 'm, 'n) delegate \<Rightarrow> 'a \<Rightarrow> ('f, 'm, 't) heap \<Rightarrow> 'w \<Rightarrow>
   exn + 'r \<times> ('f, 'm, 't) heap \<times> 'w" where
  "dg_call prg d args h w =
    (case dg_stub d of
       None \<Rightarrow> Inl (Runtime_error ''Uninitialized delegate called'')
     | Some (Function_stub function_ptr) \<Rightarrow>
         (let (r, w) = function_stub prg function_ptr (dg_object d) args w in Inr (r, h, w))
     | Some (Method_stub method_ptr) \<Rightarrow>
         (let (r, w) = method_stub prg method_ptr (dg_object d) args w in Inr (r, h, w))
     | Some (Const_method_stub method_ptr) \<Rightarrow>
         (let (r, w) = const_method_stub prg method_ptr (dg_object d) args w in Inr (r, h, w))
     | Some (Functor_stub t) \<Rightarrow>
         (case dg_object d of
            In_block a \<Rightarrow>
              (case h_block h a of
                 None \<Rightarrow> Inl Undefined
               | Some b \<Rightarrow>
                   if c_type prg (b_object b) = t then
                     let (r, f, w) = functor_stub prg (b_object b) args w
                     in Inr (r, h\<lparr>h_block := (h_block h)(a \<mapsto> b\<lparr>b_object := f\<rparr>)\<rparr>, w)
                   else Inl Undefined)
          | _ \<Rightarrow> Inl Undefined))"


section \<open>Runs of operations on delegates\<close>

text \<open>
  A state is the heap and the delegates that exist. A step is one operation on any of them; it leads to
  a state or to undefined behaviour. A block is reused for an object of the type it held.
\<close>

type_synonym ('f, 'm, 'n, 't) dstate = "('f, 'm, 't) heap \<times> ('t, 'm, 'n) delegate multiset"

definition reuse_ok ::
  "('f, 'm, 'n, 't, 'a, 'w, 'r) program \<Rightarrow> ('f, 'm) callable \<Rightarrow> ('t, 'm, 'n) delegate \<Rightarrow> ('f, 'm, 't) heap \<Rightarrow> bool" where
  "reuse_ok prg f d h \<longleftrightarrow>
    c_size prg (c_type prg f) > dg_store_size d \<or> \<not> store_unique (dg_store d) h \<or> c_type prg f = dg_deleter d"

inductive dstep ::
  "('f, 'm, 'n, 't, 'a, 'w, 'r) program \<Rightarrow> ('f, 'm, 'n, 't) dstate \<Rightarrow> exn + ('f, 'm, 'n, 't) dstate \<Rightarrow> bool"
  for prg where
  default: "dstep prg (h, M) (Inr (h, add_mset (dg_default g) M))"
| of_object: "dstep prg (h, M) (Inr (h, add_mset (dg_of_object g obj) M))"
| from_function: "dstep prg (h, M) (Inr (h, add_mset (dg_from_function g fn) M))"
| from_method: "dstep prg (h, M) (Inr (h, add_mset (dg_from_method g obj m) M))"
| from_const_method: "dstep prg (h, M) (Inr (h, add_mset (dg_from_const_method g obj m) M))"
| construct: "dg_construct prg f h = (d, h') \<Longrightarrow> dstep prg (h, M) (Inr (h', add_mset d M))"
| copy: "dg_copy d h = (d', h') \<Longrightarrow> dstep prg (h, add_mset d M) (Inr (h', add_mset d' (add_mset d M)))"
| move: "dg_move d = (d', d0) \<Longrightarrow> dstep prg (h, add_mset d M) (Inr (h, add_mset d' (add_mset d0 M)))"
| destroy: "dstep prg (h, add_mset d M) (map_sum id (\<lambda>h'. (h', M)) (dg_destroy prg d h))"
| copy_assign: "dstep prg (h, add_mset d (add_mset rhs M))
    (map_sum id (\<lambda>(d', h'). (h', add_mset d' (add_mset rhs M))) (dg_copy_assign prg d rhs h))"
| move_assign: "dstep prg (h, add_mset d (add_mset rhs M))
    (map_sum id (\<lambda>(d', rhs', h'). (h', add_mset d' (add_mset rhs' M))) (dg_move_assign prg d rhs h))"
| assign: "reuse_ok prg f d h \<Longrightarrow>
    dstep prg (h, add_mset d M) (map_sum id (\<lambda>(d', h'). (h', add_mset d' M)) (dg_assign prg f d h))"
| assign_pair: "dstep prg (h, add_mset d M) (map_sum id (\<lambda>(d', h'). (h', add_mset d' M)) (dg_assign_pair prg pair d h))"
| swap: "dstep prg (h, add_mset d (add_mset other M))
    (map_sum id (\<lambda>(d', other', h'). (h', add_mset d' (add_mset other' M))) (dg_swap prg d other h))"
| reset: "dstep prg (h, add_mset d M) (map_sum id (\<lambda>(d', h'). (h', add_mset d' M)) (dg_reset prg d h))"
| reset_stub: "dstep prg (h, add_mset d M) (Inr (h, add_mset (dg_reset_stub d) M))"
| call: "dg_call prg d args h w = Inr (r, h', w') \<Longrightarrow> dstep prg (h, add_mset d M) (Inr (h', add_mset d M))"

inductive reachable :: "('f, 'm, 'n, 't, 'a, 'w, 'r) program \<Rightarrow> ('f, 'm, 'n, 't) dstate \<Rightarrow> bool" for prg where
  start: "reachable prg (\<lparr>h_block = \<lambda>a. None, h_next = 0\<rparr>, {#})"
| step: "reachable prg s \<Longrightarrow> dstep prg s (Inr s') \<Longrightarrow> reachable prg s'"

section \<open>The invariant\<close>

definition owners :: "nat \<Rightarrow> ('t, 'm, 'n) delegate multiset \<Rightarrow> nat" where
  "owners a M = size (filter_mset (\<lambda>d. dg_store d = Some a) M)"

definition block_ok ::
  "('f, 'm, 'n, 't, 'a, 'w, 'r) program \<Rightarrow> nat \<Rightarrow> ('f, 'm, 't) block option \<Rightarrow> bool" where
  "block_ok prg n block \<longleftrightarrow>
    (case block of
       None \<Rightarrow> n = 0
     | Some b \<Rightarrow> 0 < b_owners b \<and> b_owners b = n \<and> b_deleter b = c_type prg (b_object b))"

definition blocks_ok ::
  "('f, 'm, 'n, 't, 'a, 'w, 'r) program \<Rightarrow> ('f, 'm, 't) heap \<Rightarrow> ('t, 'm, 'n) delegate multiset \<Rightarrow> bool" where
  "blocks_ok prg h M \<longleftrightarrow> (\<forall>a. block_ok prg (owners a M) (h_block h a))"

definition delegate_ok ::
  "('f, 'm, 'n, 't, 'a, 'w, 'r) program \<Rightarrow> ('f, 'm, 't) heap \<Rightarrow> ('t, 'm, 'n) delegate \<Rightarrow> bool" where
  "delegate_ok prg h d \<longleftrightarrow>
    (\<forall>a b. dg_store d = Some a \<longrightarrow> h_block h a = Some b \<longrightarrow>
       dg_object d = In_block a \<and> dg_deleter d = c_type prg (b_object b) \<and>
       (dg_stub d = None \<or> dg_stub d = Some (Functor_stub (c_type prg (b_object b)))))"

definition delegates_inv ::
  "('f, 'm, 'n, 't, 'a, 'w, 'r) program \<Rightarrow> ('f, 'm, 't) heap \<Rightarrow> ('t, 'm, 'n) delegate multiset \<Rightarrow> bool" where
  "delegates_inv prg h M \<longleftrightarrow>
    blocks_ok prg h M \<and> (\<forall>d \<in># M. delegate_ok prg h d) \<and> (\<forall>a b. h_block h a = Some b \<longrightarrow> a < h_next h)"

text \<open>Calling an object does not change its type.\<close>

definition keeps_types :: "('f, 'm, 'n, 't, 'a, 'w, 'r) program \<Rightarrow> bool" where
  "keeps_types prg \<longleftrightarrow>
    (\<forall>f args w. c_type prg (Class_object (fst (snd (c_call prg f args w)))) = c_type prg (Class_object f))"

lemma owners_simps [simp]:
  "owners a {#} = 0"
  "owners a (add_mset d M) = (if dg_store d = Some a then Suc (owners a M) else owners a M)"
  by (simp_all add: owners_def)

lemma blocks_none: "blocks_ok prg h M \<Longrightarrow> h_block h a = None \<Longrightarrow> owners a M = 0"
  by (drule blocks_ok_def [THEN iffD1, THEN spec [of _ a]]) (simp add: block_ok_def)

lemma blocks_some: "blocks_ok prg h M \<Longrightarrow> h_block h a = Some b \<Longrightarrow>
    0 < b_owners b \<and> b_owners b = owners a M \<and> b_deleter b = c_type prg (b_object b)"
  by (drule blocks_ok_def [THEN iffD1, THEN spec [of _ a]]) (simp add: block_ok_def)

text \<open>An operation changes one block.\<close>

lemma blocks_frame:
  assumes "blocks_ok prg h M" "\<And>a'. a' \<noteq> a \<Longrightarrow> h_block h' a' = h_block h a' \<and> owners a' M' = owners a' M"
    "block_ok prg (owners a M') (h_block h' a)"
  shows "blocks_ok prg h' M'"
  unfolding blocks_ok_def
proof
  fix a'
  show "block_ok prg (owners a' M') (h_block h' a')"
    using assms by (cases "a' = a") (simp_all add: blocks_ok_def)
qed

lemma invE:
  assumes "delegates_inv prg h M" "d \<in># M" "dg_store d = Some a"
  obtains b where "h_block h a = Some b" "0 < b_owners b" "b_owners b = owners a M"
    "b_deleter b = c_type prg (b_object b)" "dg_object d = In_block a" "dg_deleter d = c_type prg (b_object b)"
    "dg_stub d = None \<or> dg_stub d = Some (Functor_stub (c_type prg (b_object b)))"
proof -
  have "d \<in># filter_mset (\<lambda>d. dg_store d = Some a) M" using assms(2,3) by simp
  then have "owners a M \<noteq> 0" unfolding owners_def by auto
  then obtain b where b: "h_block h a = Some b" "0 < b_owners b" "b_owners b = owners a M"
      "b_deleter b = c_type prg (b_object b)"
    using assms(1) blocks_none [of prg h M a] blocks_some [of prg h M a] unfolding delegates_inv_def
    by (cases "h_block h a") auto
  moreover have "delegate_ok prg h d" using assms(1,2) by (simp add: delegates_inv_def)
  ultimately show ?thesis using that assms(3) unfolding delegate_ok_def by blast
qed

lemma inv_no_store:
  assumes "dg_store d = None"
  shows "delegates_inv prg h (add_mset d M) \<longleftrightarrow> delegates_inv prg h M"
  using assms by (simp add: delegates_inv_def blocks_ok_def delegate_ok_def)

lemma new_block_inv:
  assumes "delegates_inv prg h M" "dg_construct prg f h = (d, h')"
  shows "delegates_inv prg h' (add_mset d M)"
proof -
  let ?a = "h_next h" and ?t = "c_type prg f"
  have d: "d = \<lparr>dg_object = In_block ?a, dg_stub = Some (Functor_stub ?t), dg_deleter = ?t, dg_store = Some ?a,
      dg_store_size = c_size prg ?t\<rparr>"
    and h': "h' = h\<lparr>h_block := (h_block h)(?a \<mapsto> \<lparr>b_object = f, b_capacity = c_size prg ?t, b_owners = 1, b_deleter = ?t\<rparr>),
      h_next := Suc ?a\<rparr>"
    using assms(2) by (simp_all add: dg_construct_def new_block_def Let_def)
  have blocks: "blocks_ok prg h M" using assms(1) by (simp add: delegates_inv_def)
  have fresh: "h_block h ?a = None" using assms(1) by (fastforce simp: delegates_inv_def)
  then have none: "owners ?a M = 0"
    using assms(1) blocks_none unfolding delegates_inv_def by blast
  then have "\<forall>d \<in># M. dg_store d \<noteq> Some ?a" by (auto simp: owners_def)
  moreover have "blocks_ok prg h' (add_mset d M)"
    by (rule blocks_frame [OF blocks, of ?a]) (simp_all add: d h' block_ok_def none)
  ultimately show ?thesis
    using assms(1) unfolding delegates_inv_def by (auto simp: delegate_ok_def d h' less_SucI)
qed

lemma release_inv:
  assumes "delegates_inv prg h (add_mset d M)"
  obtains h' where "release prg (dg_store d) h = Inr h'" "delegates_inv prg h' M"
proof (cases "dg_store d")
  case None
  with assms that show ?thesis by (simp add: inv_no_store release_def)
next
  case (Some a)
  from invE [OF assms _ Some] obtain b where b: "h_block h a = Some b" "b_owners b = owners a (add_mset d M)"
    "b_deleter b = c_type prg (b_object b)" by auto
  have num: "b_owners b = Suc (owners a M)" using b(2) Some by simp
  have blocks: "blocks_ok prg h (add_mset d M)" and oks: "\<forall>d \<in># M. delegate_ok prg h d"
    and next_ok: "\<forall>a b. h_block h a = Some b \<longrightarrow> a < h_next h"
    using assms by (simp_all add: delegates_inv_def)
  show ?thesis
  proof (cases "owners a M = 0")
    case True
    let ?h = "h\<lparr>h_block := (h_block h)(a := None)\<rparr>"
    have "release prg (dg_store d) h = Inr ?h"
      using Some b num True by (simp add: release_def destroy_object_def)
    moreover have "blocks_ok prg ?h M"
      by (rule blocks_frame [OF blocks, of a]) (use True Some in \<open>auto simp: block_ok_def\<close>)
    then have "delegates_inv prg ?h M" using oks next_ok by (auto simp: delegates_inv_def delegate_ok_def)
    ultimately show ?thesis by (rule that)
  next
    case False
    let ?h = "h\<lparr>h_block := (h_block h)(a \<mapsto> b\<lparr>b_owners := b_owners b - 1\<rparr>)\<rparr>"
    have "release prg (dg_store d) h = Inr ?h"
      using Some b num False by (simp add: release_def)
    moreover have "blocks_ok prg ?h M"
      by (rule blocks_frame [OF blocks, of a]) (use False Some b num in \<open>auto simp: block_ok_def\<close>)
    then have "delegates_inv prg ?h M" using oks next_ok b(1) by (auto simp: delegates_inv_def delegate_ok_def)
    ultimately show ?thesis by (rule that)
  qed
qed

lemma retain_inv:
  assumes "delegates_inv prg h (add_mset d M)"
  shows "delegates_inv prg (retain (dg_store d) h) (add_mset d (add_mset d M))"
proof (cases "dg_store d")
  case None
  with assms show ?thesis by (simp add: inv_no_store retain_def)
next
  case (Some a)
  from invE [OF assms _ Some] obtain b where b: "h_block h a = Some b" "b_owners b = owners a (add_mset d M)" by auto
  have blocks: "blocks_ok prg h (add_mset d M)" and oks: "\<forall>d \<in># add_mset d M. delegate_ok prg h d"
    and next_ok: "\<forall>a b. h_block h a = Some b \<longrightarrow> a < h_next h"
    using assms by (simp_all add: delegates_inv_def)
  let ?h = "h\<lparr>h_block := (h_block h)(a \<mapsto> b\<lparr>b_owners := Suc (b_owners b)\<rparr>)\<rparr>"
  have "retain (dg_store d) h = ?h" using Some b by (simp add: retain_def)
  moreover have "blocks_ok prg ?h (add_mset d (add_mset d M))"
    by (rule blocks_frame [OF blocks, of a]) (use blocks_some [OF blocks b(1)] Some b in \<open>auto simp: block_ok_def\<close>)
  then have "delegates_inv prg ?h (add_mset d (add_mset d M))"
    using oks next_ok b(1) by (auto simp: delegates_inv_def delegate_ok_def)
  ultimately show ?thesis by simp
qed

text \<open>A block whose object is replaced by one of the same type.\<close>

lemma object_inv:
  assumes "delegates_inv prg h M" "h_block h a = Some b" "c_type prg f = c_type prg (b_object b)"
  shows "delegates_inv prg (h\<lparr>h_block := (h_block h)(a \<mapsto> b\<lparr>b_object := f\<rparr>)\<rparr>) M"
proof -
  have blocks: "blocks_ok prg h M" using assms(1) by (simp add: delegates_inv_def)
  have "blocks_ok prg (h\<lparr>h_block := (h_block h)(a \<mapsto> b\<lparr>b_object := f\<rparr>)\<rparr>) M"
    by (rule blocks_frame [OF blocks, of a])
      (use blocks_some [OF blocks assms(2)] assms(3) in \<open>simp_all add: block_ok_def\<close>)
  then show ?thesis using assms by (auto simp: delegates_inv_def delegate_ok_def)
qed

lemma inv_replace:
  assumes "delegates_inv prg h (add_mset d M)" "dg_store d' = dg_store d" "delegate_ok prg h d'"
  shows "delegates_inv prg h (add_mset d' M)"
  using assms by (simp add: delegates_inv_def blocks_ok_def)

lemma inv_commute: "delegates_inv prg h (add_mset d (add_mset d' M)) \<Longrightarrow> delegates_inv prg h (add_mset d' (add_mset d M))"
  by (simp add: add_mset_commute)

lemma assign_inv:
  assumes inv: "delegates_inv prg h (add_mset d M)" and ok: "reuse_ok prg f d h"
  obtains d' h' where "dg_assign prg f d h = Inr (d', h')" "delegates_inv prg h' (add_mset d' M)"
proof (cases "c_size prg (c_type prg f) > dg_store_size d \<or> \<not> store_unique (dg_store d) h")
  case True
  obtain a h1 where n: "new_block prg f h = (a, h1)" by (metis prod.collapse)
  let ?d = "d\<lparr>dg_object := In_block a, dg_stub := Some (Functor_stub (c_type prg f)), dg_deleter := c_type prg f,
    dg_store := Some a, dg_store_size := c_size prg (c_type prg f)\<rparr>"
  have "dg_construct prg f h = (?d, h1)" using n by (cases d) (simp add: dg_construct_def Let_def)
  from inv_commute [OF new_block_inv [OF inv this]] have "delegates_inv prg h1 (add_mset d (add_mset ?d M))" .
  from release_inv [OF this] obtain h' where
    "release prg (dg_store d) h1 = Inr h'" "delegates_inv prg h' (add_mset ?d M)" .
  moreover from this(1) True n have "dg_assign prg f d h = Inr (?d, h')" by (simp add: dg_assign_def Let_def)
  ultimately show ?thesis using that by blast
next
  case False
  then obtain a b where s: "dg_store d = Some a" "h_block h a = Some b"
    by (auto simp: store_unique_def split: option.splits)
  have same: "c_type prg f = dg_deleter d" using ok False by (auto simp: reuse_ok_def)
  have b: "dg_deleter d = c_type prg (b_object b)"
    using inv s by (auto simp: delegates_inv_def delegate_ok_def)
  let ?d = "d\<lparr>dg_object := In_block a, dg_stub := Some (Functor_stub (c_type prg f)), dg_deleter := c_type prg f\<rparr>"
  let ?h = "h\<lparr>h_block := (h_block h)(a \<mapsto> b\<lparr>b_object := f\<rparr>)\<rparr>"
  have "dg_assign prg f d h = Inr (?d, ?h)"
    using False s b by (simp add: dg_assign_def destroy_object_def Let_def)
  moreover have "delegates_inv prg ?h (add_mset d M)"
    using same b by (intro object_inv [OF inv s(2)]) simp
  then have "delegates_inv prg ?h (add_mset ?d M)"
    by (rule inv_replace) (simp_all add: delegate_ok_def s)
  ultimately show ?thesis by (rule that)
qed

lemma call_inv:
  assumes keeps: "keeps_types prg" and inv: "delegates_inv prg h M"
    and call: "dg_call prg d args h w = Inr (r, h', w')"
  shows "delegates_inv prg h' M"
proof (cases "h' = h")
  case False
  have type_kept: "c_type prg (fst (snd (functor_stub prg f args w))) = c_type prg f" for f
  proof (cases f)
    case (Class_object x)
    then show ?thesis using keeps by (simp add: keeps_types_def Let_def split: prod.split) (metis fst_conv snd_conv)
  qed (simp_all split: prod.split)
  from call False obtain a b where "h_block h a = Some b"
      "h' = h\<lparr>h_block := (h_block h)(a \<mapsto> b\<lparr>b_object := fst (snd (functor_stub prg (b_object b) args w))\<rparr>)\<rparr>"
    by (auto simp: dg_call_def Let_def split: option.splits stub.splits ptr.splits if_splits prod.splits)
  with object_inv [OF inv] type_kept show ?thesis by simp
qed (use inv in simp)

lemma assign_pair_inv:
  assumes inv: "delegates_inv prg h (add_mset d M)"
  obtains d' h' where "dg_assign_pair prg pair d h = Inr (d', h')" "delegates_inv prg h' (add_mset d' M)"
proof -
  obtain tmp h1 where c: "dg_construct prg pair h = (tmp, h1)" by (metis prod.collapse)
  from release_inv [OF inv_commute [OF new_block_inv [OF inv c]]] obtain h' where
    "release prg (dg_store d) h1 = Inr h'" "delegates_inv prg h' (add_mset tmp M)" .
  with c that show ?thesis
    by (auto simp: dg_assign_pair_def dg_move_assign_def dg_destroy_def release_def [of _ None])
qed

lemma inv_results:
  "delegates_inv prg h (add_mset d M) \<Longrightarrow> \<exists>h'. release prg (dg_store d) h = Inr h' \<and> delegates_inv prg h' M"
  "delegates_inv prg h (add_mset d M) \<Longrightarrow> reuse_ok prg f d h \<Longrightarrow>
    \<exists>d' h'. dg_assign prg f d h = Inr (d', h') \<and> delegates_inv prg h' (add_mset d' M)"
  "delegates_inv prg h (add_mset d M) \<Longrightarrow>
    \<exists>d' h'. dg_assign_pair prg pair d h = Inr (d', h') \<and> delegates_inv prg h' (add_mset d' M)"
  by (metis release_inv, metis assign_inv, metis assign_pair_inv)

text \<open>Swapping moves three times.\<close>

lemma dg_swap_swaps: "dg_swap prg d other h = Inr (other, d, h)"
  by (simp add: dg_swap_def dg_move_def dg_move_assign_def dg_destroy_def release_def)

text \<open>No step is undefined, and each keeps the invariant.\<close>

lemma dstep_inv:
  assumes "keeps_types prg" "dstep prg s res" "delegates_inv prg (fst s) (snd s)"
  shows "\<exists>h M. res = Inr (h, M) \<and> delegates_inv prg h M"
  using assms(2,3)
proof (cases rule: dstep.cases)
  case (construct f h d h' M)
  then show ?thesis using new_block_inv assms(3) by auto
next
  case (copy d h d' h' M)
  then show ?thesis using retain_inv [of prg h d M] assms(3) by (auto simp: dg_copy_def)
next
  case (move d d' d0 h M)
  then show ?thesis using inv_no_store [of d0 prg h "add_mset d M"] assms(3)
    by (auto simp: dg_move_def inv_commute)
next
  case (destroy h d M)
  then show ?thesis using inv_results(1) [of prg h d M] assms(3) by (auto simp: dg_destroy_def)
next
  case (copy_assign h d rhs M)
  with assms(3) have "delegates_inv prg h (add_mset rhs (add_mset d M))" by (simp add: inv_commute)
  from retain_inv [OF this] have "delegates_inv prg (retain (dg_store rhs) h) (add_mset d (add_mset rhs (add_mset rhs M)))"
    by (simp add: add_mset_commute)
  from inv_results(1) [OF this] copy_assign show ?thesis by (auto simp: dg_copy_assign_def)
next
  case (move_assign h d rhs M)
  with assms(3) have "delegates_inv prg h (add_mset d (add_mset rhs M))" by simp
  from release_inv [OF this] obtain h' where h': "release prg (dg_store d) h = Inr h'" "delegates_inv prg h' (add_mset rhs M)" .
  then have "delegates_inv prg h' (add_mset rhs (add_mset (rhs\<lparr>dg_store := None\<rparr>) M))"
    using inv_no_store [of "rhs\<lparr>dg_store := None\<rparr>" prg h' "add_mset rhs M"] by (simp add: add_mset_commute)
  with h'(1) move_assign show ?thesis by (simp add: dg_move_assign_def)
next
  case (assign f d h M)
  with assms(3) have "delegates_inv prg h (add_mset d M)" by simp
  from inv_results(2) [OF this assign(3)] assign show ?thesis by auto
next
  case (assign_pair h d M pair)
  with assms(3) have "delegates_inv prg h (add_mset d M)" by simp
  from inv_results(3) [OF this, of pair] assign_pair show ?thesis by auto
next
  case (swap h d other M)
  with assms(3) show ?thesis by (simp add: dg_swap_swaps add_mset_commute)
next
  case (reset h d M)
  with assms(3) have "delegates_inv prg h (add_mset d M)" by simp
  from inv_results(1) [OF this] reset show ?thesis by (auto simp: dg_reset_def inv_no_store)
next
  case (reset_stub h d M)
  with assms(3) have i: "delegates_inv prg h (add_mset d M)" by simp
  then have "delegate_ok prg h d" by (simp add: delegates_inv_def)
  then have "delegate_ok prg h (dg_reset_stub d)" by (simp add: delegate_ok_def dg_reset_stub_def)
  with inv_replace [OF i] reset_stub show ?thesis by (simp add: dg_reset_stub_def)
next
  case (call d args h w r h' w' M)
  then show ?thesis using call_inv [OF assms(1)] assms(3) by auto
qed (use assms(3) in \<open>simp_all add: inv_no_store dg_default_def dg_of_object_def dg_from_function_def
  dg_from_method_def dg_from_const_method_def dg_bare_def\<close>)

lemma reachable_inv:
  assumes "reachable prg s" "keeps_types prg"
  shows "delegates_inv prg (fst s) (snd s)"
  using assms(1)
proof induction
  case start
  show ?case by (simp add: delegates_inv_def blocks_ok_def block_ok_def)
next
  case (step s s')
  from dstep_inv [OF assms(2) step.hyps(2) step.IH] show ?case by auto
qed

section \<open>Properties\<close>

text \<open>Objects of numbered types; calling one adds the argument to its value and counts the call.\<close>

definition demo_program :: "(nat \<times> nat, nat, nat, nat, nat, nat, nat) program" where
  "demo_program =
    \<lparr>c_type = (\<lambda>f. case f of Class_object x \<Rightarrow> fst x | _ \<Rightarrow> 9),
     c_size = (\<lambda>t. 16),
     c_call = (\<lambda>f args w. (snd f + args, (fst f, snd f + args), Suc w)),
     c_method = (\<lambda>m obj args w. (m + args, Suc w)),
     c_function = (\<lambda>fn args w. (fn + args, Suc w))\<rparr>"

lemma demo_keeps_types: "keeps_types demo_program"
  by (simp add: keeps_types_def demo_program_def)

definition demo_heap :: "(nat \<times> nat, nat, nat) heap" where
  "demo_heap = \<lparr>h_block = (\<lambda>a. None)(0 \<mapsto> \<lparr>b_object = Class_object (1, 5), b_capacity = 16, b_owners = 1, b_deleter = 1\<rparr>),
    h_next = 1\<rparr>"

definition demo_delegate :: "(nat, nat, nat) delegate" where
  "demo_delegate = \<lparr>dg_object = In_block 0, dg_stub = Some (Functor_stub 1), dg_deleter = 1, dg_store = Some 0,
    dg_store_size = 16\<rparr>"

lemma demo_construct:
  "dg_construct demo_program (Class_object (1, 5)) \<lparr>h_block = \<lambda>a. None, h_next = 0\<rparr> = (demo_delegate, demo_heap)"
  by (simp add: dg_construct_def new_block_def demo_program_def demo_delegate_def demo_heap_def Let_def)

lemma demo_reachable: "reachable demo_program (demo_heap, {#demo_delegate#})"
  by (rule reachable.step [OF reachable.start dstep.construct [OF demo_construct]])

text \<open>C19: Whatever is done with delegates, in whatever order, as long as a block is only reused for an
  object of the type it held, nothing undefined happens to the blocks they share: every block has as many owners as there are delegates that hold it, it is freed when the last
  of them goes, and its deleter is the one for the type of the object in it.\<close>

theorem delegates_safe:
  assumes "keeps_types prg" "reachable prg (h, M)" "dstep prg (h, M) res"
  shows "\<exists>h' M'. res = Inr (h', M') \<and>
    (\<forall>a. case h_block h' a of
           None \<Rightarrow> owners a M' = 0
         | Some b \<Rightarrow> 0 < b_owners b \<and> b_owners b = owners a M' \<and> b_deleter b = c_type prg (b_object b))"
  using dstep_inv [OF assms(1,3)] reachable_inv [OF assms(2,1)]
  by (simp add: delegates_inv_def blocks_ok_def block_ok_def) blast

theorem delegates_safe_witness:
  "\<exists>h' M'. map_sum id (\<lambda>h'. (h', {#} :: (nat, nat, nat) delegate multiset)) (dg_destroy demo_program demo_delegate demo_heap) = Inr (h', M') \<and>
    (\<forall>a. case h_block h' a of
           None \<Rightarrow> owners a M' = 0
         | Some b \<Rightarrow> 0 < b_owners b \<and> b_owners b = owners a M' \<and> b_deleter b = c_type demo_program (b_object b))"
  by (rule delegates_safe [OF demo_keeps_types demo_reachable dstep.destroy])



text \<open>A block that is reused keeps the deleter of the object it was made for: when a functor of another
  type is put into the block of a delegate, the last owner destroys it as an object of the old type.\<close>

theorem reused_block_wrong_destructor:
  assumes "c_type prg f \<noteq> c_type prg f0" "c_size prg (c_type prg f) \<le> c_size prg (c_type prg f0)"
    "dg_construct prg f0 h = (d, h1)"
  shows "\<exists>d' h2. dg_assign prg f d h1 = Inr (d', h2) \<and> dg_destroy prg d' h2 = Inl Undefined"
proof -
  let ?a = "h_next h" and ?t = "c_type prg f0"
  have d: "d = \<lparr>dg_object = In_block ?a, dg_stub = Some (Functor_stub ?t), dg_deleter = ?t, dg_store = Some ?a,
      dg_store_size = c_size prg ?t\<rparr>"
    and h1: "h1 = h\<lparr>h_block := (h_block h)(?a \<mapsto> \<lparr>b_object = f0, b_capacity = c_size prg ?t, b_owners = 1, b_deleter = ?t\<rparr>),
      h_next := Suc ?a\<rparr>"
    using assms(3) by (simp_all add: dg_construct_def new_block_def Let_def)
  show ?thesis
    using assms(1,2) unfolding d h1
    by (simp add: dg_assign_def store_unique_def destroy_object_def dg_destroy_def release_def Let_def)
qed

theorem reused_block_wrong_destructor_witness:
  "\<exists>d' h2. dg_assign demo_program (Class_object (2, 5)) demo_delegate demo_heap = Inr (d', h2) \<and>
    dg_destroy demo_program d' h2 = Inl Undefined"
  by (rule reused_block_wrong_destructor [OF _ _ demo_construct]) (simp_all add: demo_program_def)

section \<open>Comparing, swapping and moving\<close>

lemma equal_hash: "dg_equal d rhs \<Longrightarrow> dg_hash hash_ptr hash_stub d = dg_hash hash_ptr hash_stub rhs"
  by (simp add: dg_equal_def dg_hash_def)

text \<open>A delegate that was moved from still has its stub: it is not null, and calling it after the one it
  was moved to is gone reads the freed block.\<close>

lemma moved_from_dangles:
  "let (d', d0) = dg_move demo_delegate
   in \<not> dg_is_null d0 \<and>
      (\<exists>h'. dg_destroy demo_program d' demo_heap = Inr h' \<and> dg_call demo_program d0 3 h' w = Inl Undefined)"
  by (simp add: dg_move_def dg_is_null_def demo_delegate_def demo_heap_def demo_program_def dg_destroy_def release_def
    destroy_object_def dg_call_def)

end
