(* ===== verification/Delegate_Overloads.thy ===== *)
theory Delegate_Overloads
  imports Delegate
begin

text \<open>
  The overloads of \<open>delegate.hh\<close>: the constructors and the functions \<open>from\<close> that take an object, by pointer or
  by reference, and a member function. Some bind both into a stub, some copy them as a pair into a
  block; the constructors assign what \<open>from\<close> makes. All of them call the same function on the same
  object (\<open>method_overloads_agree\<close>).
\<close>

section \<open>Constructors\<close>

definition dg_null :: "('t, 'm, 'n) delegate \<Rightarrow> ('t, 'm, 'n) delegate" where
  "dg_null g = dg_default g"

definition dg_of_pointer :: "('t, 'm, 'n) delegate \<Rightarrow> ptr \<Rightarrow> ('t, 'm, 'n) delegate" where
  "dg_of_pointer g o_ptr = g\<lparr>dg_object := o_ptr, dg_stub := None, dg_store := None\<rparr>"

text \<open>The members are made as by default, then \<open>*this = from(...)\<close>: the temporary is moved from and destroyed.\<close>

definition dg_make ::
  "('f, 'm, 'n, 't, 'a, 'w, 'r) program \<Rightarrow> ('t, 'm, 'n) delegate \<Rightarrow> ('t, 'm, 'n) delegate \<times> ('f, 'm, 't) heap \<Rightarrow>
   exn + ('t, 'm, 'n) delegate \<times> ('f, 'm, 't) heap" where
  "dg_make prg g tmp_h =
    (let (tmp, h) = tmp_h in
     case dg_move_assign prg (dg_default g) tmp h of
       Inl e \<Rightarrow> Inl e
     | Inr (d, tmp, h) \<Rightarrow> map_sum id (Pair d) (dg_destroy prg tmp h))"

section \<open>The functions from\<close>

text \<open>A reference is the address of an object.\<close>

definition dg_from_method_ref :: "('t, 'm, 'n) delegate \<Rightarrow> nat \<Rightarrow> 'm \<Rightarrow> ('t, 'm, 'n) delegate" where
  "dg_from_method_ref g obj method_ptr = dg_bare g (Outside obj) (Method_stub method_ptr)"

definition dg_from_const_method_ref :: "('t, 'm, 'n) delegate \<Rightarrow> nat \<Rightarrow> 'm \<Rightarrow> ('t, 'm, 'n) delegate" where
  "dg_from_const_method_ref g obj method_ptr = dg_bare g (Outside obj) (Const_method_stub method_ptr)"

definition dg_from_functor ::
  "('f, 'm, 'n, 't, 'a, 'w, 'r) program \<Rightarrow> ('f, 'm) callable \<Rightarrow> ('f, 'm, 't) heap \<Rightarrow>
   ('t, 'm, 'n) delegate \<times> ('f, 'm, 't) heap" where
  "dg_from_functor prg f h = dg_construct prg f h"

definition dg_from_pointer ::
  "('f, 'm, 'n, 't, 'a, 'w, 'r) program \<Rightarrow> 'f \<Rightarrow> ('f, 'm, 't) heap \<Rightarrow> ('t, 'm, 'n) delegate \<times> ('f, 'm, 't) heap" where
  "dg_from_pointer prg function_ptr h = dg_construct prg (Class_object function_ptr) h"

definition dg_from_pair_ref ::
  "('f, 'm, 'n, 't, 'a, 'w, 'r) program \<Rightarrow> nat \<Rightarrow> 'm \<Rightarrow> ('f, 'm, 't) heap \<Rightarrow> ('t, 'm, 'n) delegate \<times> ('f, 'm, 't) heap" where
  "dg_from_pair_ref prg obj method_ptr h = dg_construct prg (Member_pair (Outside obj) method_ptr) h"

definition dg_from_const_pair_ref ::
  "('f, 'm, 'n, 't, 'a, 'w, 'r) program \<Rightarrow> nat \<Rightarrow> 'm \<Rightarrow> ('f, 'm, 't) heap \<Rightarrow> ('t, 'm, 'n) delegate \<times> ('f, 'm, 't) heap" where
  "dg_from_const_pair_ref prg obj method_ptr h = dg_construct prg (Const_member_pair (Outside obj) method_ptr) h"

section \<open>Constructors from an object and a member function\<close>

definition dg_make_method ::
  "('f, 'm, 'n, 't, 'a, 'w, 'r) program \<Rightarrow> ('t, 'm, 'n) delegate \<Rightarrow> ptr \<Rightarrow> 'm \<Rightarrow> ('f, 'm, 't) heap \<Rightarrow>
   exn + ('t, 'm, 'n) delegate \<times> ('f, 'm, 't) heap" where
  "dg_make_method prg g object_ptr method_ptr h = dg_make prg g (dg_from_pair prg object_ptr method_ptr h)"

definition dg_make_const_method ::
  "('f, 'm, 'n, 't, 'a, 'w, 'r) program \<Rightarrow> ('t, 'm, 'n) delegate \<Rightarrow> ptr \<Rightarrow> 'm \<Rightarrow> ('f, 'm, 't) heap \<Rightarrow>
   exn + ('t, 'm, 'n) delegate \<times> ('f, 'm, 't) heap" where
  "dg_make_const_method prg g object_ptr method_ptr h = dg_make prg g (dg_from_const_pair prg object_ptr method_ptr h)"

definition dg_make_method_ref ::
  "('f, 'm, 'n, 't, 'a, 'w, 'r) program \<Rightarrow> ('t, 'm, 'n) delegate \<Rightarrow> nat \<Rightarrow> 'm \<Rightarrow> ('f, 'm, 't) heap \<Rightarrow>
   exn + ('t, 'm, 'n) delegate \<times> ('f, 'm, 't) heap" where
  "dg_make_method_ref prg g obj method_ptr h = dg_make prg g (dg_from_pair_ref prg obj method_ptr h)"

definition dg_make_const_method_ref ::
  "('f, 'm, 'n, 't, 'a, 'w, 'r) program \<Rightarrow> ('t, 'm, 'n) delegate \<Rightarrow> nat \<Rightarrow> 'm \<Rightarrow> ('f, 'm, 't) heap \<Rightarrow>
   exn + ('t, 'm, 'n) delegate \<times> ('f, 'm, 't) heap" where
  "dg_make_const_method_ref prg g obj method_ptr h = dg_make prg g (dg_from_const_pair_ref prg obj method_ptr h)"

lemmas make_defs = dg_make_method_def dg_make_const_method_def dg_make_method_ref_def dg_make_const_method_ref_def
lemmas from_defs = dg_from_pair_def dg_from_const_pair_def dg_from_pair_ref_def dg_from_const_pair_ref_def
  dg_from_method_def dg_from_const_method_def dg_from_method_ref_def dg_from_const_method_ref_def dg_bare_def

section \<open>The overloads agree\<close>

text \<open>A new delegate has nothing to give up, so a constructor makes what \<open>from\<close> made, in a run of \<open>dstep\<close> the
  operation \<open>construct\<close>.\<close>

lemma dg_make_construct: "dg_make prg g tmp_h = Inr tmp_h"
  by (cases tmp_h) (simp add: dg_make_def dg_move_assign_def dg_destroy_def dg_default_def release_def)

definition calls_method ::
  "('f, 'm, 'n, 't, 'a, 'w, 'r) program \<Rightarrow> 'm \<Rightarrow> ptr \<Rightarrow> ('t, 'm, 'n) delegate \<times> ('f, 'm, 't) heap \<Rightarrow> bool" where
  "calls_method prg m p dh \<longleftrightarrow> (\<forall>args w. dg_call prg (fst dh) args (snd dh) w =
    (let (r, w') = c_method prg m p args w in Inr (r, snd dh, w')))"

lemma pair_calls:
  "calls_method prg m p (dg_construct prg (Member_pair p m) h)" "calls_method prg m p (dg_construct prg (Const_member_pair p m) h)"
  by (auto simp: calls_method_def dg_construct_def new_block_def dg_call_def Let_def split: prod.split)

lemma method_overloads_agree:
  fixes h :: "('f, 'm, 't) heap" and prg :: "('f, 'm, 'n, 't, 'a, 'w, 'r) program"
  shows "calls_method prg m p (dg_from_method g p m, h)" "calls_method prg m p (dg_from_const_method g p m, h)"
    "calls_method prg m (Outside obj) (dg_from_method_ref g obj m, h)"
    "calls_method prg m (Outside obj) (dg_from_const_method_ref g obj m, h)"
    "\<exists>dh. dg_make_method prg g p m h = Inr dh \<and> dh = dg_from_pair prg p m h \<and> calls_method prg m p dh"
    "\<exists>dh. dg_make_const_method prg g p m h = Inr dh \<and> dh = dg_from_const_pair prg p m h \<and> calls_method prg m p dh"
    "\<exists>dh. dg_make_method_ref prg g obj m h = Inr dh \<and> dh = dg_from_pair_ref prg obj m h \<and> calls_method prg m (Outside obj) dh"
    "\<exists>dh. dg_make_const_method_ref prg g obj m h = Inr dh \<and> dh = dg_from_const_pair_ref prg obj m h \<and>
      calls_method prg m (Outside obj) dh"
  by (simp_all add: make_defs from_defs dg_make_construct pair_calls)
    (simp_all add: calls_method_def dg_call_def Let_def split: prod.split)

end
