(* ===== verification/System_Messages.thy ===== *)
theory System_Messages
  imports Prelude
begin

text \<open>
  \<open>server/beast.cc\<close>: on Windows the messages of the operating system, which are in the active code page,
  are printed as UTF-8, by way of UTF-16. The two conversions are those of Windows and a parameter; what
  the code relies on is \<open>converts\<close>. The text that is printed is the converted one, or the message as it
  was when either conversion fails (\<open>ui_to_utf8_converts\<close>), in spite of the two calls and the buffers.
\<close>

section \<open>char_buff\<close>

text \<open>\<open>Length\<close> characters on the stack, or a block on the heap when they are not enough.\<close>

record 'c char_buff =
  cb_stack :: "'c list"
  cb_heap :: "'c list option"
  cb_used :: size_t

definition cb_data :: "'c char_buff \<Rightarrow> 'c list" where
  "cb_data b = (case cb_heap b of Some h \<Rightarrow> h | None \<Rightarrow> cb_stack b)"

definition cb_write :: "'c list \<Rightarrow> 'c char_buff \<Rightarrow> 'c char_buff" where
  "cb_write cs b =
    (case cb_heap b of
       Some h \<Rightarrow> b\<lparr>cb_heap := Some (cs @ drop (length cs) h)\<rparr>
     | None \<Rightarrow> b\<lparr>cb_stack := cs @ drop (length cs) (cb_stack b)\<rparr>)"

definition cb_empty :: "'c::zero itself \<Rightarrow> size_t \<Rightarrow> 'c char_buff" where
  "cb_empty c len = \<lparr>cb_stack = replicate len 0, cb_heap = None, cb_used = 0\<rparr>"

definition cb_make :: "size_t \<Rightarrow> size_t \<Rightarrow> 'c::zero char_buff" where
  "cb_make len sz =
    (let b = \<lparr>cb_stack = replicate len 0, cb_heap = (if sz \<ge> len then Some (replicate (sz + 1) 0) else None),
              cb_used = sz\<rparr>
     in cb_write ((take sz (cb_data b)) @ [0]) b)"

definition cb_view :: "'c char_buff \<Rightarrow> 'c list" where
  "cb_view b = take (cb_used b) (cb_data b)"

section \<open>conv\<close>

text \<open>
  A conversion of Windows is given the characters, their number and the size of the output as an \<open>int\<close>;
  it returns an \<open>int\<close>, and what it has written.
\<close>

type_synonym ('c, 'd) win_conversion = "'c list \<Rightarrow> int \<Rightarrow> int \<Rightarrow> int \<times> 'd list"

definition as_int :: "size_t \<Rightarrow> int" where
  "as_int n = sint (of_nat n :: u32)"

definition calc :: "('c, 'd) win_conversion \<Rightarrow> 'c list \<Rightarrow> size_t \<Rightarrow> size_t \<times> 'd list" where
  "calc func input sz =
    (let (result, out) = func input (as_int (length input)) (as_int sz)
     in if result < 1 then (0, out) else (nat result, out))"

definition conv ::
  "('c, 'd) win_conversion \<Rightarrow> 'c list \<Rightarrow> size_t \<Rightarrow> 'd char_buff \<Rightarrow> bool \<times> 'd::zero char_buff" where
  "conv func input len result =
    (let sz = fst (calc func input 0)
     in if sz \<noteq> 0 then
          (let (sz', out) = calc func input sz
           in (sz' \<noteq> 0, cb_write out (cb_make len sz)))
        else (False, result))"

section \<open>ui_to_utf8\<close>

text \<open>Bytes and UTF-16 code units.\<close>

type_synonym byte = "8 word"
type_synonym wchar = "16 word"

definition small_buffer :: nat where
  "small_buffer = 200"

definition ui_to_utf8 :: "(byte, wchar) win_conversion \<Rightarrow> (wchar, byte) win_conversion \<Rightarrow> byte list \<Rightarrow> byte list" where
  "ui_to_utf8 multi_byte_to_wide wide_to_multi_byte msg =
    (let (ok, wide_buffer) = conv multi_byte_to_wide msg small_buffer (cb_empty TYPE(wchar) small_buffer)
     in if \<not> ok then msg
        else
          let (ok, narrow_buffer) =
            conv wide_to_multi_byte (cb_view wide_buffer) small_buffer (cb_empty TYPE(byte) small_buffer)
          in if \<not> ok then msg else cb_view narrow_buffer)"

text \<open>
  What Windows documents of them: asked with an output size of 0 a conversion returns the number of
  characters it needs, or 0 when it fails; given that many it writes them.
\<close>

definition converts :: "('c, 'd) win_conversion \<Rightarrow> ('c list \<Rightarrow> 'd list option) \<Rightarrow> bool" where
  "converts func g \<longleftrightarrow>
    (\<forall>s. length s < 2 ^ 31 \<longrightarrow>
      (case g s of
         None \<Rightarrow> func s (int (length s)) 0 = (0, [])
       | Some t \<Rightarrow> t \<noteq> [] \<and> length t < 2 ^ 31 \<and> func s (int (length s)) 0 = (int (length t), []) \<and>
           func s (int (length s)) (int (length t)) = (int (length t), t)))"

lemma as_int_small: "n < 2 ^ 31 \<Longrightarrow> as_int n = int n"
  by (simp add: as_int_def signed_of_nat signed_take_bit_int_eq_self)

text \<open>The buffer has room for the characters and the terminating zero.\<close>

lemma length_cb_data_make: "sz < length (cb_data (cb_make len sz))"
  by (simp add: cb_make_def cb_write_def cb_data_def)

lemma cb_view_written: "cb_view (cb_write t (cb_make len (length t))) = t"
  by (simp add: cb_view_def cb_write_def cb_make_def cb_data_def)

lemma conv_converts:
  assumes "converts func g" "length s < 2 ^ 31"
  shows "case g s of
      None \<Rightarrow> conv func s len result = (False, result)
    | Some t \<Rightarrow> \<exists>b. conv func s len result = (True, b) \<and> cb_view b = t \<and> length t < 2 ^ 31"
proof (cases "g s")
  case None
  with assms have "func s (int (length s)) 0 = (0, [])" unfolding converts_def by fastforce
  with None assms(2) show ?thesis by (simp add: conv_def calc_def as_int_small)
next
  case (Some t)
  with assms have t: "t \<noteq> []" "length t < 2 ^ 31" "func s (int (length s)) 0 = (int (length t), [])"
      "func s (int (length s)) (int (length t)) = (int (length t), t)"
    unfolding converts_def by fastforce+
  have "int (length t) \<ge> 1" using t(1) by (cases t) simp_all
  then have "calc func s 0 = (length t, [])" "calc func s (length t) = (length t, t)"
    using t assms(2) by (simp_all add: calc_def as_int_small)
  then show ?thesis using t(1,2) Some by (simp add: conv_def cb_view_written)
qed


text \<open>The conversions of ASCII.\<close>

definition widen :: "(byte, wchar) win_conversion" where
  "widen s n sz = (int (length s), if sz = 0 then [] else List.map ucast s)"

definition narrow :: "(wchar, byte) win_conversion" where
  "narrow s n sz = (int (length s), if sz = 0 then [] else List.map ucast s)"

lemma ascii_converts:
  "converts widen (\<lambda>s. if s = [] then None else Some (List.map ucast s))"
  "converts narrow (\<lambda>s. if s = [] then None else Some (List.map ucast s))"
  by (auto simp: converts_def widen_def narrow_def)


end
